(* ===== verification/Go_Strings.thy ===== *)
theory Go_Strings
  imports Main
begin

text \<open>
  Go strings and the functions of the packages strings, strconv and fmt that the gateway uses.
  A Go string is a byte sequence: \<^typ>\<open>string\<close>, one \<^typ>\<open>char\<close> per byte of its UTF-8 text.
  Each function is executable; the lemmas are the ones the components rest on (trimming and
  lowering are idempotent and commute where the code applies both, splitting and joining are
  inverse to each other).
\<close>

named_theorems go_str \<open>facts about the modelled string functions\<close>

section \<open>Strings\<close>

subsection \<open>strings.TrimSpace\<close>

text \<open>
  \<open>unicode.IsSpace\<close> in UTF-8: the six ASCII spaces, and the multi-byte encodings of U+0085,
  U+00A0, U+1680, U+2000 to U+200A, U+2028, U+2029, U+202F, U+205F and U+3000. No encoding is a
  prefix or a suffix of another, so stripping runes is stripping these byte strings.
\<close>

definition ascii_spaces :: string where
  "ascii_spaces = [CHR 0x09, CHR 0x0A, CHR 0x0B, CHR 0x0C, CHR 0x0D, CHR 0x20]"

definition wide_spaces :: "string list" where
  "wide_spaces =
     [[CHR 0xC2, CHR 0x85], [CHR 0xC2, CHR 0xA0], [CHR 0xE1, CHR 0x9A, CHR 0x80]]
     @ map (\<lambda>c. [CHR 0xE2, CHR 0x80, c])
         [CHR 0x80, CHR 0x81, CHR 0x82, CHR 0x83, CHR 0x84, CHR 0x85, CHR 0x86, CHR 0x87,
          CHR 0x88, CHR 0x89, CHR 0x8A, CHR 0xA8, CHR 0xA9, CHR 0xAF]
     @ [[CHR 0xE2, CHR 0x81, CHR 0x9F], [CHR 0xE3, CHR 0x80, CHR 0x80]]"

definition starts_with :: "string \<Rightarrow> string \<Rightarrow> bool" where
  "starts_with p s \<longleftrightarrow> take (length p) s = p"

text \<open>The bytes of the first rune of \<open>s\<close> when it is one of the given runes, else 0.\<close>

definition head_len :: "string \<Rightarrow> string list \<Rightarrow> string \<Rightarrow> nat" where
  "head_len narrow wide s =
     (case s of
        [] \<Rightarrow> 0
      | c # _ \<Rightarrow>
          if c \<in> set narrow then 1
          else (case find (\<lambda>e. e \<noteq> [] \<and> starts_with e s) wide of None \<Rightarrow> 0 | Some e \<Rightarrow> length e))"

function strip_heads :: "string \<Rightarrow> string list \<Rightarrow> string \<Rightarrow> string" where
  "strip_heads narrow wide s =
     (if 0 < head_len narrow wide s \<and> s \<noteq> []
      then strip_heads narrow wide (drop (head_len narrow wide s) s) else s)"
  by pat_completeness auto
termination
  by (relation "measure (\<lambda>(_, _, s). length s)") auto

declare strip_heads.simps [simp del]

definition trim_left :: "string \<Rightarrow> string" where
  "trim_left s = strip_heads ascii_spaces wide_spaces s"

definition trim_right :: "string \<Rightarrow> string" where
  "trim_right s = rev (strip_heads ascii_spaces (map rev wide_spaces) (rev s))"

definition trim_space :: "string \<Rightarrow> string" where
  "trim_space s = trim_right (trim_left s)"

lemma head_len_Nil [simp]: "head_len n w [] = 0"
  by (simp add: head_len_def)

lemma head_len_0_iff:
  "head_len n w s = 0 \<longleftrightarrow>
     s = [] \<or> (hd s \<notin> set n \<and> (\<forall>e \<in> set w. e \<noteq> [] \<longrightarrow> \<not> starts_with e s))"
  by (cases s) (auto simp: head_len_def find_None_iff find_Some_iff split: option.splits)

lemma head_len_0_alt:
  "head_len n w s = 0 \<longleftrightarrow>
     (\<forall>c \<in> set n. \<not> starts_with [c] s) \<and> (\<forall>e \<in> set w. e \<noteq> [] \<longrightarrow> \<not> starts_with e s)"
  by (cases s) (auto simp: head_len_0_iff starts_with_def)

lemma strip_heads_stop: "head_len n w s = 0 \<Longrightarrow> strip_heads n w s = s"
  by (simp add: strip_heads.simps[of n w s])

lemma strip_heads_Nil [simp]: "strip_heads n w [] = []"
  by (simp add: strip_heads_stop)

lemma head_len_strip [simp]: "head_len n w (strip_heads n w s) = 0"
proof (induction n w s rule: strip_heads.induct)
  case (1 n w s)
  then show ?case
    by (cases "0 < head_len n w s \<and> s \<noteq> []") (auto simp: strip_heads.simps[of n w s])
qed

lemma strip_heads_suffix: "\<exists>p. s = p @ strip_heads n w s"
proof (induction n w s rule: strip_heads.induct)
  case (1 n w s)
  show ?case
  proof (cases "0 < head_len n w s \<and> s \<noteq> []")
    case True
    with "1.IH" obtain p where
      p: "drop (head_len n w s) s = p @ strip_heads n w (drop (head_len n w s) s)" by blast
    have "s = take (head_len n w s) s @ drop (head_len n w s) s" by simp
    also have "\<dots> = (take (head_len n w s) s @ p) @ strip_heads n w (drop (head_len n w s) s)"
      by (subst p) simp
    also have "strip_heads n w (drop (head_len n w s) s) = strip_heads n w s"
      using True by (simp add: strip_heads.simps[of n w s])
    finally show ?thesis by blast
  next
    case False
    then show ?thesis by (auto simp: strip_heads.simps[of n w s])
  qed
qed

text \<open>A string with no space rune in front has none in front when its end is cut off.\<close>

lemma starts_with_iff: "starts_with e s \<longleftrightarrow> (\<exists>t. s = e @ t)"
  by (auto simp: starts_with_def) (metis append_take_drop_id)

lemma starts_with_append: "starts_with e s \<Longrightarrow> starts_with e (s @ t)"
  by (auto simp: starts_with_iff)

lemma head_len_append: "head_len n w (s @ t) = 0 \<Longrightarrow> head_len n w s = 0"
  using starts_with_append[of _ s t] by (cases s) (auto simp: head_len_0_iff)

lemma trim_right_prefix: "\<exists>p. s = trim_right s @ p"
proof -
  obtain p where "rev s = p @ strip_heads ascii_spaces (map rev wide_spaces) (rev s)"
    using strip_heads_suffix by blast
  then have "s = trim_right s @ rev p"
    unfolding trim_right_def by (metis rev_append rev_rev_ident)
  then show ?thesis by blast
qed

lemma trim_right_idem [simp]: "trim_right (trim_right s) = trim_right s"
  by (simp add: trim_right_def strip_heads_stop)

lemma trim_left_trim_right: "trim_left (trim_right (trim_left s)) = trim_right (trim_left s)"
proof -
  obtain p where p: "trim_left s = trim_right (trim_left s) @ p" using trim_right_prefix by blast
  have "head_len ascii_spaces wide_spaces (trim_left s) = 0" by (simp add: trim_left_def)
  then have "head_len ascii_spaces wide_spaces (trim_right (trim_left s)) = 0"
    using p head_len_append by metis
  then show ?thesis by (simp add: trim_left_def strip_heads_stop)
qed

lemma trim_space_idem [simp, go_str]: "trim_space (trim_space s) = trim_space s"
  by (simp add: trim_space_def trim_left_trim_right)

lemma trim_space_Nil [simp, go_str]: "trim_space [] = []"
  by (simp add: trim_space_def trim_left_def trim_right_def)

subsection \<open>strings.ToLower, strings.EqualFold\<close>

text \<open>
  The bytes 0x41 to 0x5A are lowered. Of the letters outside ASCII only two have an ASCII lower
  case: U+0130 (to i) and U+212A (to k); they are mapped as Go maps them. Every other byte is
  kept, so a comparison of the result with an ASCII word is decided as Go decides it.
\<close>

definition lower_byte :: "char \<Rightarrow> char" where
  "lower_byte c =
     (if 65 \<le> (of_char c :: nat) \<and> (of_char c :: nat) \<le> 90
      then char_of ((of_char c :: nat) + 32) else c)"

fun to_lower :: "string \<Rightarrow> string" where
  "to_lower [] = []"
| "to_lower (c # cs) =
     (if c = CHR 0xC4 \<and> take 1 cs = [CHR 0xB0] then CHR ''i'' # to_lower (drop 1 cs)
      else if c = CHR 0xE2 \<and> take 2 cs = [CHR 0x84, CHR 0xAA] then CHR ''k'' # to_lower (drop 2 cs)
      else lower_byte c # to_lower cs)"

text \<open>
  The simple case folding of \<open>strings.EqualFold\<close> on ASCII letters. The words the code folds
  against (agent, Bearer) contain neither k nor s, the two letters that fold beyond ASCII.
\<close>

definition equal_fold :: "string \<Rightarrow> string \<Rightarrow> bool" where
  "equal_fold a b \<longleftrightarrow> map lower_byte a = map lower_byte b"

lemma lower_byte_high: "of_char c > (90 :: nat) \<Longrightarrow> lower_byte c = c"
  by (simp add: lower_byte_def)

lemma lower_byte_low: "of_char c < (65 :: nat) \<Longrightarrow> lower_byte c = c"
  by (simp add: lower_byte_def)

lemma of_char_lower_byte:
  "(of_char (lower_byte c) :: nat) =
     (if 65 \<le> (of_char c :: nat) \<and> (of_char c :: nat) \<le> 90
      then of_char c + 32 else of_char c)"
  by (simp add: lower_byte_def)

lemma lower_byte_idem [simp]: "lower_byte (lower_byte c) = lower_byte c"
proof (cases "65 \<le> (of_char c :: nat) \<and> (of_char c :: nat) \<le> 90")
  case True
  then have "(of_char (lower_byte c) :: nat) > 90" by (simp add: of_char_lower_byte)
  then show ?thesis by (rule lower_byte_high)
next
  case False
  then show ?thesis by (auto simp: lower_byte_def)
qed

text \<open>Bytes that are no ASCII letter are the images of themselves only.\<close>

definition caseless :: "char \<Rightarrow> bool" where
  "caseless c \<longleftrightarrow> (of_char c :: nat) < 65 \<or> (122 :: nat) < of_char c"

lemma lower_byte_caseless: "caseless d \<Longrightarrow> lower_byte c = d \<longleftrightarrow> c = d"
proof
  assume d: "caseless d" and eq: "lower_byte c = d"
  then have "\<not> (65 \<le> (of_char c :: nat) \<and> (of_char c :: nat) \<le> 90)"
    using of_char_lower_byte[of c] by (auto simp: caseless_def split: if_splits)
  then show "c = d" using eq by (auto simp: lower_byte_def)
qed (auto simp: caseless_def lower_byte_high lower_byte_low)

lemma caseless_letters [simp]: "\<not> caseless CHR ''i''" "\<not> caseless CHR ''k''"
  by (simp_all add: caseless_def)

lemma to_lower_Cons_caseless:
  "caseless d \<Longrightarrow> to_lower (c # cs) = d # ds \<Longrightarrow> c = d \<and> to_lower cs = ds"
  by (auto simp: lower_byte_caseless split: if_splits)

lemma to_lower_starts_with:
  "list_all caseless e \<Longrightarrow> starts_with e (to_lower u) \<Longrightarrow> starts_with e u"
proof (induction e arbitrary: u)
  case Nil
  then show ?case by (simp add: starts_with_def)
next
  case (Cons d e)
  then obtain ds where l: "to_lower u = d # ds" and ds: "starts_with e ds"
    by (auto simp: starts_with_iff)
  then obtain c cs where u: "u = c # cs" by (cases u) auto
  with l Cons.prems(1) have "c = d" "to_lower cs = ds"
    using to_lower_Cons_caseless by auto
  with Cons.IH Cons.prems(1) ds have "starts_with e cs" by auto
  then show ?case using u \<open>c = d\<close> by (auto simp: starts_with_iff)
qed

lemma to_lower_eq_caseless: "list_all caseless e \<Longrightarrow> to_lower u = e \<Longrightarrow> u = e"
proof (induction e arbitrary: u)
  case Nil
  then show ?case by (cases u) (auto split: if_splits)
next
  case (Cons d e)
  then obtain c cs where u: "u = c # cs" by (cases u) auto
  with Cons.prems have "c = d" "to_lower cs = e" using to_lower_Cons_caseless by auto
  with Cons.IH[of cs] Cons.prems(1) u show ?case by simp
qed

lemma to_lower_Cons_drop: "\<exists>n. to_lower (c # cs) = x # xs \<longrightarrow> xs = to_lower (drop n cs)"
  by (cases "c = CHR 0xC4 \<and> take 1 cs = [CHR 0xB0]";
      cases "c = CHR 0xE2 \<and> take 2 cs = [CHR 0x84, CHR 0xAA]")
     (auto intro: exI[of _ 1] exI[of _ 2] exI[of _ 0])

lemma to_lower_ends_with:
  "list_all caseless e \<Longrightarrow> to_lower u = xs @ e \<Longrightarrow> \<exists>ys. u = ys @ e"
proof (induction xs arbitrary: u)
  case Nil
  then have "u = [] @ e" using to_lower_eq_caseless by simp
  then show ?case by blast
next
  case (Cons x xs)
  then obtain c cs where u: "u = c # cs" by (cases u) auto
  with Cons.prems(2) obtain n where "xs @ e = to_lower (drop n cs)"
    using to_lower_Cons_drop[of c cs x "xs @ e"] by auto
  with Cons.IH[of "drop n cs"] Cons.prems(1) obtain ys where "drop n cs = ys @ e" by auto
  then have "u = (c # take n cs @ ys) @ e" using u by (metis append_Cons append_assoc append_take_drop_id)
  then show ?case by blast
qed

lemma to_lower_idem [simp, go_str]: "to_lower (to_lower s) = to_lower s"
proof (induction s rule: to_lower.induct)
  case (2 c cs)
  have b0: "take 1 (to_lower cs) = [CHR 0xB0] \<Longrightarrow> take 1 cs = [CHR 0xB0]"
    using to_lower_starts_with[of "[CHR 0xB0]" cs] by (simp add: caseless_def starts_with_def)
  have aa: "take 2 (to_lower cs) = [CHR 0x84, CHR 0xAA] \<Longrightarrow> take 2 cs = [CHR 0x84, CHR 0xAA]"
    using to_lower_starts_with[of "[CHR 0x84, CHR 0xAA]" cs]
    by (simp add: caseless_def starts_with_def numeral_2_eq_2)
  have c4: "lower_byte c = CHR 0xC4 \<longleftrightarrow> c = CHR 0xC4"
    and e2: "lower_byte c = CHR 0xE2 \<longleftrightarrow> c = CHR 0xE2"
    by (rule lower_byte_caseless; simp add: caseless_def)+
  have ik: "lower_byte CHR ''i'' = CHR ''i''" "lower_byte CHR ''k'' = CHR ''k''"
    by (simp_all add: lower_byte_def)
  show ?case using "2.IH" b0 aa c4 e2 ik by auto
qed simp

lemma spaces_caseless:
  "c \<in> set ascii_spaces \<Longrightarrow> caseless c"
  "e \<in> set wide_spaces \<Longrightarrow> list_all caseless e"
  by (auto simp: ascii_spaces_def wide_spaces_def caseless_def)

lemma trim_space_fixed:
  "trim_space s = s \<longleftrightarrow>
     head_len ascii_spaces wide_spaces s = 0 \<and>
     head_len ascii_spaces (map rev wide_spaces) (rev s) = 0"
proof
  assume trimmed: "trim_space s = s"
  then have "trim_right s = s" "trim_left s = s"
    by (metis trim_right_idem trim_space_def, metis trim_left_trim_right trim_space_def)
  then show "head_len ascii_spaces wide_spaces s = 0 \<and>
     head_len ascii_spaces (map rev wide_spaces) (rev s) = 0"
    by (metis head_len_strip rev_swap trim_left_def trim_right_def)
next
  assume "head_len ascii_spaces wide_spaces s = 0 \<and>
     head_len ascii_spaces (map rev wide_spaces) (rev s) = 0"
  then show "trim_space s = s"
    by (simp add: trim_space_def trim_left_def trim_right_def strip_heads_stop)
qed

lemma trim_space_to_lower_trim [simp, go_str]:
  "trim_space (to_lower (trim_space s)) = to_lower (trim_space s)"
proof -
  let ?u = "trim_space s"
  have u: "head_len ascii_spaces wide_spaces ?u = 0"
    "head_len ascii_spaces (map rev wide_spaces) (rev ?u) = 0"
    using trim_space_fixed[of ?u] by simp_all
  have front: "starts_with e (to_lower ?u) \<Longrightarrow> starts_with e ?u"
    and rear: "starts_with (rev e) (rev (to_lower ?u)) \<Longrightarrow> starts_with (rev e) (rev ?u)"
    if "list_all caseless e" for e
  proof -
    show "starts_with e (to_lower ?u) \<Longrightarrow> starts_with e ?u"
      using that by (rule to_lower_starts_with)
    assume "starts_with (rev e) (rev (to_lower ?u))"
    then obtain t where "rev (to_lower ?u) = rev e @ t" by (auto simp: starts_with_iff)
    then have "to_lower ?u = rev t @ e" by (metis rev_append rev_rev_ident)
    with that obtain ys where "?u = ys @ e" using to_lower_ends_with by blast
    then show "starts_with (rev e) (rev ?u)" by (simp add: starts_with_iff)
  qed
  have narrow: "starts_with [c] (to_lower ?u) \<Longrightarrow> starts_with [c] ?u"
    "starts_with [c] (rev (to_lower ?u)) \<Longrightarrow> starts_with [c] (rev ?u)"
    if "c \<in> set ascii_spaces" for c
    using front[of "[c]"] rear[of "[c]"] spaces_caseless(1)[OF that] by simp_all
  have "head_len ascii_spaces wide_spaces (to_lower ?u) = 0"
    using u(1) narrow(1) front[OF spaces_caseless(2)] unfolding head_len_0_alt by blast
  moreover have "head_len ascii_spaces (map rev wide_spaces) (rev (to_lower ?u)) = 0"
    using u(2) narrow(2) rear[OF spaces_caseless(2)] unfolding head_len_0_alt set_map by blast
  ultimately show ?thesis by (simp add: trim_space_fixed)
qed

lemma to_lower_eq_Nil [simp]: "to_lower s = [] \<longleftrightarrow> s = []"
  by (cases s) auto

subsection \<open>Prefixes, substrings, split, join\<close>

fun contains :: "string \<Rightarrow> string \<Rightarrow> bool" where
  "contains [] sub = (sub = [])"
| "contains (c # cs) sub = (starts_with sub (c # cs) \<or> contains cs sub)"

definition trim_prefix :: "string \<Rightarrow> string \<Rightarrow> string" where
  "trim_prefix p s = (if starts_with p s then drop (length p) s else s)"

text \<open>\<open>strings.TrimRight(s, "/")\<close> and \<open>strings.Trim(s, "/")\<close>.\<close>

definition trim_right_slash :: "string \<Rightarrow> string" where
  "trim_right_slash s = rev (dropWhile (\<lambda>c. c = CHR ''/'') (rev s))"

definition trim_slash :: "string \<Rightarrow> string" where
  "trim_slash s = trim_right_slash (dropWhile (\<lambda>c. c = CHR ''/'') s)"

fun join :: "string \<Rightarrow> string list \<Rightarrow> string" where
  "join sep [] = []"
| "join sep [p] = p"
| "join sep (p # q # ps) = p @ sep @ join sep (q # ps)"

text \<open>\<open>strings.Split\<close> with a non-empty separator; \<open>acc\<close> is the current field, reversed.\<close>

function split_from :: "string \<Rightarrow> string \<Rightarrow> string \<Rightarrow> string list" where
  "split_from sep acc [] = [rev acc]"
| "split_from sep acc (c # cs) =
     (if sep \<noteq> [] \<and> starts_with sep (c # cs)
      then rev acc # split_from sep [] (drop (length sep - 1) cs)
      else split_from sep (c # acc) cs)"
  by pat_completeness auto
termination
  by (relation "measure (\<lambda>(_, _, s). length s)") auto

definition split_on :: "string \<Rightarrow> string \<Rightarrow> string list" where
  "split_on s sep = split_from sep [] s"

lemma contains_I: "contains (a @ sub @ b) sub"
proof (induction a)
  case Nil
  show ?case
  proof (cases "sub @ b")
    case (Cons c cs)
    have "starts_with sub (c # cs)" unfolding Cons[symmetric] by (auto simp: starts_with_iff)
    then show ?thesis using Cons by simp
  qed simp
qed simp

lemma contains_D: "contains s sub \<Longrightarrow> \<exists>a b. s = a @ sub @ b"
proof (induction s)
  case (Cons c cs)
  from Cons.prems consider t where "c # cs = sub @ t" | "contains cs sub"
    by (auto simp: starts_with_iff)
  then show ?case
  proof cases
    case 1
    then have "c # cs = [] @ sub @ t" by simp
    then show ?thesis by blast
  next
    case 2
    with Cons.IH obtain a b where "cs = a @ sub @ b" by blast
    then have "c # cs = (c # a) @ sub @ b" by simp
    then show ?thesis by blast
  qed
qed simp

lemma contains_iff: "contains s sub \<longleftrightarrow> (\<exists>a b. s = a @ sub @ b)"
  using contains_I contains_D by blast

lemma split_from_not_Nil [simp]: "split_from sep acc s \<noteq> []"
  by (induction sep acc s rule: split_from.induct) auto

lemma join_Cons: "ps \<noteq> [] \<Longrightarrow> join sep (p # ps) = p @ sep @ join sep ps"
  by (cases ps) auto

lemma join_split_from: "sep \<noteq> [] \<Longrightarrow> join sep (split_from sep acc s) = rev acc @ s"
proof (induction sep acc s rule: split_from.induct)
  case (2 sep acc c cs)
  show ?case
  proof (cases "starts_with sep (c # cs)")
    case True
    then have cs: "sep @ drop (length sep - 1) cs = c # cs"
      using \<open>sep \<noteq> []\<close> by (auto simp: starts_with_iff Cons_eq_append_conv)
    have "split_from sep acc (c # cs) = rev acc # split_from sep [] (drop (length sep - 1) cs)"
      using True \<open>sep \<noteq> []\<close> by simp
    then show ?thesis using "2.IH"(1) "2.prems" True cs by (simp add: join_Cons)
  next
    case False
    then show ?thesis using "2.IH"(2) "2.prems" by simp
  qed
qed auto

lemma join_split_on [go_str]: "sep \<noteq> [] \<Longrightarrow> join sep (split_on s sep) = s"
  by (simp add: split_on_def join_split_from)

text \<open>\<open>strings.Fields\<close>: the maximal runs without a space rune.\<close>

function fields_from :: "string \<Rightarrow> string \<Rightarrow> string list" where
  "fields_from acc [] = (if acc = [] then [] else [rev acc])"
| "fields_from acc (c # cs) =
     (let n = head_len ascii_spaces wide_spaces (c # cs)
      in if n = 0 then fields_from (c # acc) cs
         else (if acc = [] then [] else [rev acc]) @ fields_from [] (drop (n - 1) cs))"
  by pat_completeness auto
termination
  by (relation "measure (\<lambda>(_, s). length s)") auto

definition fields :: "string \<Rightarrow> string list" where
  "fields s = fields_from [] s"

subsection \<open>Decimal numbers and quoting\<close>

definition digit_char :: "nat \<Rightarrow> char" where
  "digit_char d = char_of (48 + d)"

fun show_nat :: "nat \<Rightarrow> string" where
  "show_nat n = (if n < 10 then [digit_char n] else show_nat (n div 10) @ [digit_char (n mod 10)])"

declare show_nat.simps [simp del]

definition show_int :: "int \<Rightarrow> string" where
  "show_int i = (if i < 0 then CHR ''-'' # show_nat (nat (- i)) else show_nat (nat i))"

text \<open>\<open>%v\<close> of a list of strings.\<close>

fun joined :: "string list \<Rightarrow> string" where
  "joined [] = []"
| "joined [x] = x"
| "joined (x # y # xs) = x @ '' '' @ joined (y # xs)"

definition show_strings :: "string list \<Rightarrow> string" where
  "show_strings xs = ''['' @ joined xs @ '']''"

fun read_nat :: "string \<Rightarrow> nat" where
  "read_nat [] = 0"
| "read_nat (c # cs) = (of_char c - 48) * 10 ^ length cs + read_nat cs"

lemma read_nat_append: "read_nat (s @ t) = read_nat s * 10 ^ length t + read_nat t"
  by (induction s) (auto simp: algebra_simps power_add)

lemma read_show_nat: "read_nat (show_nat n) = n"
proof (induction n rule: show_nat.induct)
  case (1 n)
  show ?case
  proof (cases "n < 10")
    case True
    then show ?thesis by (subst show_nat.simps) (simp add: digit_char_def)
  next
    case False
    have "read_nat (show_nat n) = read_nat (show_nat (n div 10)) * 10 + n mod 10"
      using False by (subst show_nat.simps) (simp add: read_nat_append digit_char_def)
    with "1.IH"[OF False] show ?thesis by simp
  qed
qed

text \<open>
  \<open>%q\<close> (\<open>strconv.Quote\<close>) on ASCII text; bytes beyond ASCII are copied (Go copies the printable
  runes and escapes the others).
\<close>

definition hex_char :: "nat \<Rightarrow> char" where
  "hex_char d = (if d < 10 then char_of (48 + d) else char_of (87 + d))"

definition quote_byte :: "char \<Rightarrow> string" where
  "quote_byte c =
     (let n = (of_char c :: nat) in
      if n = 34 \<or> n = 92 then [CHR 0x5C, c]
      else if n = 7 then [CHR 0x5C, CHR ''a''] else if n = 8 then [CHR 0x5C, CHR ''b'']
      else if n = 12 then [CHR 0x5C, CHR ''f''] else if n = 10 then [CHR 0x5C, CHR ''n'']
      else if n = 13 then [CHR 0x5C, CHR ''r''] else if n = 9 then [CHR 0x5C, CHR ''t'']
      else if n = 11 then [CHR 0x5C, CHR ''v'']
      else if n < 32 \<or> n = 127
      then [CHR 0x5C, CHR ''x'', hex_char (n div 16), hex_char (n mod 16)]
      else [c])"

definition quote :: "string \<Rightarrow> string" where
  "quote s = CHR 0x22 # concat (map quote_byte s) @ [CHR 0x22]"

end
