(* ===== verification/Go_Float.thy ===== *)
theory Go_Float
  imports Complex_Main "HOL-Library.Log_Nat" Go_Strings
begin

text \<open>
  Go's \<open>float64\<close> arithmetic, as the code uses it for costs and budgets. A finite float is the
  rational number it denotes; an operation is the exact operation followed by \<open>fl\<close>, the
  rounding to 53 significant bits, to nearest, ties to even (IEEE 754 binary64). The exponent is
  unbounded: overflow to infinity, subnormal numbers, signed zeros and NaN are not modelled (the
  costs, budgets and token counts of a request are far inside the normal range).
  The lemmas: rounding is monotone, odd, and the identity on the numbers it can represent.
\<close>

named_theorems fl_defs \<open>definitions of the floating-point operations\<close>

section \<open>Rounding to nearest, ties to even\<close>

definition round_even :: "rat \<Rightarrow> int" where
  "round_even x =
     (let f = \<lfloor>x\<rfloor>; d = x - of_int f
      in if d < 1 / 2 then f else if 1 / 2 < d then f + 1
         else if even f then f else f + 1)"

lemma round_even_bounds: "\<lfloor>x\<rfloor> \<le> round_even x" "round_even x \<le> \<lfloor>x\<rfloor> + 1"
  by (auto simp: round_even_def Let_def)

lemma round_even_of_int [simp]: "round_even (of_int n) = n"
  by (simp add: round_even_def)

lemma round_even_mono: "x \<le> y \<Longrightarrow> round_even x \<le> round_even y"
proof -
  assume le: "x \<le> y"
  then have fl: "\<lfloor>x\<rfloor> \<le> \<lfloor>y\<rfloor>" by (rule floor_mono)
  show ?thesis
  proof (cases "\<lfloor>x\<rfloor> = \<lfloor>y\<rfloor>")
    case True
    with le show ?thesis by (auto simp: round_even_def Let_def)
  next
    case False
    with fl have "\<lfloor>x\<rfloor> + 1 \<le> \<lfloor>y\<rfloor>" by simp
    moreover have "\<lfloor>y\<rfloor> \<le> round_even y" using round_even_bounds(1)[of y] by simp
    ultimately show ?thesis using round_even_bounds(2)[of x] by linarith
  qed
qed

section \<open>The exponent of a positive rational\<close>

text \<open>
  \<open>pow2 e\<close> is \<open>2 ^ e\<close> for any integer exponent. \<open>exp_of x\<close> is the integer \<open>e\<close> with
  \<open>2 ^ e \<le> x < 2 ^ (e + 1)\<close>: the difference of the bit lengths of numerator and denominator,
  corrected by at most one.
\<close>

definition pow2 :: "int \<Rightarrow> rat" where
  "pow2 e = (if 0 \<le> e then 2 ^ nat e else 1 / 2 ^ nat (- e))"

definition exp_of :: "rat \<Rightarrow> int" where
  "exp_of x =
     (let (n, d) = quotient_of x; k = bitlen n - bitlen d
      in if pow2 k \<le> x then k else k - 1)"

lemma pow2_powi: "pow2 e = 2 powi e"
  by (simp add: pow2_def power_int_def field_simps)

lemma pow2_numeral: "pow2 52 = 2 ^ 52" "pow2 53 = 2 ^ 53"
  by (simp_all add: pow2_def)

lemma pow2_pos [simp]: "0 < pow2 e"
  by (simp add: pow2_def)

lemma pow2_nz [simp]: "pow2 e \<noteq> 0"
  using pow2_pos[of e] by linarith

lemma pow2_add: "pow2 (a + b) = pow2 a * pow2 b"
  by (simp add: pow2_powi power_int_add)

lemma pow2_Suc: "pow2 (e + 1) = 2 * pow2 e"
  by (simp add: pow2_powi power_int_add)

lemma pow2_mono: "a \<le> b \<Longrightarrow> pow2 a \<le> pow2 b"
  by (simp add: pow2_powi power_int_increasing)

lemma pow2_less: "pow2 a < pow2 b \<longleftrightarrow> a < b"
  by (metis linorder_not_le pow2_mono pow2_powi power_int_strict_increasing one_less_numeral_iff
      semiring_norm(76))

lemma bitlen_pow2:
  assumes "0 < n"
  shows "pow2 (bitlen n - 1) \<le> of_int n" "of_int n < pow2 (bitlen n)"
proof -
  have b: "2 ^ nat (bitlen n - 1) \<le> n \<and> n < 2 ^ nat (bitlen n)"
    using bitlen_bounds[OF assms] .
  have p: "0 < bitlen n" using assms by (simp add: bitlen_eq_zero_iff bitlen_nonneg order_less_le)
  have "(of_int (2 ^ nat (bitlen n - 1)) :: rat) \<le> of_int n" using b by (simp only: of_int_le_iff)
  then show "pow2 (bitlen n - 1) \<le> of_int n" using p by (simp add: pow2_def)
  have "(of_int n :: rat) < of_int (2 ^ nat (bitlen n))" using b by (simp only: of_int_less_iff)
  then show "of_int n < pow2 (bitlen n)" using p by (simp add: pow2_def)
qed

lemma exp_of_bounds:
  assumes "0 < x"
  shows "pow2 (exp_of x) \<le> x" "x < pow2 (exp_of x + 1)"
proof -
  obtain n d where q: "quotient_of x = (n, d)" by (cases "quotient_of x")
  have d: "0 < d" using q by (rule quotient_of_denom_pos)
  have x: "x = of_int n / of_int d" using q by (rule quotient_of_div)
  with assms d have n: "0 < n" by (simp add: zero_less_divide_iff)
  let ?k = "bitlen n - bitlen d"
  have "x < pow2 (bitlen n) / pow2 (bitlen d - 1)"
    unfolding x using bitlen_pow2[OF n] bitlen_pow2[OF d] d n by (intro frac_less) auto
  also have "\<dots> = pow2 (?k + 1)"
    using pow2_add[of "?k + 1" "bitlen d - 1"] by (simp add: field_simps)
  finally have up: "x < pow2 (?k + 1)" .
  have "pow2 (bitlen n - 1) / pow2 (bitlen d) \<le> x"
    unfolding x using bitlen_pow2[OF n] bitlen_pow2[OF d] d n by (intro frac_le) auto
  moreover have "pow2 (bitlen n - 1) / pow2 (bitlen d) = pow2 (?k - 1)"
    using pow2_add[of "?k - 1" "bitlen d"] by (simp add: field_simps)
  ultimately have low: "pow2 (?k - 1) \<le> x" by simp
  show "pow2 (exp_of x) \<le> x" "x < pow2 (exp_of x + 1)"
    using up low by (auto simp: exp_of_def q Let_def)
qed

lemma exp_of_unique: "pow2 e \<le> x \<Longrightarrow> x < pow2 (e + 1) \<Longrightarrow> exp_of x = e"
proof -
  assume a: "pow2 e \<le> x" "x < pow2 (e + 1)"
  then have "0 < x" using pow2_pos[of e] by linarith
  note b = exp_of_bounds[OF this]
  have "e < exp_of x + 1" using a b pow2_less[of e "exp_of x + 1"] by linarith
  moreover have "exp_of x < e + 1" using a b pow2_less[of "exp_of x" "e + 1"] by linarith
  ultimately show ?thesis by simp
qed

lemma exp_of_mono: "0 < x \<Longrightarrow> x \<le> y \<Longrightarrow> exp_of x \<le> exp_of y"
  using exp_of_bounds[of x] exp_of_bounds[of y] pow2_less[of "exp_of x" "exp_of y + 1"] by linarith

section \<open>The rounding function\<close>

definition ulp :: "rat \<Rightarrow> rat" where
  "ulp x = pow2 (exp_of x - 52)"

definition fl_pos :: "rat \<Rightarrow> rat" where
  "fl_pos x = of_int (round_even (x / ulp x)) * ulp x"

definition fl :: "rat \<Rightarrow> rat" where
  "fl x = (if x = 0 then 0 else if 0 < x then fl_pos x else - fl_pos (- x))"

definition is_float :: "rat \<Rightarrow> bool" where
  "is_float x \<longleftrightarrow> fl x = x"

lemma ulp_pos [simp]: "0 < ulp x"
  by (simp add: ulp_def)

lemma pow2_ulp: "pow2 (exp_of x) = 2 ^ 52 * ulp x" "pow2 (exp_of x + 1) = 2 ^ 53 * ulp x"
proof -
  have "exp_of x = 52 + (exp_of x - 52)" "exp_of x + 1 = 53 + (exp_of x - 52)" by simp_all
  then show "pow2 (exp_of x) = 2 ^ 52 * ulp x" "pow2 (exp_of x + 1) = 2 ^ 53 * ulp x"
    unfolding ulp_def by (metis pow2_add pow2_numeral(1), metis pow2_add pow2_numeral(2))
qed

lemma mantissa_bounds:
  assumes "0 < x"
  shows "2 ^ 52 \<le> x / ulp x" "x / ulp x < 2 ^ 53"
proof -
  show "2 ^ 52 \<le> x / ulp x" "x / ulp x < 2 ^ 53"
    using exp_of_bounds[OF assms] pow2_ulp[of x]
    by (simp_all add: pos_le_divide_eq pos_divide_less_eq)
qed

lemma fl_pos_bounds:
  assumes "0 < x"
  shows "pow2 (exp_of x) \<le> fl_pos x" "fl_pos x \<le> pow2 (exp_of x + 1)"
proof -
  have "of_int (2 ^ 52) \<le> x / ulp x" "x / ulp x \<le> of_int (2 ^ 53)"
    using mantissa_bounds[OF assms] by simp_all
  then have "2 ^ 52 \<le> round_even (x / ulp x)" "round_even (x / ulp x) \<le> 2 ^ 53"
    using round_even_mono[of "of_int (2 ^ 52)" "x / ulp x"]
      round_even_mono[of "x / ulp x" "of_int (2 ^ 53)"] by (simp_all only: round_even_of_int)
  then have "(of_int (2 ^ 52) :: rat) \<le> of_int (round_even (x / ulp x))"
    "of_int (round_even (x / ulp x)) \<le> (of_int (2 ^ 53) :: rat)"
    by (simp_all only: of_int_le_iff)
  then show "pow2 (exp_of x) \<le> fl_pos x" "fl_pos x \<le> pow2 (exp_of x + 1)"
    unfolding fl_pos_def pow2_ulp by (simp_all add: mult_right_mono less_imp_le)
qed

lemma fl_pos_mono:
  assumes "0 < x" "x \<le> y"
  shows "fl_pos x \<le> fl_pos y"
proof (cases "exp_of x = exp_of y")
  case True
  then have "ulp x = ulp y" by (simp add: ulp_def)
  moreover have "x / ulp y \<le> y / ulp y" using assms by (simp add: divide_right_mono less_imp_le)
  ultimately show ?thesis
    unfolding fl_pos_def using round_even_mono by (simp add: mult_right_mono less_imp_le)
next
  case False
  with exp_of_mono[OF assms] have "exp_of x + 1 \<le> exp_of y" by simp
  then have "pow2 (exp_of x + 1) \<le> pow2 (exp_of y)" by (rule pow2_mono)
  then show ?thesis using fl_pos_bounds(2)[of x] fl_pos_bounds(1)[of y] assms by linarith
qed

lemma fl_pos_pos: "0 < x \<Longrightarrow> 0 < fl_pos x"
  using fl_pos_bounds(1)[of x] pow2_pos[of "exp_of x"] by linarith

lemma fl_0 [simp]: "fl 0 = 0"
  by (simp add: fl_def)

lemma fl_minus: "fl (- x) = - fl x"
  by (simp add: fl_def)

lemma fl_nonneg: "0 \<le> x \<Longrightarrow> 0 \<le> fl x"
  using fl_pos_pos[of x] by (auto simp: fl_def)

lemma fl_mono: "x \<le> y \<Longrightarrow> fl x \<le> fl y"
proof -
  assume le: "x \<le> y"
  consider "0 < x" | "x \<le> 0" "0 \<le> y" | "y < 0" using le by linarith
  then show ?thesis
  proof cases
    case 1
    with le show ?thesis using fl_pos_mono[of x y] by (simp add: fl_def)
  next
    case 2
    then show ?thesis using fl_nonneg[of y] fl_nonneg[of "- x"] fl_minus[of x] by simp
  next
    case 3
    with le show ?thesis using fl_pos_mono[of "- y" "- x"] by (simp add: fl_def)
  qed
qed

text \<open>A number with at most 53 significant bits is represented exactly.\<close>

lemma fl_dyadic:
  assumes "\<bar>m\<bar> < 2 ^ 53"
  shows "fl (of_int m * pow2 k) = of_int m * pow2 k"
proof -
  have pos: "fl_pos (of_int n * pow2 k) = of_int n * pow2 k" if n: "0 < n" "n < 2 ^ 53" for n
  proof -
    let ?x = "of_int n * pow2 k" and ?b = "bitlen n - 1"
    have x: "0 < ?x" using n by simp
    have b: "0 \<le> ?b" "?b \<le> 52"
    proof -
      have "bitlen n \<le> 53" using n bitlen_le_iff_power[of n 53] by simp
      moreover have "0 < bitlen n"
        using n by (simp add: bitlen_eq_zero_iff bitlen_nonneg order_less_le)
      ultimately show "0 \<le> ?b" "?b \<le> 52" by simp_all
    qed
    have "exp_of ?x = ?b + k"
      using bitlen_pow2[OF n(1)] pow2_add[of "?b" k] pow2_add[of "?b + 1" k]
      by (intro exp_of_unique) (simp_all add: algebra_simps)
    then have u: "ulp ?x = pow2 (?b - 52) * pow2 k"
      by (simp add: ulp_def flip: pow2_add) (simp add: algebra_simps)
    have "of_int n / pow2 (?b - 52) = (of_int (n * 2 ^ nat (52 - ?b)) :: rat)"
      using b by (auto simp: pow2_def)
    then have "?x / ulp ?x = of_int (n * 2 ^ nat (52 - ?b))"
      unfolding u by (metis mult_divide_mult_cancel_right less_irrefl pow2_pos)
    then show ?thesis
      unfolding fl_pos_def
      by (metis round_even_of_int nonzero_eq_divide_eq less_irrefl ulp_pos)
  qed
  show ?thesis
  proof (cases "m = 0")
    case False
    then consider "0 < m" | "0 < - m" by linarith
    then show ?thesis
    proof cases
      case 1
      with pos[of m] assms show ?thesis by (simp add: fl_def)
    next
      case 2
      with pos[of "- m"] assms have "fl (of_int (- m) * pow2 k) = of_int (- m) * pow2 k"
        using mult_neg_pos[of "of_int m" "pow2 k"] 2 by (simp add: fl_def)
      then show ?thesis using fl_minus[of "of_int m * pow2 k"] by simp
    qed
  qed simp
qed

lemma fl_of_int: "\<bar>m\<bar> < 2 ^ 53 \<Longrightarrow> fl (of_int m) = of_int m"
  using fl_dyadic[of m 0] by (simp add: pow2_def)

section \<open>The operations\<close>

definition f_add :: "rat \<Rightarrow> rat \<Rightarrow> rat" where
  [fl_defs]: "f_add x y = fl (x + y)"

definition f_mul :: "rat \<Rightarrow> rat \<Rightarrow> rat" where
  [fl_defs]: "f_mul x y = fl (x * y)"

definition f_div :: "rat \<Rightarrow> rat \<Rightarrow> rat" where
  [fl_defs]: "f_div x y = fl (x / y)"

definition f_of_int :: "int \<Rightarrow> rat" where
  [fl_defs]: "f_of_int n = fl (of_int n)"

text \<open>
  \<open>int(f)\<close>: truncation towards zero. Where the value does not fit in 64 bits the result is
  implementation-dependent in Go; the value of the amd64 compiler is taken.
\<close>

definition f_to_int :: "rat \<Rightarrow> int" where
  "f_to_int x =
     (let t = (if 0 \<le> x then \<lfloor>x\<rfloor> else \<lceil>x\<rceil>)
      in if - (2 ^ 63) \<le> t \<and> t < 2 ^ 63 then t else - (2 ^ 63))"

text \<open>\<open>%.2f\<close>: the exact value rounded to two decimals, ties to even.\<close>

definition show_2f :: "rat \<Rightarrow> string" where
  "show_2f x =
     (let c = nat (round_even (\<bar>x\<bar> * 100))
      in (if x < 0 then ''-'' else '''') @ show_nat (c div 100) @ ''.''
         @ [digit_char (c mod 100 div 10), digit_char (c mod 10)])"

lemma f_of_int_nonneg: "0 \<le> n \<Longrightarrow> 0 \<le> f_of_int n"
  by (simp add: f_of_int_def fl_nonneg)

end
