(* ===== verification/Go_Prelude.thy ===== *)
theory Go_Prelude
  imports Go_Strings Go_Float "HOL-Library.Word" "HOL-Library.AList" "HOL-Library.Multiset"
begin

text \<open>
  The Go values, integers, times and errors that every component of the gateway uses, with the
  lemmas and hint collections the component theories share.

  \<^item> A Go \<open>int\<close> (64 bit) is an \<^typ>\<open>int\<close>; where the code can wrap, \<open>wrap64\<close> writes it out.
    \<open>int32\<close> counters are \<open>32 word\<close>s read with \<^const>\<open>sint\<close>.
  \<^item> \<open>time.Time\<close> is nanoseconds since the zero time, so the zero \<open>time.Time\<close> is 0;
    \<open>time.Duration\<close> is nanoseconds. A reading of the clock is an argument of the operation.
  \<^item> A Go error is a \<open>goerr\<close>; a call that can fail returns \<open>goerr + 'a\<close>.
  \<^item> \<open>any\<close> is \<open>goval\<close>; \<open>map[string]any\<close> is an association list, \<open>None\<close> for the nil map.
\<close>

named_theorems go_time \<open>definitions of the time arithmetic\<close>

section \<open>Integers\<close>

text \<open>Two's complement wrap-around of the 64-bit \<open>int\<close>, and division truncated towards zero.\<close>

definition wrap64 :: "int \<Rightarrow> int" where
  "wrap64 x = (x + 2 ^ 63) mod 2 ^ 64 - 2 ^ 63"

definition go_div :: "int \<Rightarrow> int \<Rightarrow> int" where
  "go_div a b = sgn a * sgn b * (\<bar>a\<bar> div \<bar>b\<bar>)"

lemma wrap64_id: "- (2 ^ 63) \<le> x \<Longrightarrow> x < 2 ^ 63 \<Longrightarrow> wrap64 x = x"
  by (simp add: wrap64_def)

lemma wrap64_over:
  assumes "2 ^ 63 \<le> x" "x < 2 ^ 63 + 2 ^ 64"
  shows "wrap64 x = x - 2 ^ 64"
proof -
  have "(x + 2 ^ 63) mod 2 ^ 64 = (x + 2 ^ 63 - 2 ^ 64) mod 2 ^ 64" by (rule minus_mod_self2[symmetric])
  also have "\<dots> = x + 2 ^ 63 - 2 ^ 64" using assms by (intro mod_pos_pos_trivial) auto
  finally show ?thesis by (simp add: wrap64_def)
qed

lemma go_div_nonneg: "0 \<le> a \<Longrightarrow> 0 < b \<Longrightarrow> go_div a b = a div b"
  by (cases "a = 0") (simp_all add: go_div_def sgn_if)

section \<open>Times and durations\<close>

type_synonym gotime = int
type_synonym duration = int

definition is_zero_time :: "gotime \<Rightarrow> bool" where
  [go_time]: "is_zero_time t \<longleftrightarrow> t = 0"

text \<open>\<open>t.Sub(u)\<close> saturates at the largest and the smallest duration.\<close>

definition time_sub :: "gotime \<Rightarrow> gotime \<Rightarrow> duration" where
  [go_time]: "time_sub t u = max (- (2 ^ 63)) (min (2 ^ 63 - 1) (t - u))"

definition before :: "gotime \<Rightarrow> gotime \<Rightarrow> bool" where
  [go_time]: "before t u \<longleftrightarrow> t < u"

text \<open>\<open>d.Milliseconds()\<close>, and \<open>time.Duration(n) * time.Millisecond\<close>, which may wrap.\<close>

definition millis :: "duration \<Rightarrow> int" where
  [go_time]: "millis d = go_div d 1000000"

definition dur_ms :: "int \<Rightarrow> duration" where
  "dur_ms n = wrap64 (n * 1000000)"

abbreviation second :: duration where "second \<equiv> 1000000000"
abbreviation minute :: duration where "minute \<equiv> 60000000000"

text \<open>
  \<open>t.UnixMilli()\<close> and \<open>time.UnixMilli(ms)\<close>; 1970 begins 62135596800 seconds after the zero time.
\<close>

definition unix_milli :: "gotime \<Rightarrow> int" where
  "unix_milli t = (t - 62135596800 * second) div 1000000"

definition milli_time :: "int \<Rightarrow> gotime" where
  "milli_time ms = ms * 1000000 + 62135596800 * second"

lemma unix_milli_time [simp]: "unix_milli (milli_time ms) = ms"
  by (simp add: unix_milli_def milli_time_def)

lemma dur_ms_exact: "0 \<le> n \<Longrightarrow> n \<le> 9223372036854 \<Longrightarrow> dur_ms n = n * 1000000"
  by (simp add: dur_ms_def wrap64_id)

lemma millis_nonneg: "0 \<le> d \<Longrightarrow> 0 \<le> millis d"
  by (simp add: millis_def go_div_nonneg)

lemma millis_mono: "0 \<le> d \<Longrightarrow> d \<le> d' \<Longrightarrow> millis d \<le> millis d'"
  by (simp add: millis_def go_div_nonneg zdiv_mono1)

lemma time_sub_nonneg: "u \<le> t \<Longrightarrow> 0 \<le> time_sub t u"
  by (simp add: time_sub_def)

section \<open>Errors\<close>

text \<open>
  \<open>upstream.Kind\<close> and the error values the code makes or tests. \<open>ErrWrap p e\<close> is an error whose
  text is \<open>p\<close> followed by that of \<open>e\<close> and whose \<open>Unwrap\<close> is \<open>e\<close> (\<open>fmt.Errorf\<close> with \<open>%w\<close>, the
  \<open>url.Error\<close> of an HTTP client). \<open>upstream.Error\<close> has no \<open>Unwrap\<close>: it ends the chain.
\<close>

datatype ukind = KindTimeout | KindBackendUnhealthy | KindUpstream4xx | KindUpstream5xx
  | KindBackendError

datatype goerr =
    ErrText string
  | ErrUpstream ukind string
  | ErrDeadlineExceeded
  | ErrCanceled
  | ErrNotFound
  | ErrRAG (rag_trace: string) (rag_status: int) (rag_code: string) (rag_msg: string)
  | ErrWrap string goerr

definition kind_string :: "ukind \<Rightarrow> string" where
  "kind_string k =
     (case k of KindTimeout \<Rightarrow> ''timeout'' | KindBackendUnhealthy \<Rightarrow> ''backend_unhealthy''
      | KindUpstream4xx \<Rightarrow> ''upstream_4xx'' | KindUpstream5xx \<Rightarrow> ''upstream_5xx''
      | KindBackendError \<Rightarrow> ''backend_error'')"

text \<open>\<open>err.Error()\<close>.\<close>

fun err_text :: "goerr \<Rightarrow> string" where
  "err_text (ErrText s) = s"
| "err_text (ErrUpstream k m) = kind_string k @ '': '' @ m"
| "err_text ErrDeadlineExceeded = ''context deadline exceeded''"
| "err_text ErrCanceled = ''context canceled''"
| "err_text ErrNotFound = ''request not found''"
| "err_text (ErrRAG _ _ _ m) = m"
| "err_text (ErrWrap p e) = p @ err_text e"

text \<open>\<open>errors.Is(err, context.DeadlineExceeded)\<close>, and \<open>errors.As\<close> for the two error types.\<close>

fun is_deadline :: "goerr \<Rightarrow> bool" where
  "is_deadline ErrDeadlineExceeded = True"
| "is_deadline (ErrWrap _ e) = is_deadline e"
| "is_deadline _ = False"

fun as_upstream :: "goerr \<Rightarrow> (ukind \<times> string) option" where
  "as_upstream (ErrUpstream k m) = Some (k, m)"
| "as_upstream (ErrWrap _ e) = as_upstream e"
| "as_upstream _ = None"

fun as_rag :: "goerr \<Rightarrow> (string \<times> int \<times> string \<times> string) option" where
  "as_rag (ErrRAG t s c m) = Some (t, s, c, m)"
| "as_rag (ErrWrap _ e) = as_rag e"
| "as_rag _ = None"

lemma upstream_not_deadline: "as_upstream e = Some km \<Longrightarrow> \<not> is_deadline e"
  by (induction e) auto

section \<open>Values of type any\<close>

datatype goval =
    VNil
  | VBool bool
  | VFloat rat
  | VInt int
  | VInt64 int
  | VStr string
  | VList "goval list"
  | VMap "(string \<times> goval) list"

type_synonym goobj = "(string \<times> goval) list"

text \<open>\<open>m[k]\<close> on a map that may be nil: the zero value where the key is missing.\<close>

definition obj_get :: "goobj option \<Rightarrow> string \<Rightarrow> goval" where
  "obj_get m k =
     (case m of None \<Rightarrow> VNil
      | Some kvs \<Rightarrow> (case map_of kvs k of None \<Rightarrow> VNil | Some v \<Rightarrow> v))"

definition as_string :: "goval \<Rightarrow> string option" where
  "as_string v = (case v of VStr s \<Rightarrow> Some s | _ \<Rightarrow> None)"

definition as_list :: "goval \<Rightarrow> goval list option" where
  "as_list v = (case v of VList xs \<Rightarrow> Some xs | _ \<Rightarrow> None)"

text \<open>The value or the zero value of a failed assertion, \<open>s, _ := v.(string)\<close>.\<close>

definition string_or_empty :: "goval \<Rightarrow> string" where
  "string_or_empty v = (case as_string v of Some s \<Rightarrow> s | None \<Rightarrow> [])"

lemma obj_get_update [simp]:
  "obj_get (Some (AList.update k v m)) k' = (if k = k' then v else obj_get (Some m) k')"
  by (simp add: obj_get_def update_conv)

lemma obj_get_None [simp]: "obj_get None k = VNil"
  by (simp add: obj_get_def)

section \<open>Lists and results\<close>

text \<open>The first element that satisfies a predicate, as the lookup loops of the code find it.\<close>

lemma find_Some_D: "find P xs = Some x \<Longrightarrow> x \<in> set xs \<and> P x"
  by (induction xs) (auto split: if_splits)

lemma find_exists: "x \<in> set xs \<Longrightarrow> P x \<Longrightarrow> \<exists>y. find P xs = Some y"
  by (induction xs) auto

lemma find_unique:
  assumes "distinct (map f xs)" "x \<in> set xs"
  shows "find (\<lambda>y. f y = f x) xs = Some x"
  using assms by (induction xs) (auto simp: rev_image_eqI)

lemma find_first:
  assumes "x \<in> set xs" "f x = k"
  obtains y where "find (\<lambda>y. f y = k) xs = Some y" "y \<in> set xs" "f y = k"
  using assms by (metis (mono_tags, lifting) find_Some_D find_exists)

lemma map_of_delete_other [simp]: "k \<noteq> k' \<Longrightarrow> map_of (AList.delete k m) k' = map_of m k'"
  by (simp add: delete_conv')

end
