(* ===== verification/Req_Types.thy ===== *)
theory Req_Types
  imports Go_Prelude
begin

text \<open>
  The data of the package \<open>internal/types\<close> (\<open>types.go\<close>, \<open>normalize.go\<close>) and the pipeline
  classification of \<open>internal/pipelines/registry.go\<close>: requests, decisions, results, and the
  normalisation of a request. The lemmas: normalisation is idempotent, keeps every field but the
  three it fills, and always leaves a pipeline and a context.
\<close>

section \<open>Request type and pipeline names\<close>

definition RequestTypeInference :: string where "RequestTypeInference = ''inference''"
definition RequestTypeRAG :: string where "RequestTypeRAG = ''rag''"
definition RequestTypeAgent :: string where "RequestTypeAgent = ''agent''"

definition DefaultPipelineInference :: string where
  "DefaultPipelineInference = ''inference/basic:v1''"
definition DefaultPipelineRAG :: string where "DefaultPipelineRAG = ''rag/basic:v1''"
definition DefaultPipelineAgent :: string where "DefaultPipelineAgent = ''agent/basic:v0''"

lemmas request_type_defs =
  RequestTypeInference_def RequestTypeRAG_def RequestTypeAgent_def
lemmas pipeline_defs =
  DefaultPipelineInference_def DefaultPipelineRAG_def DefaultPipelineAgent_def

section \<open>Records\<close>

record RequestOptions =
  opt_stream :: bool
  opt_max_tokens :: int

record AIRequest =
  request_id :: string
  request_type :: string
  pipeline_ref :: string
  req_context :: "goobj option"
  tenant_id :: string
  task_type :: string
  priority :: string
  req_input :: "goobj option"
  options :: RequestOptions

record PolicySnapshot =
  ps_policy_reason :: string
  ps_primary_backend :: string
  ps_primary_route_reason :: string
  ps_estimated_cost :: rat
  ps_overload_degrade :: bool
  ps_queue_depth :: int

record RouteDecision =
  backend_name :: string
  reason :: string
  estimated_cost :: rat
  fallback_chain :: "string list"

record BackendTiming =
  bt_ttft_ms :: int
  bt_completion_latency_ms :: int
  bt_tpot_ms :: int
  bt_streamed :: bool

record ExecutionResult =
  ex_status :: string
  ex_backend_name :: string
  ex_output :: "goobj option"
  ex_used_fallback :: bool
  ex_error :: "goerr option"
  ex_timing :: "BackendTiming option"

record SLOSnapshot =
  ttft_ms :: int
  tpot_ms :: int
  completion_latency_ms :: int
  fallback_triggered :: bool

record AIMetrics =
  am_ttft_ms :: int
  am_tpot_ms :: int
  am_completion_latency_ms :: int
  am_estimated_cost :: rat
  am_queue_wait_time_ms :: int
  am_server_received_at :: int

text \<open>\<open>FallbackState\<close> and \<open>DegradeState\<close> have the same two fields.\<close>

record FlagState =
  fs_triggered :: bool
  fs_reason :: string

record AIResponse =
  rs_request_id :: string
  rs_trace_id :: string
  rs_request_type :: string
  rs_pipeline_ref :: string
  rs_selected_backend :: string
  rs_route_reason :: string
  rs_policy_reason :: string
  rs_effective_priority :: string
  rs_status :: string
  rs_result :: "goobj option"
  rs_metrics :: AIMetrics
  rs_fallback :: FlagState
  rs_degrade :: FlagState

record PolicyDecision =
  allowed :: bool
  pd_reason :: string
  normalized :: AIRequest

text \<open>\<open>None\<close> is the nil health map.\<close>

type_synonym health = "(string \<times> bool) list option"

record RuntimeState =
  queue_depth :: int
  backend_health :: health
  recent_timeout_spike :: bool
  overload_degrade :: bool

record BackendResponse =
  br_output :: "goobj option"
  br_timing :: "BackendTiming option"

record BackendMetadata =
  bm_name :: string
  bm_type :: string
  bm_capabilities :: "string list"
  bm_cost_unit :: rat
  bm_max_concurrency :: int

record CostEstimate =
  unit_cost :: rat
  estimated_total :: rat
  budget_fit :: bool

record ReliabilityExecuteOptions =
  force_primary_backend :: string
  no_fallback :: bool

record ScalingSignals =
  ss_queue_depth :: int
  ss_timeout_spike :: bool
  ss_ttft_degradation_ratio :: rat
  ss_recent_fallback_rate :: rat
  ss_backend_saturation_hints :: "string list"

record RetrievalChunk =
  chunk_text :: string
  chunk_source :: string
  chunk_score :: rat

text \<open>The zero values, as Go makes them for a struct literal without fields.\<close>

definition zero_request :: AIRequest where
  "zero_request =
     \<lparr>request_id = [], request_type = [], pipeline_ref = [], req_context = None, tenant_id = [],
      task_type = [], priority = [], req_input = None,
      options = \<lparr>opt_stream = False, opt_max_tokens = 0\<rparr>\<rparr>"

section \<open>NormalizeAIRequest\<close>

definition NormalizeAIRequest :: "AIRequest \<Rightarrow> AIRequest" where
  "NormalizeAIRequest req =
     (let rt = to_lower (trim_space (request_type req));
          out1 = req\<lparr>request_type :=
                   (if rt = [] \<or> rt = RequestTypeInference then RequestTypeInference else rt)\<rparr>;
          out2 = (if trim_space (pipeline_ref out1) = []
                  then out1\<lparr>pipeline_ref :=
                    (if request_type out1 = RequestTypeRAG then DefaultPipelineRAG
                     else if request_type out1 = RequestTypeAgent then DefaultPipelineAgent
                     else DefaultPipelineInference)\<rparr>
                  else out1)
      in (case req_context out2 of None \<Rightarrow> out2\<lparr>req_context := Some []\<rparr> | Some _ \<Rightarrow> out2))"

lemma default_pipelines_nonblank:
  "trim_space DefaultPipelineInference \<noteq> []" "trim_space DefaultPipelineRAG \<noteq> []"
  "trim_space DefaultPipelineAgent \<noteq> []"
  unfolding pipeline_defs by code_simp+

lemma norm_request_type:
  "request_type (NormalizeAIRequest r) =
     (let rt = to_lower (trim_space (request_type r))
      in if rt = [] then RequestTypeInference else rt)"
  by (simp add: NormalizeAIRequest_def Let_def split: option.split)

lemma norm_context:
  "req_context (NormalizeAIRequest r) = Some (case req_context r of None \<Rightarrow> [] | Some c \<Rightarrow> c)"
  by (simp add: NormalizeAIRequest_def Let_def split: option.split)

lemma norm_other [simp]:
  "request_id (NormalizeAIRequest r) = request_id r"
  "tenant_id (NormalizeAIRequest r) = tenant_id r"
  "task_type (NormalizeAIRequest r) = task_type r"
  "priority (NormalizeAIRequest r) = priority r"
  "req_input (NormalizeAIRequest r) = req_input r"
  "options (NormalizeAIRequest r) = options r"
  by (simp_all add: NormalizeAIRequest_def Let_def split: option.split)

lemma norm_pipeline:
  "pipeline_ref (NormalizeAIRequest r) =
     (if trim_space (pipeline_ref r) \<noteq> [] then pipeline_ref r
      else if request_type (NormalizeAIRequest r) = RequestTypeRAG then DefaultPipelineRAG
      else if request_type (NormalizeAIRequest r) = RequestTypeAgent then DefaultPipelineAgent
      else DefaultPipelineInference)"
  by (simp add: NormalizeAIRequest_def Let_def split: option.split)

text \<open>A request type is in normal form when it is what lowering and trimming make of it.\<close>

definition normal_type :: "string \<Rightarrow> bool" where
  "normal_type t \<longleftrightarrow> t \<noteq> [] \<and> to_lower (trim_space t) = t"

lemma norm_normal_type: "normal_type (request_type (NormalizeAIRequest r))"
proof -
  have "normal_type RequestTypeInference"
    unfolding normal_type_def RequestTypeInference_def by code_simp
  moreover have "to_lower (trim_space s) \<noteq> [] \<Longrightarrow> normal_type (to_lower (trim_space s))" for s
    by (simp add: normal_type_def)
  ultimately show ?thesis by (simp add: norm_request_type Let_def)
qed

lemma norm_pipeline_nonblank: "trim_space (pipeline_ref (NormalizeAIRequest r)) \<noteq> []"
  using default_pipelines_nonblank by (simp add: norm_pipeline)

lemma NormalizeAIRequest_twice:
  "NormalizeAIRequest (NormalizeAIRequest r) = NormalizeAIRequest r"
proof -
  let ?n = "NormalizeAIRequest r"
  have t: "request_type (NormalizeAIRequest ?n) = request_type ?n"
    using norm_normal_type[of r] by (simp add: norm_request_type[of ?n] normal_type_def Let_def)
  have "pipeline_ref (NormalizeAIRequest ?n) = pipeline_ref ?n"
    using norm_pipeline_nonblank[of r] by (simp add: norm_pipeline[of ?n])
  moreover have "req_context (NormalizeAIRequest ?n) = req_context ?n"
    by (simp add: norm_context)
  ultimately show ?thesis using t by (intro AIRequest.equality) simp_all
qed

text \<open>
  Normalising a request twice changes nothing more: the HTTP handler normalises before the
  pipeline starts and the policy engine normalises again, and both see the same request type,
  pipeline and context.
\<close>

lemma normalize_idempotent:
  "NormalizeAIRequest (NormalizeAIRequest r) = NormalizeAIRequest r"
  by (rule NormalizeAIRequest_twice)

section \<open>pipelines.Classify\<close>

datatype Kind = KindInference | KindRAG | KindAgent

definition Classify :: "string \<Rightarrow> string \<Rightarrow> Kind" where
  "Classify rtype ref =
     (let rt = to_lower (trim_space rtype)
      in if rt = RequestTypeRAG then KindRAG
         else if rt = RequestTypeAgent then KindAgent
         else (let r = to_lower (trim_space ref)
               in if contains r ''rag/'' then KindRAG
                  else if contains r ''agent/'' then KindAgent
                  else KindInference))"

lemma default_pipeline_kinds:
  "contains (to_lower (trim_space DefaultPipelineInference)) ''rag/'' = False"
  "contains (to_lower (trim_space DefaultPipelineInference)) ''agent/'' = False"
  unfolding pipeline_defs by code_simp+

end
