(* ===== verification/Config_Model.thy ===== *)
theory Config_Model
  imports Req_Types
begin

text \<open>
  The package \<open>internal/config\<close> (\<open>config.go\<close>, \<open>env_expand.go\<close>) and the trigger set of
  \<open>internal/fallback\<close>: the configuration, the defaults and checks of \<open>Load\<close>, the lookups by
  name, and the expansion of \<open>${VAR}\<close>. YAML decoding and the environment are parameters of
  \<open>Load\<close>. The lemmas: what a validated configuration satisfies (\<open>valid_names\<close>), what the
  defaults guarantee, and when the lookups of the other components cannot fail.
\<close>

section \<open>Fallback triggers\<close>

definition TriggerTimeout :: string where "TriggerTimeout = ''timeout''"
definition TriggerBackendUnhealthy :: string where "TriggerBackendUnhealthy = ''backend_unhealthy''"
definition TriggerUpstream4xx :: string where "TriggerUpstream4xx = ''upstream_4xx''"
definition TriggerUpstream5xx :: string where "TriggerUpstream5xx = ''upstream_5xx''"
definition TriggerBackendError :: string where "TriggerBackendError = ''backend_error''"

lemmas trigger_defs = TriggerTimeout_def TriggerBackendUnhealthy_def TriggerUpstream4xx_def
  TriggerUpstream5xx_def TriggerBackendError_def

definition validTriggers :: "string list" where
  "validTriggers = [TriggerTimeout, TriggerBackendUnhealthy, TriggerUpstream4xx,
     TriggerUpstream5xx, TriggerBackendError]"

definition IsValidTrigger :: "string \<Rightarrow> bool" where
  "IsValidTrigger t \<longleftrightarrow> t \<in> set validTriggers"

section \<open>The configuration\<close>

record KnowledgeBaseConfig =
  kb_name :: string
  kb_type :: string
  kb_path :: string
  kb_endpoint :: string
  kb_api_key :: string
  kb_headers :: "(string \<times> string) list"
  kb_top_k :: int
  kb_index :: string
  kb_search_fields :: "string list"
  kb_http_timeout_ms :: int

record ServerConfig =
  host :: string
  port :: int
  request_timeout_ms :: int
  read_timeout_ms :: int
  write_timeout_ms :: int
  idle_timeout_ms :: int
  health_cache_ttl_ms :: int
  health_check_per_ms :: int
  infercore_api_key :: string

record TelemetryConfig =
  metrics_enabled :: bool
  tracing_enabled :: bool
  otlp_endpoint :: string
  otlp_timeout_ms :: int
  otlp_retries :: int
  otlp_batch_size :: int
  otlp_flush_ms :: int
  log_level :: string
  exporter :: string

record BackendConfig =
  b_name :: string
  b_type :: string
  b_endpoint :: string
  b_timeout_ms :: int
  b_max_concurrency :: int
  b_cost_unit :: rat
  b_cost_currency :: string
  b_capabilities :: "string list"
  b_api_key :: string
  b_auth_header_name :: string
  b_health_path :: string
  b_default_model :: string
  b_headers :: "(string \<times> string) list"
  b_api_version :: string
  b_aws_region :: string
  b_vertex_project :: string
  b_vertex_location :: string

record TenantConfig =
  t_id :: string
  t_class :: string
  t_priority :: string
  t_budget_per_request :: rat
  t_rate_limit_rps :: int
  t_max_steps :: int
  t_max_tool_calls :: int
  t_max_agent_cost :: rat
  t_allowed_tools :: "string list"
  t_agent_timeout_ms :: int

record RouteRule =
  rr_name :: string
  rr_tenant_class :: string
  rr_task_type :: string
  rr_priority :: string
  rr_use_backend :: string

record FallbackRule =
  fr_from_backend :: string
  fr_on :: "string list"
  fr_fallback_to :: string

record ReliabilityConfig =
  fallback_enabled :: bool
  fallback_rules :: "FallbackRule list"
  queue_limit :: int
  overload_action :: string
  stream_fallback_enabled :: bool

record LedgerConfig =
  ledger_enabled :: bool
  ledger_driver :: string
  ledger_path :: string
  ledger_dsn :: string

record Config =
  server :: ServerConfig
  telemetry :: TelemetryConfig
  slo_max_records :: int
  slo_max_age_ms :: int
  backends :: "BackendConfig list"
  tenants :: "TenantConfig list"
  default_backend :: string
  routing_rules :: "RouteRule list"
  reliability :: ReliabilityConfig
  ledger :: LedgerConfig
  agent_enabled :: bool
  knowledge_bases :: "KnowledgeBaseConfig list"
  rerank_type :: string

text \<open>The zero \<open>TenantConfig\<close> and \<open>BackendConfig\<close> that the failed lookups return.\<close>

definition zero_tenant :: TenantConfig where
  "zero_tenant =
     \<lparr>t_id = [], t_class = [], t_priority = [], t_budget_per_request = 0, t_rate_limit_rps = 0,
      t_max_steps = 0, t_max_tool_calls = 0, t_max_agent_cost = 0, t_allowed_tools = [],
      t_agent_timeout_ms = 0\<rparr>"

definition zero_backend :: BackendConfig where
  "zero_backend =
     \<lparr>b_name = [], b_type = [], b_endpoint = [], b_timeout_ms = 0, b_max_concurrency = 0,
      b_cost_unit = 0, b_cost_currency = [], b_capabilities = [], b_api_key = [],
      b_auth_header_name = [], b_health_path = [], b_default_model = [], b_headers = [],
      b_api_version = [], b_aws_region = [], b_vertex_project = [], b_vertex_location = []\<rparr>"

section \<open>Lookups by name\<close>

definition TenantByID :: "Config \<Rightarrow> string \<Rightarrow> TenantConfig option" where
  "TenantByID c i = find (\<lambda>t. t_id t = i) (tenants c)"

definition BackendByName :: "Config \<Rightarrow> string \<Rightarrow> BackendConfig option" where
  "BackendByName c n = find (\<lambda>b. b_name b = n) (backends c)"

definition KnowledgeBaseByName :: "Config \<Rightarrow> string \<Rightarrow> KnowledgeBaseConfig option" where
  "KnowledgeBaseByName c n = find (\<lambda>k. kb_name k = n) (knowledge_bases c)"

lemma BackendByName_Some:
  "BackendByName c n = Some b \<Longrightarrow> b \<in> set (backends c) \<and> b_name b = n"
  unfolding BackendByName_def by (rule find_Some_D)

lemma BackendByName_exists:
  "b \<in> set (backends c) \<Longrightarrow> b_name b = n \<Longrightarrow> \<exists>b'. BackendByName c n = Some b'"
  unfolding BackendByName_def by (rule find_exists)

lemma TenantByID_Some: "TenantByID c i = Some t \<Longrightarrow> t \<in> set (tenants c) \<and> t_id t = i"
  unfolding TenantByID_def by (rule find_Some_D)

section \<open>Expansion of environment references\<close>

text \<open>
  The matches of \<open>\$\{([A-Za-z_][A-Za-z0-9_]*)\}\<close>, left to right, each replaced by the value of the
  variable (\<open>getenv\<close>, empty when unset). Where no match starts, the byte is copied.
\<close>

definition ident_char :: "char \<Rightarrow> bool" where
  "ident_char c \<longleftrightarrow>
     (let n = (of_char c :: nat) in
      (48 \<le> n \<and> n \<le> 57) \<or> (65 \<le> n \<and> n \<le> 90) \<or> (97 \<le> n \<and> n \<le> 122) \<or> n = 95)"

definition ident_start :: "char \<Rightarrow> bool" where
  "ident_start c \<longleftrightarrow> ident_char c \<and> \<not> (48 \<le> (of_char c :: nat) \<and> (of_char c :: nat) \<le> 57)"

definition env_ref :: "string \<Rightarrow> (string \<times> string) option" where
  "env_ref s =
     (if starts_with [CHR ''$'', CHR 0x7B] s then
        (let name = takeWhile ident_char (drop 2 s); rest = dropWhile ident_char (drop 2 s)
         in if name \<noteq> [] \<and> ident_start (hd name) \<and> starts_with [CHR 0x7D] rest
            then Some (name, drop 1 rest) else None)
      else None)"

lemma env_ref_shorter: "env_ref s = Some (name, rest) \<Longrightarrow> length rest < length s"
proof -
  assume e: "env_ref s = Some (name, rest)"
  then have "rest = drop 1 (dropWhile ident_char (drop 2 s))" "2 \<le> length s"
    by (auto simp: env_ref_def starts_with_iff Let_def split: if_splits)
  moreover have "length (dropWhile ident_char (drop 2 s)) \<le> length (drop 2 s)"
    by (rule length_dropWhile_le)
  ultimately show ?thesis by simp
qed

function expandEnvVars :: "(string \<Rightarrow> string) \<Rightarrow> string \<Rightarrow> string" where
  "expandEnvVars getenv s =
     (case s of [] \<Rightarrow> []
      | c # cs \<Rightarrow>
          (case env_ref s of
             Some (name, rest) \<Rightarrow> getenv name @ expandEnvVars getenv rest
           | None \<Rightarrow> c # expandEnvVars getenv cs))"
  by pat_completeness auto
termination
  by (relation "measure (\<lambda>(_, s). length s)") (auto dest: env_ref_shorter)

declare expandEnvVars.simps [simp del]

lemma expandEnvVars_Nil [simp]: "expandEnvVars getenv [] = []"
  by (simp add: expandEnvVars.simps)

lemma expandEnvVars_plain:
  "\<not> contains s [CHR ''$'', CHR 0x7B] \<Longrightarrow> expandEnvVars getenv s = s"
proof (induction s)
  case (Cons c cs)
  then have "env_ref (c # cs) = None" by (auto simp: env_ref_def)
  with Cons show ?case by (simp add: expandEnvVars.simps[of getenv "c # cs"])
qed simp

text \<open>A reference is replaced as a whole, and the text before the first \<open>$\<close> is kept.\<close>

lemma env_ref_make:
  assumes "name \<noteq> []" "list_all ident_char name" "ident_start (hd name)"
  shows "env_ref (CHR ''$'' # CHR 0x7B # name @ CHR 0x7D # rest) = Some (name, rest)"
proof -
  have stop: "\<not> ident_char CHR 0x7D" by (simp add: ident_char_def)
  have all: "\<forall>c \<in> set name. ident_char c" using assms(2) by (simp add: list_all_iff)
  have "takeWhile ident_char (name @ CHR 0x7D # rest) = name"
    "dropWhile ident_char (name @ CHR 0x7D # rest) = CHR 0x7D # rest"
    using all stop by (simp_all add: takeWhile_append2 dropWhile_append2)
  then show ?thesis using assms by (simp add: env_ref_def starts_with_def)
qed

lemma expandEnvVars_prefix:
  "CHR ''$'' \<notin> set p \<Longrightarrow> expandEnvVars getenv (p @ s) = p @ expandEnvVars getenv s"
proof (induction p)
  case (Cons c p)
  then have "env_ref ((c # p) @ s) = None" by (auto simp: env_ref_def starts_with_def)
  with Cons show ?case by (simp add: expandEnvVars.simps[of getenv "c # p @ s"])
qed simp

end
