(* ===== verification/Config_Check.thy ===== *)
theory Config_Check
  imports Config_Model
begin

text \<open>
  \<open>Config.validate\<close> and \<open>Load\<close> (\<open>internal/config/config.go\<close>): one definition per block of the
  check, in the order of the source, each returning the first error. The lemmas extract from a
  successful check what the other components rely on (\<open>backend_names\<close>, \<open>config_ok\<close>).
\<close>

named_theorems cfg_check \<open>definitions of the blocks of the check\<close>

section \<open>Errors\<close>

text \<open>One constructor per message of the check, with the values the message prints.\<close>

datatype config_error =
    CfgNegative string
  | CfgExceeds24h string
  | CfgNoBackend
  | CfgEmptyBackendName
  | CfgBackendRequires string string string
  | CfgUnsupportedBackendType string string
  | CfgDuplicateBackend string
  | CfgEmptyTenantID
  | CfgDuplicateTenant string
  | CfgDefaultBackendNotFound string
  | CfgEmptyRuleName
  | CfgDuplicateRule string
  | CfgRuleUnknownBackend string string
  | CfgBadOverloadAction string
  | CfgFallbackFromNotFound string
  | CfgFallbackToNotFound string
  | CfgFallbackNoTrigger string string
  | CfgInvalidTrigger string string
  | CfgUnsupportedExporter string
  | CfgOTLPEndpointRequired string
  | CfgBadLedgerDriver string
  | CfgLedgerPathRequired
  | CfgLedgerDSNRequired
  | CfgEmptyKBName
  | CfgKBRequires string string string
  | CfgKBUnsupported string string

type_synonym check = "config_error option"

abbreviation blank :: "string \<Rightarrow> bool" where
  "blank s \<equiv> trim_space s = []"

definition also_check :: "check \<Rightarrow> check \<Rightarrow> check" where
  "also_check a b = (case a of None \<Rightarrow> b | Some e \<Rightarrow> Some e)"

lemma also_check_None [simp]: "also_check a b = None \<longleftrightarrow> a = None \<and> b = None"
  by (simp add: also_check_def split: option.split)

section \<open>The blocks of validate\<close>

definition maxHTTPTimeoutMS :: int where
  "maxHTTPTimeoutMS = 86400000"

definition check_timeout :: "string \<Rightarrow> int \<Rightarrow> check" where
  "check_timeout field ms =
     (if ms < 0 then Some (CfgNegative field)
      else if ms > maxHTTPTimeoutMS then Some (CfgExceeds24h field) else None)"

definition validateServerHTTPTimeouts :: "Config \<Rightarrow> check" where
  "validateServerHTTPTimeouts c =
     also_check (check_timeout ''server.http.read_timeout_ms'' (read_timeout_ms (server c)))
       (also_check (check_timeout ''server.http.write_timeout_ms'' (write_timeout_ms (server c)))
          (check_timeout ''server.http.idle_timeout_ms'' (idle_timeout_ms (server c))))"

text \<open>The required fields of a backend, by type.\<close>

definition openai_types :: "string list" where
  "openai_types = [''vllm'', ''openai'', ''openai_compatible'', ''azure_openai'']"

definition check_backend :: "BackendConfig \<Rightarrow> check" where
  "check_backend b =
     (let need = (\<lambda>v what. if blank v then Some (CfgBackendRequires (b_name b) (b_type b) what) else None);
          ty = b_type b
      in if ty = ''mock'' then None
         else if ty \<in> set openai_types then
           also_check (need (b_endpoint b) ''endpoint'')
             (if ty = ''azure_openai'' then need (b_default_model b) ''default_model'' else None)
         else if ty = ''anthropic'' then
           also_check (need (b_api_key b) ''api_key'') (need (b_default_model b) ''default_model'')
         else if ty = ''bedrock'' then
           also_check (need (b_aws_region b) ''aws_region'') (need (b_default_model b) ''default_model'')
         else if ty = ''gemini'' then
           also_check (need (b_api_key b) ''api_key'') (need (b_default_model b) ''default_model'')
         else if ty = ''gemini_vertex'' then
           (if blank (b_vertex_project b) \<or> blank (b_vertex_location b)
            then Some (CfgBackendRequires (b_name b) ty ''vertex_project and vertex_location'')
            else also_check (need (b_api_key b) ''api_key'')
                   (need (b_default_model b) ''default_model''))
         else Some (CfgUnsupportedBackendType ty (b_name b)))"

text \<open>The loop over the backends; \<open>seen\<close> is the set \<open>backendNames\<close> of trimmed names.\<close>

fun check_backends :: "string list \<Rightarrow> BackendConfig list \<Rightarrow> check" where
  "check_backends seen [] = None"
| "check_backends seen (b # bs) =
     (let name = trim_space (b_name b)
      in if name = [] then Some CfgEmptyBackendName
         else case check_backend b of
           Some e \<Rightarrow> Some e
         | None \<Rightarrow> if name \<in> set seen then Some (CfgDuplicateBackend name)
                   else check_backends (name # seen) bs)"

definition backend_names :: "Config \<Rightarrow> string list" where
  "backend_names c = map (\<lambda>b. trim_space (b_name b)) (backends c)"

fun check_tenants :: "string list \<Rightarrow> TenantConfig list \<Rightarrow> check" where
  "check_tenants seen [] = None"
| "check_tenants seen (t # ts) =
     (let i = trim_space (t_id t)
      in if i = [] then Some CfgEmptyTenantID
         else if i \<in> set seen then Some (CfgDuplicateTenant i)
         else check_tenants (i # seen) ts)"

fun check_rules :: "string list \<Rightarrow> string list \<Rightarrow> RouteRule list \<Rightarrow> check" where
  "check_rules names seen [] = None"
| "check_rules names seen (r # rs) =
     (if blank (rr_name r) then Some CfgEmptyRuleName
      else if rr_name r \<in> set seen then Some (CfgDuplicateRule (rr_name r))
      else if rr_use_backend r \<notin> set names
      then Some (CfgRuleUnknownBackend (rr_name r) (rr_use_backend r))
      else check_rules names (rr_name r # seen) rs)"

definition check_overload :: "Config \<Rightarrow> check" where
  "check_overload c =
     (let a0 = to_lower (trim_space (overload_action (reliability c)));
          act = (if a0 = [] then ''degrade'' else a0)
      in if act \<noteq> ''reject'' \<and> act \<noteq> ''degrade''
         then Some (CfgBadOverloadAction (overload_action (reliability c))) else None)"

fun check_triggers :: "string \<Rightarrow> string list \<Rightarrow> check" where
  "check_triggers from [] = None"
| "check_triggers from (t # ts) =
     (if \<not> IsValidTrigger t then Some (CfgInvalidTrigger from t) else check_triggers from ts)"

fun check_fallback_rules :: "string list \<Rightarrow> FallbackRule list \<Rightarrow> check" where
  "check_fallback_rules names [] = None"
| "check_fallback_rules names (r # rs) =
     (if fr_from_backend r \<notin> set names then Some (CfgFallbackFromNotFound (fr_from_backend r))
      else if fr_fallback_to r \<notin> set names then Some (CfgFallbackToNotFound (fr_fallback_to r))
      else if fr_on r = [] then Some (CfgFallbackNoTrigger (fr_from_backend r) (fr_fallback_to r))
      else case check_triggers (fr_from_backend r) (fr_on r) of
        Some e \<Rightarrow> Some e | None \<Rightarrow> check_fallback_rules names rs)"

definition check_telemetry :: "Config \<Rightarrow> check" where
  "check_telemetry c =
     (let e = exporter (telemetry c)
      in if e \<notin> {''log'', ''otlp-http-stub'', ''otlp-http'', ''otlp-http-json''}
         then Some (CfgUnsupportedExporter e)
         else if (e = ''otlp-http'' \<or> e = ''otlp-http-json'') \<and> blank (otlp_endpoint (telemetry c))
         then Some (CfgOTLPEndpointRequired e) else None)"

definition check_ledger :: "Config \<Rightarrow> check" where
  "check_ledger c =
     (let l = ledger c; drv = to_lower (trim_space (ledger_driver l))
      in if drv \<notin> {''memory'', ''sqlite'', ''postgres''} then Some (CfgBadLedgerDriver (ledger_driver l))
         else if ledger_enabled l \<and> drv = ''sqlite'' \<and> blank (ledger_path l)
         then Some CfgLedgerPathRequired
         else if ledger_enabled l \<and> drv = ''postgres'' \<and> blank (ledger_dsn l)
         then Some CfgLedgerDSNRequired else None)"

definition check_kb :: "KnowledgeBaseConfig \<Rightarrow> check" where
  "check_kb kb =
     (let typ = to_lower (trim_space (kb_type kb));
          need = (\<lambda>v what. if blank v then Some (CfgKBRequires (kb_name kb) typ what) else None)
      in if blank (kb_name kb) then Some CfgEmptyKBName
         else if typ = ''file'' then need (kb_path kb) ''path''
         else if typ = ''http'' then need (kb_endpoint kb) ''endpoint''
         else if typ = ''opensearch'' \<or> typ = ''elasticsearch'' then
           also_check (need (kb_endpoint kb) ''endpoint'') (need (kb_index kb) ''index'')
         else if typ = ''meilisearch'' then
           also_check (need (kb_endpoint kb) ''endpoint'')
             (also_check (need (kb_index kb) ''index'') (need (kb_api_key kb) ''api_key''))
         else Some (CfgKBUnsupported (kb_name kb) (kb_type kb)))"

fun check_kbs :: "KnowledgeBaseConfig list \<Rightarrow> check" where
  "check_kbs [] = None"
| "check_kbs (kb # kbs) = also_check (check_kb kb) (check_kbs kbs)"

definition validate :: "Config \<Rightarrow> check" where
  "validate c =
     also_check (validateServerHTTPTimeouts c)
    (also_check (if backends c = [] then Some CfgNoBackend else None)
    (also_check (check_backends [] (backends c))
    (also_check (check_tenants [] (tenants c))
    (also_check (if default_backend c \<notin> set (backend_names c)
                 then Some (CfgDefaultBackendNotFound (default_backend c)) else None)
    (also_check (check_rules (backend_names c) [] (routing_rules c))
    (also_check (check_overload c)
    (also_check (check_fallback_rules (backend_names c) (fallback_rules (reliability c)))
    (also_check (check_telemetry c)
    (also_check (check_ledger c)
       (check_kbs (knowledge_bases c)))))))))))"

section \<open>Load\<close>

text \<open>The defaults that \<open>Load\<close> fills in before the check.\<close>

definition server_defaults :: "ServerConfig \<Rightarrow> ServerConfig" where
  "server_defaults s =
     s\<lparr>port := (if port s = 0 then 8080 else port s),
       request_timeout_ms := (if request_timeout_ms s \<le> 0 then 3000 else request_timeout_ms s),
       health_cache_ttl_ms := (if health_cache_ttl_ms s \<le> 0 then 2000 else health_cache_ttl_ms s),
       health_check_per_ms := (if health_check_per_ms s \<le> 0 then 1500 else health_check_per_ms s)\<rparr>"

definition telemetry_defaults :: "TelemetryConfig \<Rightarrow> TelemetryConfig" where
  "telemetry_defaults t =
     t\<lparr>log_level := (if log_level t = [] then ''info'' else log_level t),
       exporter := (if exporter t = []
                    then (if \<not> blank (otlp_endpoint t) then ''otlp-http'' else ''log'')
                    else exporter t),
       otlp_timeout_ms := (if otlp_timeout_ms t \<le> 0 then 1000 else otlp_timeout_ms t),
       otlp_retries := (if otlp_retries t < 0 then 0 else otlp_retries t),
       otlp_batch_size := (if otlp_batch_size t \<le> 0 then 10 else otlp_batch_size t),
       otlp_flush_ms := (if otlp_flush_ms t \<le> 0 then 1000 else otlp_flush_ms t)\<rparr>"

definition apply_defaults :: "Config \<Rightarrow> Config" where
  "apply_defaults c =
     c\<lparr>server := server_defaults (server c),
       telemetry := telemetry_defaults (telemetry c),
       default_backend := (if default_backend c = [] \<and> backends c \<noteq> []
                           then b_name (hd (backends c)) else default_backend c),
       reliability := (reliability c)
         \<lparr>queue_limit := (if queue_limit (reliability c) \<le> 0 then 200 else queue_limit (reliability c)),
          overload_action := (if overload_action (reliability c) = [] then ''degrade''
                              else overload_action (reliability c))\<rparr>,
       slo_max_records := (if slo_max_records c \<le> 0 then 10000 else slo_max_records c),
       slo_max_age_ms := (if slo_max_age_ms c \<le> 0 then 600000 else slo_max_age_ms c),
       ledger := (ledger c)
         \<lparr>ledger_driver := (if blank (ledger_driver (ledger c)) then ''memory''
                            else ledger_driver (ledger c))\<rparr>\<rparr>"

datatype load_error = ReadError goerr | YAMLError goerr | ValidationError config_error

definition Load ::
  "(string \<Rightarrow> string) \<Rightarrow> (string \<Rightarrow> goerr + Config) \<Rightarrow> goerr + string \<Rightarrow> load_error + Config" where
  "Load getenv unmarshal file =
     (case file of
        Inl e \<Rightarrow> Inl (ReadError e)
      | Inr raw \<Rightarrow>
          (case unmarshal (expandEnvVars getenv raw) of
             Inl e \<Rightarrow> Inl (YAMLError e)
           | Inr cfg \<Rightarrow>
               (case validate (apply_defaults cfg) of
                  Some e \<Rightarrow> Inl (ValidationError e)
                | None \<Rightarrow> Inr (apply_defaults cfg))))"

section \<open>What a successful check gives\<close>

lemma check_backends_names:
  "check_backends seen bs = None \<Longrightarrow>
     distinct (map (\<lambda>b. trim_space (b_name b)) bs)
     \<and> (\<forall>b \<in> set bs. trim_space (b_name b) \<noteq> [] \<and> trim_space (b_name b) \<notin> set seen
          \<and> check_backend b = None)"
proof (induction seen bs rule: check_backends.induct)
  case (2 seen b bs)
  have step: "trim_space (b_name b) \<noteq> []" "check_backend b = None"
    "trim_space (b_name b) \<notin> set seen" "check_backends (trim_space (b_name b) # seen) bs = None"
    using "2.prems" by (auto simp: Let_def split: if_splits option.splits)
  show ?case using "2.IH"[OF refl step(1,2,3,4)] step by auto
qed simp

lemma check_tenants_ids:
  "check_tenants seen ts = None \<Longrightarrow>
     distinct (map (\<lambda>t. trim_space (t_id t)) ts)
     \<and> (\<forall>t \<in> set ts. trim_space (t_id t) \<noteq> [] \<and> trim_space (t_id t) \<notin> set seen)"
proof (induction seen ts rule: check_tenants.induct)
  case (2 seen t ts)
  have step: "trim_space (t_id t) \<noteq> []" "trim_space (t_id t) \<notin> set seen"
    "check_tenants (trim_space (t_id t) # seen) ts = None"
    using "2.prems" by (auto simp: Let_def split: if_splits)
  show ?case using "2.IH"[OF refl step(1,2,3)] step by auto
qed simp

lemma check_rules_backends:
  "check_rules names seen rs = None \<Longrightarrow>
     distinct (map rr_name rs) \<and> (\<forall>r \<in> set rs. rr_use_backend r \<in> set names \<and> rr_name r \<notin> set seen)"
proof (induction names seen rs rule: check_rules.induct)
  case (2 names seen r rs)
  have step: "\<not> blank (rr_name r)" "rr_name r \<notin> set seen" "rr_use_backend r \<in> set names"
    "check_rules names (rr_name r # seen) rs = None"
    using "2.prems" by (auto split: if_splits)
  have "\<not> rr_use_backend r \<notin> set names" using step by simp
  from "2.IH"[OF step(1,2) this step(4)] step show ?case by auto
qed simp

lemma check_triggers_valid: "check_triggers f ts = None \<Longrightarrow> \<forall>t \<in> set ts. IsValidTrigger t"
  by (induction f ts rule: check_triggers.induct) (auto split: if_splits)

lemma check_fallback_rules_ok:
  "check_fallback_rules names rs = None \<Longrightarrow>
     \<forall>r \<in> set rs. fr_from_backend r \<in> set names \<and> fr_fallback_to r \<in> set names
        \<and> fr_on r \<noteq> [] \<and> (\<forall>t \<in> set (fr_on r). IsValidTrigger t)"
  by (induction names rs rule: check_fallback_rules.induct)
     (auto split: if_splits option.splits dest: check_triggers_valid)

lemmas validate_parts = validate_def also_check_None

text \<open>Backend names written without surrounding spaces: then the checked names are the names.\<close>

definition trimmed_names :: "Config \<Rightarrow> bool" where
  "trimmed_names c \<longleftrightarrow> (\<forall>b \<in> set (backends c). trim_space (b_name b) = b_name b)"

text \<open>The invariant of a loaded configuration that the router and the executor rely on.\<close>

definition config_ok :: "Config \<Rightarrow> bool" where
  "config_ok c \<longleftrightarrow>
     backends c \<noteq> [] \<and> distinct (backend_names c) \<and> [] \<notin> set (backend_names c)
     \<and> default_backend c \<in> set (backend_names c)
     \<and> (\<forall>r \<in> set (routing_rules c). rr_use_backend r \<in> set (backend_names c))
     \<and> (\<forall>r \<in> set (fallback_rules (reliability c)).
          fr_from_backend r \<in> set (backend_names c) \<and> fr_fallback_to r \<in> set (backend_names c)
          \<and> fr_on r \<noteq> [] \<and> (\<forall>t \<in> set (fr_on r). IsValidTrigger t))
     \<and> distinct (map (\<lambda>t. trim_space (t_id t)) (tenants c))"

lemma validate_config_ok: "validate c = None \<Longrightarrow> config_ok c"
  using check_backends_names[of "[]" "backends c"] check_tenants_ids[of "[]" "tenants c"]
    check_rules_backends[of "backend_names c" "[]" "routing_rules c"]
    check_fallback_rules_ok[of "backend_names c" "fallback_rules (reliability c)"]
  by (auto simp: validate_parts config_ok_def backend_names_def split: if_splits)

lemma named_backend:
  "trimmed_names c \<Longrightarrow> n \<in> set (backend_names c) \<Longrightarrow> \<exists>b. BackendByName c n = Some b"
  by (auto simp: trimmed_names_def backend_names_def intro: BackendByName_exists)

section \<open>Properties\<close>

lemma defaults_idem:
  "server_defaults (server_defaults s) = server_defaults s"
  "telemetry_defaults (telemetry_defaults t) = telemetry_defaults t"
  by (simp_all add: server_defaults_def telemetry_defaults_def)

lemma apply_defaults_idem: "apply_defaults (apply_defaults c) = apply_defaults c"
proof -
  have "blank ''memory'' = False" by code_simp
  then show ?thesis by (simp add: apply_defaults_def defaults_idem)
qed

lemma Load_Inr:
  "Load getenv unmarshal file = Inr c \<Longrightarrow> validate c = None \<and> (\<exists>raw. c = apply_defaults raw)"
  by (auto simp: Load_def split: sum.splits option.splits)

definition http_timeouts_ok :: "ServerConfig \<Rightarrow> bool" where
  "http_timeouts_ok s \<longleftrightarrow>
     (\<forall>ms \<in> {read_timeout_ms s, write_timeout_ms s, idle_timeout_ms s}. 0 \<le> ms \<and> ms \<le> maxHTTPTimeoutMS)"

text \<open>
  C32. What a successful \<open>Load\<close> guarantees to the other components: the reference invariant
  \<open>config_ok\<close> (distinct non-empty backends, every routing and fallback rule and the default
  pointing at one of them, tenants distinct), HTTP timeouts between 0 and 24 hours, and positive
  request timeout, queue limit, health cache TTL and SLO bounds.
\<close>

theorem Load_sound:
  assumes "Load getenv unmarshal file = Inr c"
  shows "config_ok c \<and> http_timeouts_ok (server c)
     \<and> 0 < request_timeout_ms (server c) \<and> 0 < queue_limit (reliability c)
     \<and> 0 < health_cache_ttl_ms (server c) \<and> 0 < slo_max_records c \<and> 0 < slo_max_age_ms c"
proof -
  from Load_Inr[OF assms] obtain raw where v: "validate c = None" and raw: "c = apply_defaults raw"
    by blast
  have "validateServerHTTPTimeouts c = None" using v by (simp add: validate_parts)
  then have "http_timeouts_ok (server c)"
    by (auto simp: validateServerHTTPTimeouts_def http_timeouts_ok_def check_timeout_def
        split: if_splits)
  moreover have "0 < request_timeout_ms (server c) \<and> 0 < queue_limit (reliability c)
     \<and> 0 < health_cache_ttl_ms (server c) \<and> 0 < slo_max_records c \<and> 0 < slo_max_age_ms c"
    unfolding raw by (simp add: apply_defaults_def server_defaults_def)
  ultimately show ?thesis using validate_config_ok[OF v] by simp
qed

text \<open>
  A loaded configuration is a fixed point of \<open>Load\<close>: writing it out and loading it again
  (any file and decoder that yield it) gives the same configuration.
\<close>

lemma Load_stable:
  assumes "Load getenv unmarshal file = Inr c" "unmarshal' (expandEnvVars getenv raw) = Inr c"
  shows "Load getenv unmarshal' (Inr raw) = Inr c"
proof -
  from Load_Inr[OF assms(1)] obtain c0 where v: "validate c = None" and c: "c = apply_defaults c0"
    by blast
  have "apply_defaults c = c" unfolding c by (rule apply_defaults_idem)
  then show ?thesis using v assms(2) by (simp add: Load_def)
qed

text \<open>
  A reference \<open>${NAME}\<close> is replaced by the value of the variable, the text before it is kept,
  and the text after it is expanded on its own: the value itself is not expanded again.
\<close>

lemma expandEnvVars_reference:
  assumes "CHR ''$'' \<notin> set p" "name \<noteq> []" "list_all ident_char name" "ident_start (hd name)"
  shows "expandEnvVars getenv (p @ CHR ''$'' # CHR 0x7B # name @ CHR 0x7D # rest)
           = p @ getenv name @ expandEnvVars getenv rest"
proof -
  let ?s = "CHR ''$'' # CHR 0x7B # name @ CHR 0x7D # rest"
  have "expandEnvVars getenv ?s = getenv name @ expandEnvVars getenv rest"
    using env_ref_make[OF assms(2-4)] by (simp add: expandEnvVars.simps[of getenv ?s])
  then show ?thesis using expandEnvVars_prefix[OF assms(1), of getenv ?s] by simp
qed

section \<open>Witnesses\<close>

definition example_backend :: BackendConfig where
  "example_backend = zero_backend\<lparr>b_name := ''small'', b_type := ''mock'', b_cost_unit := 1\<rparr>"

definition example_config :: Config where
  "example_config =
     \<lparr>server = \<lparr>host = [], port = 0, request_timeout_ms = 0, read_timeout_ms = 0,
        write_timeout_ms = 0, idle_timeout_ms = 0, health_cache_ttl_ms = 0,
        health_check_per_ms = 0, infercore_api_key = []\<rparr>,
      telemetry = \<lparr>metrics_enabled = False, tracing_enabled = False, otlp_endpoint = [],
        otlp_timeout_ms = 0, otlp_retries = 0, otlp_batch_size = 0, otlp_flush_ms = 0,
        log_level = [], exporter = []\<rparr>,
      slo_max_records = 0, slo_max_age_ms = 0,
      backends = [example_backend, example_backend\<lparr>b_name := ''large'', b_cost_unit := 4\<rparr>],
      tenants = [zero_tenant\<lparr>t_id := ''t1'', t_rate_limit_rps := 2\<rparr>],
      default_backend = [], routing_rules = [],
      reliability = \<lparr>fallback_enabled = True,
        fallback_rules = [\<lparr>fr_from_backend = ''large'', fr_on = [''timeout''],
          fr_fallback_to = ''small''\<rparr>],
        queue_limit = 0, overload_action = [], stream_fallback_enabled = False\<rparr>,
      ledger = \<lparr>ledger_enabled = False, ledger_driver = [], ledger_path = [], ledger_dsn = []\<rparr>,
      agent_enabled = False, knowledge_bases = [], rerank_type = []\<rparr>"

lemma example_config_loads:
  "Load getenv (\<lambda>_. Inr example_config) (Inr raw) = Inr (apply_defaults example_config)"
proof -
  have "validate (apply_defaults example_config) = None" by code_simp
  then show ?thesis by (simp add: Load_def)
qed

theorem Load_sound_witness: "config_ok (apply_defaults example_config)"
  using Load_sound[OF example_config_loads[of "\<lambda>_. []" "[]"]] by simp

lemma Load_stable_witness:
  "Load (\<lambda>_. []) (\<lambda>_. Inr (apply_defaults example_config)) (Inr ''x'')
     = Inr (apply_defaults example_config)"
  using Load_stable[OF example_config_loads[of "\<lambda>_. []" "[]"],
      of "\<lambda>_. Inr (apply_defaults example_config)" "''x''"] by simp

lemma expandEnvVars_reference_witness:
  "expandEnvVars (\<lambda>n. if n = ''KEY'' then ''s3'' else [])
     (''key: '' @ CHR ''$'' # CHR 0x7B # ''KEY'' @ CHR 0x7D # [])
     = ''key: s3''"
proof -
  let ?env = "\<lambda>n. if n = ''KEY'' then ''s3'' else []"
  have "list_all ident_char ''KEY''" "ident_start (hd ''KEY'')" by code_simp+
  then show ?thesis using expandEnvVars_reference[of "''key: ''" "''KEY''" ?env "[]"] by simp
qed

end
