(* ===== verification/Routing.thy ===== *)
theory Routing
  imports Config_Check
begin

text \<open>
  The cost engine (\<open>internal/cost/simple_engine.go\<close>) and the router
  (\<open>internal/router/rule_router.go\<close>). The router calls the cost engine through the interface
  \<open>interfaces.CostEngine\<close>, here the locale \<open>cost_engine\<close>; the router's lemmas about the choice by
  cost are proved in it, and the simple engine interprets it. The lemmas describe the backend the
  router picks: it exists, is not known to be unhealthy, fits the tenant's budget when it
  was picked by cost, and never estimates above the rule's choice.
\<close>

section \<open>The interface of a cost engine\<close>

definition backend_metadata :: "BackendConfig \<Rightarrow> BackendMetadata" where
  "backend_metadata b =
     \<lparr>bm_name = b_name b, bm_type = b_type b, bm_capabilities = b_capabilities b,
      bm_cost_unit = b_cost_unit b, bm_max_concurrency = b_max_concurrency b\<rparr>"

text \<open>\<open>BackendHealthOK\<close>: a backend the health map does not know counts as healthy.\<close>

definition BackendHealthOK :: "health \<Rightarrow> string \<Rightarrow> bool" where
  "BackendHealthOK h n =
     (case h of None \<Rightarrow> True
      | Some m \<Rightarrow> (case map_of m n of Some healthy \<Rightarrow> healthy | None \<Rightarrow> True))"

definition backendSelectable :: "RuntimeState \<Rightarrow> string \<Rightarrow> bool" where
  "backendSelectable st n = BackendHealthOK (backend_health st) n"

definition hasCapability :: "string list \<Rightarrow> string \<Rightarrow> bool" where
  "hasCapability caps expected = list_ex (\<lambda>c. c = expected) caps"

definition supportsTask :: "BackendConfig \<Rightarrow> string \<Rightarrow> bool" where
  "supportsTask b task =
     (if task = [] then True
      else if task = ''simple'' then
        hasCapability (b_capabilities b) ''chat'' \<or> hasCapability (b_capabilities b) ''summarization''
      else if task = ''complex'' then hasCapability (b_capabilities b) ''reasoning''
      else hasCapability (b_capabilities b) task)"

text \<open>The loop of \<open>optimizeByCost\<close>: \<open>best\<close> is the choice so far, \<open>bestCost\<close> its cost.\<close>

definition cost_eligible ::
  "(AIRequest \<Rightarrow> BackendMetadata \<Rightarrow> CostEstimate) \<Rightarrow> TenantConfig \<Rightarrow> AIRequest \<Rightarrow> RuntimeState
     \<Rightarrow> BackendConfig \<Rightarrow> bool" where
  "cost_eligible est tenant req st b \<longleftrightarrow>
     backendSelectable st (b_name b) \<and> supportsTask b (task_type req)
     \<and> \<not> (0 < t_budget_per_request tenant
          \<and> t_budget_per_request tenant < estimated_total (est req (backend_metadata b)))"

definition cost_choice ::
  "(AIRequest \<Rightarrow> BackendMetadata \<Rightarrow> CostEstimate) \<Rightarrow> AIRequest \<Rightarrow> string \<Rightarrow> BackendConfig
     \<Rightarrow> RouteDecision" where
  "cost_choice est req base_reason b =
     \<lparr>backend_name = b_name b, reason = ''cost-optimized-from-'' @ base_reason,
      estimated_cost = estimated_total (est req (backend_metadata b)), fallback_chain = []\<rparr>"

lemma cost_choice_simps [simp]:
  "backend_name (cost_choice est req r b) = b_name b"
  "estimated_cost (cost_choice est req r b) = estimated_total (est req (backend_metadata b))"
  by (simp_all add: cost_choice_def)

fun cost_loop ::
  "(AIRequest \<Rightarrow> BackendMetadata \<Rightarrow> CostEstimate) \<Rightarrow> TenantConfig \<Rightarrow> AIRequest \<Rightarrow> RuntimeState
     \<Rightarrow> string \<Rightarrow> RouteDecision \<Rightarrow> rat \<Rightarrow> BackendConfig list \<Rightarrow> RouteDecision" where
  "cost_loop est tenant req st base_reason best bestCost [] = best"
| "cost_loop est tenant req st base_reason best bestCost (b # bs) =
     (if cost_eligible est tenant req st b
         \<and> estimated_total (est req (backend_metadata b)) < bestCost
      then cost_loop est tenant req st base_reason (cost_choice est req base_reason b)
             (estimated_total (est req (backend_metadata b))) bs
      else cost_loop est tenant req st base_reason best bestCost bs)"

definition optimizeByCost ::
  "Config \<Rightarrow> (AIRequest \<Rightarrow> BackendMetadata \<Rightarrow> CostEstimate) option \<Rightarrow> TenantConfig \<Rightarrow> AIRequest
     \<Rightarrow> RouteDecision \<Rightarrow> RuntimeState \<Rightarrow> RouteDecision" where
  "optimizeByCost cfg engine tenant req base st =
     (case engine of
        None \<Rightarrow> base
      | Some est \<Rightarrow>
          if overload_degrade st then base
          else cost_loop est tenant req st (reason base) base (estimated_cost base) (backends cfg))"

lemma cost_loop_cases:
  "cost_loop est tenant req st r best c bs = best \<or>
     (\<exists>b \<in> set bs. cost_eligible est tenant req st b
        \<and> cost_loop est tenant req st r best c bs = cost_choice est req r b
        \<and> estimated_total (est req (backend_metadata b)) < c)"
proof (induction bs arbitrary: best c)
  case (Cons b bs)
  let ?t = "estimated_total (est req (backend_metadata b))"
  show ?case
    using Cons.IH[of "cost_choice est req r b" ?t] Cons.IH[of best c]
    by (cases "cost_eligible est tenant req st b \<and> ?t < c") (auto intro: order.strict_trans)
qed simp

text \<open>The choice is minimal: no eligible backend of the list estimates below it.\<close>

lemma cost_loop_minimal:
  assumes "estimated_cost best = c"
  shows "estimated_cost (cost_loop est tenant req st r best c bs) \<le> c
     \<and> (\<forall>b \<in> set bs. cost_eligible est tenant req st b \<longrightarrow>
          estimated_cost (cost_loop est tenant req st r best c bs)
            \<le> estimated_total (est req (backend_metadata b)))"
  using assms
proof (induction bs arbitrary: best c)
  case (Cons b bs)
  let ?t = "estimated_total (est req (backend_metadata b))"
  show ?case
    using Cons.IH[of "cost_choice est req r b" ?t] Cons.IH[of best c] Cons.prems
    by (cases "cost_eligible est tenant req st b \<and> ?t < c") auto
qed simp

text \<open>
  The laws the router's clients rely on: the estimate reports the backend's own unit cost, and for
  a non-negative unit cost the total is not below it.
\<close>

locale cost_engine =
  fixes est :: "AIRequest \<Rightarrow> BackendMetadata \<Rightarrow> CostEstimate"
  assumes est_unit: "unit_cost (est req m) = bm_cost_unit m"
    and est_total: "0 \<le> bm_cost_unit m \<Longrightarrow> is_float (bm_cost_unit m) \<Longrightarrow>
      bm_cost_unit m \<le> estimated_total (est req m)"

definition costs_ok :: "Config \<Rightarrow> bool" where
  "costs_ok cfg \<longleftrightarrow> (\<forall>b \<in> set (backends cfg). 0 \<le> b_cost_unit b \<and> is_float (b_cost_unit b))"

context cost_engine begin

text \<open>A choice made by cost costs no more per unit than the rule's choice costs per unit.\<close>

lemma optimized_unit:
  assumes ok: "costs_ok cfg"
    and base: "b0 \<in> set (backends cfg)" "backend_name base = b_name b0"
      "estimated_cost base = b_cost_unit b0"
  obtains b where "b \<in> set (backends cfg)"
    "backend_name (optimizeByCost cfg (Some est) tenant req base st) = b_name b"
    "b_cost_unit b \<le> b_cost_unit b0"
    "b_cost_unit b \<le> estimated_cost (optimizeByCost cfg (Some est) tenant req base st)"
proof (cases "overload_degrade st")
  case True
  then show ?thesis using that[OF base(1)] base by (simp add: optimizeByCost_def)
next
  case False
  let ?d = "cost_loop est tenant req st (reason base) base (estimated_cost base) (backends cfg)"
  have d: "optimizeByCost cfg (Some est) tenant req base st = ?d"
    using False by (simp add: optimizeByCost_def)
  from cost_loop_cases[of est tenant req st "reason base" base "estimated_cost base" "backends cfg"]
  show ?thesis
  proof
    assume "?d = base" then show ?thesis using that[OF base(1)] base d by simp
  next
    assume "\<exists>b \<in> set (backends cfg). cost_eligible est tenant req st b
        \<and> ?d = cost_choice est req (reason base) b
        \<and> estimated_total (est req (backend_metadata b)) < estimated_cost base"
    then obtain b where b: "b \<in> set (backends cfg)" "?d = cost_choice est req (reason base) b"
      "estimated_total (est req (backend_metadata b)) < b_cost_unit b0" using base by auto
    have "b_cost_unit b \<le> estimated_total (est req (backend_metadata b))"
      using est_total[of "backend_metadata b" req] ok b(1) by (auto simp: costs_ok_def backend_metadata_def)
    then show ?thesis using that[OF b(1)] b d by simp
  qed
qed

end

section \<open>SimpleEngine\<close>

definition Estimate :: "AIRequest \<Rightarrow> BackendMetadata \<Rightarrow> CostEstimate" where
  "Estimate req m =
     (let maxTokens = (if opt_max_tokens (options req) \<le> 0 then 256 else opt_max_tokens (options req))
      in \<lparr>unit_cost = bm_cost_unit m,
          estimated_total = f_add (bm_cost_unit m)
            (f_mul (f_div (f_of_int maxTokens) 1000) (bm_cost_unit m)),
          budget_fit = True\<rparr>)"

lemma Estimate_total_ge:
  assumes "0 \<le> bm_cost_unit m" "is_float (bm_cost_unit m)"
  shows "bm_cost_unit m \<le> estimated_total (Estimate req m)"
proof -
  define t where "t = (if opt_max_tokens (options req) \<le> 0 then 256 else opt_max_tokens (options req))"
  have "0 \<le> f_of_int t" by (rule f_of_int_nonneg) (simp add: t_def)
  then have "0 \<le> f_mul (f_div (f_of_int t) 1000) (bm_cost_unit m)"
    using assms(1) by (simp add: f_mul_def f_div_def fl_nonneg)
  then have "fl (bm_cost_unit m) \<le> f_add (bm_cost_unit m) (f_mul (f_div (f_of_int t) 1000) (bm_cost_unit m))"
    by (simp add: f_add_def fl_mono)
  then show ?thesis using assms(2) by (simp add: Estimate_def Let_def t_def is_float_def)
qed

interpretation simple: cost_engine Estimate
  by unfold_locales (simp_all add: Estimate_total_ge, simp add: Estimate_def Let_def)

section \<open>RuleRouter\<close>

definition matchesRule :: "RouteRule \<Rightarrow> TenantConfig \<Rightarrow> AIRequest \<Rightarrow> bool" where
  "matchesRule rule tenant req =
     (if rr_task_type rule \<noteq> [] \<and> rr_task_type rule \<noteq> task_type req then False
      else if rr_priority rule \<noteq> [] \<and> rr_priority rule \<noteq> priority req then False
      else if rr_tenant_class rule \<noteq> [] \<and> rr_tenant_class rule \<noteq> t_class tenant then False
      else True)"

definition unit_choice :: "string \<Rightarrow> BackendConfig \<Rightarrow> RouteDecision" where
  "unit_choice why b =
     \<lparr>backend_name = b_name b, reason = why, estimated_cost = b_cost_unit b, fallback_chain = []\<rparr>"

lemma unit_choice_simps [simp]:
  "backend_name (unit_choice why b) = b_name b"
  "estimated_cost (unit_choice why b) = b_cost_unit b"
  "reason (unit_choice why b) = why"
  by (simp_all add: unit_choice_def)

definition firstHealthyBackend :: "Config \<Rightarrow> RuntimeState \<Rightarrow> RouteDecision option" where
  "firstHealthyBackend cfg st =
     map_option (unit_choice ''healthy-fallback-order'')
       (find (\<lambda>b. backendSelectable st (b_name b)) (backends cfg))"

definition unknown_rule_backend :: "RouteRule \<Rightarrow> goerr" where
  "unknown_rule_backend rule =
     ErrText (''rule '' @ quote (rr_name rule) @ '' references unknown backend ''
              @ quote (rr_use_backend rule))"

text \<open>The loop over the rules; \<open>None\<close> when it runs to its end.\<close>

fun select_rule ::
  "Config \<Rightarrow> TenantConfig \<Rightarrow> AIRequest \<Rightarrow> RuntimeState \<Rightarrow> RouteRule list
     \<Rightarrow> (goerr + RouteDecision) option" where
  "select_rule cfg tenant req st [] = None"
| "select_rule cfg tenant req st (rule # rules) =
     (if \<not> matchesRule rule tenant req then select_rule cfg tenant req st rules
      else case BackendByName cfg (rr_use_backend rule) of
        None \<Rightarrow> Some (Inl (unknown_rule_backend rule))
      | Some b \<Rightarrow>
          if \<not> backendSelectable st (b_name b) then select_rule cfg tenant req st rules
          else Some (Inr (unit_choice (rr_name rule) b)))"

definition selectByRules ::
  "Config \<Rightarrow> TenantConfig \<Rightarrow> AIRequest \<Rightarrow> RuntimeState \<Rightarrow> goerr + RouteDecision" where
  "selectByRules cfg tenant req st =
     (case select_rule cfg tenant req st (routing_rules cfg) of
        Some r \<Rightarrow> r
      | None \<Rightarrow>
          (case BackendByName cfg (default_backend cfg) of
             None \<Rightarrow> Inl (ErrText (''default backend '' @ quote (default_backend cfg) @ '' not found''))
           | Some b \<Rightarrow>
               if backendSelectable st (b_name b) then Inr (unit_choice ''default-backend'' b)
               else (case firstHealthyBackend cfg st of
                       Some d \<Rightarrow> Inr d
                     | None \<Rightarrow> Inl (ErrText ''no healthy backend available''))))"

definition SelectRoute ::
  "Config \<Rightarrow> (AIRequest \<Rightarrow> BackendMetadata \<Rightarrow> CostEstimate) option \<Rightarrow> goerr option \<Rightarrow> AIRequest
     \<Rightarrow> RuntimeState \<Rightarrow> goerr + RouteDecision" where
  "SelectRoute cfg engine ctx_err req st =
     (case ctx_err of
        Some e \<Rightarrow> Inl e
      | None \<Rightarrow>
          (let tenant = (case TenantByID cfg (tenant_id req) of Some t \<Rightarrow> t | None \<Rightarrow> zero_tenant)
           in case selectByRules cfg tenant req st of
                Inl e \<Rightarrow> Inl e
              | Inr base \<Rightarrow> Inr (optimizeByCost cfg engine tenant req base st)))"

definition request_tenant :: "Config \<Rightarrow> AIRequest \<Rightarrow> TenantConfig" where
  "request_tenant cfg req =
     (case TenantByID cfg (tenant_id req) of Some t \<Rightarrow> t | None \<Rightarrow> zero_tenant)"

section \<open>What the rules choose\<close>

text \<open>\<open>usable_choice\<close>: a decision for a configured backend that is not known to be unhealthy.\<close>

definition usable_choice :: "Config \<Rightarrow> RuntimeState \<Rightarrow> RouteDecision \<Rightarrow> bool" where
  "usable_choice cfg st d \<longleftrightarrow>
     (\<exists>b \<in> set (backends cfg). backend_name d = b_name b \<and> backendSelectable st (b_name b))"

definition unit_priced :: "Config \<Rightarrow> RouteDecision \<Rightarrow> bool" where
  "unit_priced cfg d \<longleftrightarrow>
     (\<exists>b \<in> set (backends cfg). backend_name d = b_name b \<and> estimated_cost d = b_cost_unit b)"

lemma unit_choice_usable:
  "b \<in> set (backends cfg) \<Longrightarrow> backendSelectable st (b_name b) \<Longrightarrow>
     usable_choice cfg st (unit_choice w b)"
  "b \<in> set (backends cfg) \<Longrightarrow> unit_priced cfg (unit_choice w b)"
  by (auto simp: usable_choice_def unit_priced_def)

lemma select_rule_usable:
  "select_rule cfg t req st rules = Some (Inr d) \<Longrightarrow> usable_choice cfg st d \<and> unit_priced cfg d"
  by (induction cfg t req st rules rule: select_rule.induct)
     (auto split: if_splits option.splits dest!: BackendByName_Some simp: unit_choice_usable)

lemma firstHealthy_usable:
  "firstHealthyBackend cfg st = Some d \<Longrightarrow> usable_choice cfg st d \<and> unit_priced cfg d"
  by (auto simp: firstHealthyBackend_def unit_choice_usable dest!: find_Some_D)

lemma selectByRules_usable:
  assumes "selectByRules cfg t req st = Inr d"
  shows "usable_choice cfg st d \<and> unit_priced cfg d"
  using assms BackendByName_Some[of cfg "default_backend cfg"]
  by (auto simp: selectByRules_def unit_choice_usable split: option.splits if_splits
      dest: select_rule_usable firstHealthy_usable)

lemma SelectRoute_Inr:
  "SelectRoute cfg engine ctx req st = Inr d \<longleftrightarrow>
     ctx = None \<and> (\<exists>base. selectByRules cfg (request_tenant cfg req) req st = Inr base
       \<and> d = optimizeByCost cfg engine (request_tenant cfg req) req base st)"
  by (auto simp: SelectRoute_def request_tenant_def split: option.splits sum.splits)

text \<open>With backend names that need no trimming, a validated configuration has no dangling name.\<close>

lemma select_rule_known:
  assumes "\<forall>r \<in> set rules. \<exists>b. BackendByName cfg (rr_use_backend r) = Some b"
  shows "select_rule cfg t req st rules \<noteq> Some (Inl e)"
  using assms by (induction rules) (auto split: option.splits)

lemma selectByRules_known:
  assumes "config_ok cfg" "trimmed_names cfg"
  shows "(\<exists>d. selectByRules cfg t req st = Inr d)
     \<or> (selectByRules cfg t req st = Inl (ErrText ''no healthy backend available'')
          \<and> (\<forall>b \<in> set (backends cfg). \<not> backendSelectable st (b_name b)))"
proof (cases "select_rule cfg t req st (routing_rules cfg)")
  case None
  have "default_backend cfg \<in> set (backend_names cfg)" using assms(1) by (simp add: config_ok_def)
  from named_backend[OF assms(2) this]
  obtain b where b: "BackendByName cfg (default_backend cfg) = Some b" by blast
  show ?thesis
    using None b
    by (auto simp: selectByRules_def firstHealthyBackend_def find_None_iff split: option.splits)
next
  case (Some r)
  have "\<forall>r \<in> set (routing_rules cfg). \<exists>b. BackendByName cfg (rr_use_backend r) = Some b"
    using named_backend[OF assms(2)] assms(1) by (auto simp: config_ok_def)
  from select_rule_known[OF this, of t req st] Some obtain d where "r = Inr d" by (cases r) auto
  with Some show ?thesis by (simp add: selectByRules_def)
qed

text \<open>Rules that do not match, or whose backend is known to be unhealthy, are passed over.\<close>

definition skipped :: "Config \<Rightarrow> TenantConfig \<Rightarrow> AIRequest \<Rightarrow> RuntimeState \<Rightarrow> RouteRule \<Rightarrow> bool" where
  "skipped cfg t req st r \<longleftrightarrow>
     \<not> matchesRule r t req
     \<or> (\<exists>b. BackendByName cfg (rr_use_backend r) = Some b \<and> \<not> backendSelectable st (b_name b))"

lemma select_rule_skip:
  "\<forall>r \<in> set pre. skipped cfg t req st r \<Longrightarrow>
     select_rule cfg t req st (pre @ rules) = select_rule cfg t req st rules"
  by (induction pre) (auto simp: skipped_def)

section \<open>Properties\<close>

lemma optimizeByCost_cases:
  "optimizeByCost cfg engine t req base st = base
   \<or> (\<exists>est b. engine = Some est \<and> b \<in> set (backends cfg)
      \<and> optimizeByCost cfg engine t req base st = cost_choice est req (reason base) b
      \<and> cost_eligible est t req st b
      \<and> estimated_total (est req (backend_metadata b)) < estimated_cost base)"
proof (cases "engine = None \<or> overload_degrade st")
  case False
  then obtain est where "engine = Some est" by auto
  then show ?thesis
    using cost_loop_cases[of est t req st "reason base" base "estimated_cost base" "backends cfg"] False
    by (auto simp: optimizeByCost_def)
qed (auto simp: optimizeByCost_def split: option.splits)

lemma optimizeByCost_usable:
  assumes "usable_choice cfg st base"
  shows "usable_choice cfg st (optimizeByCost cfg engine t req base st)"
  using optimizeByCost_cases[of cfg engine t req base st] assms
  by (auto simp: usable_choice_def cost_eligible_def)

lemma SelectRoute_usable: "SelectRoute cfg engine ctx req st = Inr d \<Longrightarrow> usable_choice cfg st d"
  by (auto simp: SelectRoute_Inr dest: selectByRules_usable intro: optimizeByCost_usable)

text \<open>
  C14. The selected backend exists, is not known to be unhealthy, and is either the one the rules
  choose, at its unit cost, or one that supports the task, fits the tenant's budget and is
  estimated below the rules' choice.
\<close>

theorem route_is_usable:
  assumes "SelectRoute cfg engine ctx req st = Inr d"
  shows "usable_choice cfg st d
    \<and> (\<exists>base. selectByRules cfg (request_tenant cfg req) req st = Inr base
           \<and> unit_priced cfg base
           \<and> (d = base \<or> (\<exists>est b. engine = Some est \<and> b \<in> set (backends cfg)
                \<and> d = cost_choice est req (reason base) b
                \<and> cost_eligible est (request_tenant cfg req) req st b
                \<and> estimated_cost d < estimated_cost base)))"
proof -
  let ?t = "request_tenant cfg req"
  obtain base where base: "selectByRules cfg ?t req st = Inr base"
    and d: "d = optimizeByCost cfg engine ?t req base st"
    using assms by (auto simp: SelectRoute_Inr)
  then have "d = base \<or> (\<exists>est b. engine = Some est \<and> b \<in> set (backends cfg)
      \<and> d = cost_choice est req (reason base) b \<and> cost_eligible est ?t req st b
      \<and> estimated_cost d < estimated_cost base)"
    using optimizeByCost_cases[of cfg engine ?t req base st] by auto
  then show ?thesis
    using base selectByRules_usable[OF base] SelectRoute_usable[OF assms] by blast
qed


text \<open>
  With a validated configuration whose backend names have no surrounding spaces, routing
  succeeds exactly when some backend is not known to be unhealthy; otherwise the error is "no
  healthy backend available", never an unknown backend.
\<close>

lemma route_total:
  assumes "validate cfg = None" "trimmed_names cfg"
  shows "case SelectRoute cfg engine None req st of
      Inr d \<Rightarrow> usable_choice cfg st d
    | Inl e \<Rightarrow> e = ErrText ''no healthy backend available''
        \<and> (\<forall>b \<in> set (backends cfg). \<not> backendSelectable st (b_name b))"
proof (cases "SelectRoute cfg engine None req st")
  case (Inr d)
  then show ?thesis using SelectRoute_usable[of cfg engine None req st d] by simp
next
  case (Inl e)
  then show ?thesis
    using selectByRules_known[OF validate_config_ok[OF assms(1)] assms(2), of "request_tenant cfg req" req st]
    by (auto simp: SelectRoute_def request_tenant_def split: sum.splits)
qed

text \<open>
  Rules are tried in order: when every rule before one is skipped (it does not match, or its
  backend is known to be unhealthy) and that rule matches and its backend is selectable, the
  rule decides; under overload degradation its backend is the route, whatever the costs are.
\<close>

lemma first_rule_decides:
  assumes "routing_rules cfg = pre @ rule # post"
    and "\<forall>r \<in> set pre. skipped cfg (request_tenant cfg req) req st r"
    and "matchesRule rule (request_tenant cfg req) req"
    and "BackendByName cfg (rr_use_backend rule) = Some b" "backendSelectable st (b_name b)"
    and "overload_degrade st"
  shows "SelectRoute cfg engine None req st = Inr (unit_choice (rr_name rule) b)"
proof -
  have "selectByRules cfg (request_tenant cfg req) req st = Inr (unit_choice (rr_name rule) b)"
    using select_rule_skip[OF assms(2), of "rule # post"] assms(1,3,4,5)
    by (simp add: selectByRules_def)
  then show ?thesis
    using assms(6) by (auto simp: SelectRoute_Inr optimizeByCost_def split: option.split)
qed

text \<open>
  With non-negative unit costs the cost optimisation by the simple engine never moves a
  request to a backend that is dearer per unit than the backend the rules choose.
\<close>

lemma cost_never_dearer:
  assumes "costs_ok cfg" "SelectRoute cfg (Some Estimate) ctx req st = Inr d"
    and "selectByRules cfg (request_tenant cfg req) req st = Inr base"
  shows "\<exists>b b0. b \<in> set (backends cfg) \<and> b0 \<in> set (backends cfg) \<and> backend_name d = b_name b
     \<and> backend_name base = b_name b0 \<and> b_cost_unit b \<le> b_cost_unit b0"
proof -
  obtain b0 where b0: "b0 \<in> set (backends cfg)" "backend_name base = b_name b0"
    "estimated_cost base = b_cost_unit b0"
    using selectByRules_usable[OF assms(3)] by (auto simp: unit_priced_def)
  have d: "d = optimizeByCost cfg (Some Estimate) (request_tenant cfg req) req base st"
    using assms(2,3) by (auto simp: SelectRoute_Inr)
  from simple.optimized_unit[OF assms(1) b0, of "request_tenant cfg req" req st] b0 d
  show ?thesis by metis
qed

definition padded_config :: Config where
  "padded_config = apply_defaults
     (example_config\<lparr>backends := [example_backend\<lparr>b_name := ''small ''\<rparr>],
        default_backend := ''small'',
        reliability := (reliability example_config)\<lparr>fallback_rules := []\<rparr>\<rparr>)"

text \<open>
  A backend whose name is written with a surrounding space passes the check of \<open>Load\<close> under
  its trimmed name, but the router looks it up by the exact name: a configuration can load and
  still route no request at all.
\<close>

lemma padded_name_unroutable:
  "Load getenv (\<lambda>_. Inr padded_config) (Inr raw) = Inr padded_config
     \<and> SelectRoute padded_config engine None req st
         = Inl (ErrText (''default backend '' @ quote ''small'' @ '' not found''))"
proof
  have v: "validate padded_config = None" unfolding padded_config_def by code_simp
  have "apply_defaults padded_config = padded_config"
    unfolding padded_config_def by (rule apply_defaults_idem)
  then show "Load getenv (\<lambda>_. Inr padded_config) (Inr raw) = Inr padded_config"
    using v by (simp add: Load_def)
  have "routing_rules padded_config = []" "default_backend padded_config = ''small''"
    "BackendByName padded_config ''small'' = None"
    by (simp_all add: padded_config_def apply_defaults_def example_config_def BackendByName_def
        example_backend_def)
  then show "SelectRoute padded_config engine None req st
         = Inl (ErrText (''default backend '' @ quote ''small'' @ '' not found''))"
    by (simp add: SelectRoute_def selectByRules_def)
qed

section \<open>Witnesses\<close>

definition idle_state :: RuntimeState where
  "idle_state = \<lparr>queue_depth = 0, backend_health = None, recent_timeout_spike = False,
     overload_degrade = False\<rparr>"

definition busy_state :: RuntimeState where
  "busy_state = idle_state\<lparr>overload_degrade := True\<rparr>"

definition small_rule :: RouteRule where
  "small_rule = \<lparr>rr_name = ''r1'', rr_tenant_class = [], rr_task_type = [], rr_priority = [],
     rr_use_backend = ''small''\<rparr>"

definition small_config :: Config where
  "small_config = apply_defaults (example_config\<lparr>routing_rules := [small_rule]\<rparr>)"

lemmas small_defs = small_config_def small_rule_def apply_defaults_def example_config_def
  example_backend_def zero_backend_def BackendByName_def idle_state_def busy_state_def
  backendSelectable_def BackendHealthOK_def matchesRule_def skipped_def

definition no_engine_route :: RouteDecision where
  "no_engine_route = unit_choice ''r1'' example_backend"

lemma small_rules:
  "selectByRules small_config t req idle_state = Inr no_engine_route"
  "selectByRules small_config t req busy_state = Inr no_engine_route"
  by (simp_all add: selectByRules_def no_engine_route_def small_defs)

lemma small_route_none: "SelectRoute small_config None None req idle_state = Inr no_engine_route"
  by (simp add: SelectRoute_Inr small_rules optimizeByCost_def)

lemma small_route_some:
  "\<exists>d. SelectRoute small_config (Some est) None req idle_state = Inr d"
  by (auto simp: SelectRoute_def small_rules split: sum.split)

theorem route_is_usable_witness: "usable_choice small_config idle_state no_engine_route"
  using route_is_usable[OF small_route_none[of zero_request]] by simp


lemma route_total_witness:
  "case SelectRoute small_config (Some Estimate) None zero_request idle_state of
      Inr d \<Rightarrow> usable_choice small_config idle_state d
    | Inl e \<Rightarrow> e = ErrText ''no healthy backend available''
        \<and> (\<forall>b \<in> set (backends small_config). \<not> backendSelectable idle_state (b_name b))"
proof (rule route_total)
  show "validate small_config = None" by code_simp
  show "trimmed_names small_config" by code_simp
qed

lemma first_rule_decides_witness:
  "SelectRoute small_config (Some Estimate) None zero_request busy_state = Inr no_engine_route"
  unfolding no_engine_route_def
  using first_rule_decides[of small_config "[]" small_rule "[]" zero_request busy_state
      example_backend "Some Estimate"]
  by (simp add: small_defs)

lemma cost_never_dearer_witness:
  "\<exists>d b b0. SelectRoute small_config (Some Estimate) None zero_request idle_state = Inr d
     \<and> b \<in> set (backends small_config) \<and> b0 \<in> set (backends small_config)
     \<and> backend_name d = b_name b \<and> backend_name no_engine_route = b_name b0
     \<and> b_cost_unit b \<le> b_cost_unit b0"
proof -
  have "fl 1 = 1" "fl 4 = 4" using fl_of_int[of 1] fl_of_int[of 4] by simp_all
  then have ok: "costs_ok small_config" by (simp add: costs_ok_def is_float_def small_defs)
  obtain d where d: "SelectRoute small_config (Some Estimate) None zero_request idle_state = Inr d"
    using small_route_some by blast
  from cost_never_dearer[OF ok d small_rules(1)] d show ?thesis by blast
qed

end
