(* ===== verification/Reliability.thy ===== *)
theory Reliability
  imports Routing
begin

text \<open>
  The reliability manager, \<open>internal/reliability/manager.go\<close>: the classification of an error into a
  fallback trigger and the execution of a request over the primary backend and its fallbacks. An
  adapter (\<open>interfaces.BackendAdapter.Invoke\<close>) is a function of the timeout set for the call, the
  request and the state \<open>'s\<close> of everything outside; the map of adapters is a function to an option.
  The lemmas characterise the run by the calls it makes, recorded by \<open>traced\<close> adapters.
\<close>

section \<open>Classification\<close>

definition classifyError :: "goerr \<Rightarrow> string" where
  "classifyError e =
     (case as_upstream e of
        Some (k, _) \<Rightarrow>
          (case k of KindTimeout \<Rightarrow> TriggerTimeout
           | KindBackendUnhealthy \<Rightarrow> TriggerBackendUnhealthy
           | KindUpstream4xx \<Rightarrow> TriggerUpstream4xx
           | KindUpstream5xx \<Rightarrow> TriggerUpstream5xx
           | KindBackendError \<Rightarrow> TriggerBackendError)
      | None \<Rightarrow>
          if is_deadline e then TriggerTimeout
          else if contains (to_lower (err_text e)) ''unhealthy'' then TriggerBackendUnhealthy
          else TriggerBackendError)"

definition shouldFallback :: "Config \<Rightarrow> string \<Rightarrow> goerr \<Rightarrow> bool" where
  "shouldFallback cfg from e \<longleftrightarrow>
     fallback_enabled (reliability cfg)
     \<and> list_ex (\<lambda>r. fr_from_backend r = from \<and> list_ex (\<lambda>on. on = classifyError e) (fr_on r))
         (fallback_rules (reliability cfg))"

definition cloneAINonStream :: "AIRequest \<Rightarrow> AIRequest" where
  "cloneAINonStream req = req\<lparr>options := (options req)\<lparr>opt_stream := False\<rparr>\<rparr>"

section \<open>Execution\<close>

type_synonym 's adapter = "duration \<Rightarrow> AIRequest \<Rightarrow> 's \<Rightarrow> (goerr + BackendResponse) \<times> 's"
type_synonym 's adapters = "string \<Rightarrow> 's adapter option"

definition invoke_request :: "Config \<Rightarrow> nat \<Rightarrow> AIRequest \<Rightarrow> AIRequest" where
  "invoke_request cfg i req =
     (if 0 < i \<and> \<not> stream_fallback_enabled (reliability cfg) \<and> opt_stream (options req)
      then cloneAINonStream req else req)"

text \<open>
  The loop over the candidates: \<open>i\<close> is the index of the head, \<open>lastErr\<close> the last error. The
  result is the successful \<open>ExecutionResult\<close>, or the last error when the loop ends without one.
\<close>

fun exec_loop ::
  "Config \<Rightarrow> 's adapters \<Rightarrow> AIRequest \<Rightarrow> nat \<Rightarrow> goerr option \<Rightarrow> RouteDecision list \<Rightarrow> 's
     \<Rightarrow> (goerr option + ExecutionResult) \<times> 's" where
  "exec_loop cfg adapters req i lastErr [] s = (Inl lastErr, s)"
| "exec_loop cfg adapters req i lastErr (d # ds) s =
     (case adapters (backend_name d) of
        None \<Rightarrow>
          exec_loop cfg adapters req (Suc i)
            (Some (ErrText (''adapter '' @ quote (backend_name d) @ '' not found''))) ds s
      | Some invoke \<Rightarrow>
          (case BackendByName cfg (backend_name d) of
             None \<Rightarrow>
               exec_loop cfg adapters req (Suc i)
                 (Some (ErrText (''backend config '' @ quote (backend_name d) @ '' not found''))) ds s
           | Some b \<Rightarrow>
               (case invoke (dur_ms (b_timeout_ms b)) (invoke_request cfg i req) s of
                  (Inr resp, s') \<Rightarrow>
                    (Inr \<lparr>ex_status = ''success'', ex_backend_name = backend_name d,
                          ex_output = br_output resp, ex_used_fallback = (0 < i), ex_error = None,
                          ex_timing = br_timing resp\<rparr>, s')
                | (Inl e, s') \<Rightarrow>
                    if \<not> shouldFallback cfg (backend_name d) e then (Inl (Some e), s')
                    else exec_loop cfg adapters req (Suc i) (Some e) ds s')))"

text \<open>The forced primary of the options, and the fallbacks that are left.\<close>

definition forced_plan ::
  "ReliabilityExecuteOptions \<Rightarrow> RouteDecision \<Rightarrow> RouteDecision list \<Rightarrow> RouteDecision \<times> RouteDecision list"
  where
  "forced_plan opts primary fb =
     (let name = trim_space (force_primary_backend opts)
      in if name \<noteq> []
         then (\<lparr>backend_name = name, reason = ''forced_primary'',
                estimated_cost = estimated_cost primary, fallback_chain = []\<rparr>,
               if no_fallback opts then [] else fb)
         else (primary, fb))"

definition ExecuteWithFallbackOpts ::
  "Config \<Rightarrow> 's adapters \<Rightarrow> AIRequest \<Rightarrow> RouteDecision \<Rightarrow> RouteDecision list
     \<Rightarrow> ReliabilityExecuteOptions \<Rightarrow> 's \<Rightarrow> (ExecutionResult \<times> goerr option) \<times> 's" where
  "ExecuteWithFallbackOpts cfg adapters req primary0 fb0 opts s =
     (let (primary, fb) = forced_plan opts primary0 fb0
      in case exec_loop cfg adapters req 0 None (primary # fb) s of
           (Inr r, s') \<Rightarrow> ((r, None), s')
         | (Inl lastErr, s') \<Rightarrow>
             (let e = (case lastErr of Some e \<Rightarrow> e
                       | None \<Rightarrow> ErrText ''request failed without a concrete error'')
              in ((\<lparr>ex_status = ''failed'', ex_backend_name = backend_name primary,
                    ex_output = None, ex_used_fallback = (fb \<noteq> []), ex_error = Some e,
                    ex_timing = None\<rparr>, Some e), s')))"

definition ExecuteWithFallback ::
  "Config \<Rightarrow> 's adapters \<Rightarrow> AIRequest \<Rightarrow> RouteDecision \<Rightarrow> RouteDecision list \<Rightarrow> 's
     \<Rightarrow> (ExecutionResult \<times> goerr option) \<times> 's" where
  "ExecuteWithFallback cfg adapters req primary fb s =
     ExecuteWithFallbackOpts cfg adapters req primary fb
       \<lparr>force_primary_backend = [], no_fallback = False\<rparr> s"

section \<open>The calls of a run\<close>

record call =
  call_name :: string
  call_timeout :: duration
  call_req :: AIRequest
  call_err :: "goerr option"

definition err_of :: "goerr + 'a \<Rightarrow> goerr option" where
  "err_of r = (case r of Inl e \<Rightarrow> Some e | Inr _ \<Rightarrow> None)"

definition traced :: "'s adapters \<Rightarrow> ('s \<times> call list) adapters" where
  "traced adapters n =
     map_option (\<lambda>invoke d req (s, tr).
        let (r, s') = invoke d req s
        in (r, (s', tr @ [\<lparr>call_name = n, call_timeout = d, call_req = req, call_err = err_of r\<rparr>])))
       (adapters n)"

definition resolvable :: "Config \<Rightarrow> 's adapters \<Rightarrow> string \<Rightarrow> bool" where
  "resolvable cfg adapters n \<longleftrightarrow> adapters n \<noteq> None \<and> BackendByName cfg n \<noteq> None"

text \<open>The request a call carries, for the loop started at index \<open>i\<close> over the candidates \<open>ds\<close>.\<close>

definition moves_on :: "Config \<Rightarrow> call \<Rightarrow> bool" where
  "moves_on cfg c \<longleftrightarrow> (\<exists>e. call_err c = Some e \<and> shouldFallback cfg (call_name c) e)"

text \<open>
  The specification of a run: it calls the resolvable candidates in order; every call but the last
  failed with a trigger of a fallback rule of its backend; it ends after the first success, after
  the first error that triggers nothing, or at the end of the candidates.
\<close>

definition run_ok ::
  "Config \<Rightarrow> string list \<Rightarrow> call list \<Rightarrow> goerr option + ExecutionResult \<Rightarrow> bool" where
  "run_ok cfg names calls r \<longleftrightarrow>
     (\<exists>rest. names = map call_name calls @ rest
        \<and> (\<forall>c \<in> set (butlast calls). moves_on cfg c)
        \<and> (case r of
             Inr ex \<Rightarrow> calls \<noteq> [] \<and> call_err (last calls) = None
               \<and> ex_backend_name ex = call_name (last calls)
           | Inl _ \<Rightarrow> (\<forall>c \<in> set calls. call_err c \<noteq> None)
               \<and> (rest \<noteq> [] \<longrightarrow> calls \<noteq> [] \<and> \<not> moves_on cfg (last calls))))"

lemma run_ok_Nil: "run_ok cfg [] [] (Inl e)"
  by (simp add: run_ok_def)

lemma run_ok_success:
  "call_err c = None \<Longrightarrow> ex_backend_name ex = call_name c \<Longrightarrow>
     run_ok cfg (call_name c # names) [c] (Inr ex)"
  by (simp add: run_ok_def)

lemma run_ok_stop:
  "call_err c = Some e \<Longrightarrow> \<not> moves_on cfg c \<Longrightarrow> run_ok cfg (call_name c # names) [c] (Inl l)"
  by (simp add: run_ok_def)

lemma run_ok_step:
  "moves_on cfg c \<Longrightarrow> run_ok cfg names calls r \<Longrightarrow>
     run_ok cfg (call_name c # names) (c # calls) r"
  by (auto simp: run_ok_def moves_on_def split: sum.splits)

lemma traced_resolvable [simp]: "resolvable cfg (traced adapters) n = resolvable cfg adapters n"
  by (simp add: resolvable_def traced_def)

lemma traced_None [simp]: "traced adapters n = None \<longleftrightarrow> adapters n = None"
  by (simp add: traced_def)

text \<open>One step of the loop, for a candidate it cannot call and for one it calls.\<close>

lemma exec_loop_skip:
  "\<not> resolvable cfg adapters (backend_name d) \<Longrightarrow>
     \<exists>l'. exec_loop cfg (traced adapters) req i l (d # ds) s
            = exec_loop cfg (traced adapters) req (Suc i) (Some l') ds s"
  by (auto simp: resolvable_def traced_def split: option.split)

definition the_call :: "string \<Rightarrow> duration \<Rightarrow> AIRequest \<Rightarrow> goerr + BackendResponse \<Rightarrow> call" where
  "the_call n t q r = \<lparr>call_name = n, call_timeout = t, call_req = q, call_err = err_of r\<rparr>"

lemma the_call_simps [simp]:
  "call_name (the_call n t q r) = n" "call_req (the_call n t q r) = q"
  "call_timeout (the_call n t q r) = t"
  "call_err (the_call n t q (Inl e)) = Some e" "call_err (the_call n t q (Inr x)) = None"
  by (simp_all add: the_call_def err_of_def)

lemma exec_loop_call:
  assumes "adapters (backend_name d) = Some ivk" "BackendByName cfg (backend_name d) = Some b"
    "ivk (dur_ms (b_timeout_ms b)) (invoke_request cfg i req) s = (r, s')"
  shows "exec_loop cfg (traced adapters) req i l (d # ds) (s, tr) =
    (let tr' = tr @ [the_call (backend_name d) (dur_ms (b_timeout_ms b)) (invoke_request cfg i req) r]
     in case r of
          Inr resp \<Rightarrow> (Inr \<lparr>ex_status = ''success'', ex_backend_name = backend_name d,
              ex_output = br_output resp, ex_used_fallback = (0 < i), ex_error = None,
              ex_timing = br_timing resp\<rparr>, (s', tr'))
        | Inl e \<Rightarrow> if \<not> shouldFallback cfg (backend_name d) e then (Inl (Some e), (s', tr'))
            else exec_loop cfg (traced adapters) req (Suc i) (Some e) ds (s', tr'))"
  using assms by (simp add: traced_def the_call_def Let_def split: sum.split)

lemma invoke_request_cases: "invoke_request cfg i req \<in> {req, cloneAINonStream req}"
  by (simp add: invoke_request_def)

definition run_from ::
  "Config \<Rightarrow> 's adapters \<Rightarrow> (call \<Rightarrow> bool) \<Rightarrow> RouteDecision list \<Rightarrow> call list
     \<Rightarrow> (goerr option + ExecutionResult) \<times> 's \<times> call list \<Rightarrow> bool" where
  "run_from cfg adapters P ds tr res \<longleftrightarrow>
     (\<exists>calls. snd (snd res) = tr @ calls
        \<and> run_ok cfg (filter (resolvable cfg adapters) (map backend_name ds)) calls (fst res)
        \<and> (\<forall>c \<in> set calls. P c))"

lemma run_from_step:
  assumes "run_from cfg adapters P ds (tr @ [c]) res" "moves_on cfg c"
    "resolvable cfg adapters (call_name c)" "call_name c = backend_name d" "P c"
  shows "run_from cfg adapters P (d # ds) tr res"
proof -
  obtain calls where calls: "snd (snd res) = (tr @ [c]) @ calls"
    "run_ok cfg (filter (resolvable cfg adapters) (map backend_name ds)) calls (fst res)"
    "\<forall>c \<in> set calls. P c"
    using assms(1) by (auto simp: run_from_def)
  have "run_ok cfg (filter (resolvable cfg adapters) (map backend_name (d # ds))) (c # calls) (fst res)"
    using run_ok_step[OF assms(2) calls(2)] assms(3,4) by simp
  then show ?thesis using calls(1,3) assms(5) by (auto simp: run_from_def)
qed

lemma run_from_end:
  assumes "resolvable cfg adapters (backend_name d)" "call_name c = backend_name d" "P c"
    "run_ok cfg (call_name c # filter (resolvable cfg adapters) (map backend_name ds)) [c] r"
  shows "run_from cfg adapters P (d # ds) tr (r, s, tr @ [c])"
  using assms by (auto simp: run_from_def)

text \<open>The calls the loop may make from index \<open>i\<close> on.\<close>

definition loop_call :: "Config \<Rightarrow> AIRequest \<Rightarrow> nat \<Rightarrow> call \<Rightarrow> bool" where
  "loop_call cfg req i c \<longleftrightarrow>
     (\<exists>j b. i \<le> j \<and> BackendByName cfg (call_name c) = Some b
        \<and> call_timeout c = dur_ms (b_timeout_ms b) \<and> call_req c = invoke_request cfg j req)"

lemma loop_call_Suc: "loop_call cfg req (Suc i) c \<Longrightarrow> loop_call cfg req i c"
  unfolding loop_call_def using Suc_leD by blast

lemma run_from_mono:
  "run_from cfg adapters P ds tr res \<Longrightarrow> (\<And>c. P c \<Longrightarrow> Q c) \<Longrightarrow> run_from cfg adapters Q ds tr res"
  by (auto simp: run_from_def)

lemma run_from_skip:
  "\<not> resolvable cfg adapters (backend_name d) \<Longrightarrow> run_from cfg adapters P ds tr res \<Longrightarrow>
     run_from cfg adapters P (d # ds) tr res"
  by (simp add: run_from_def)

lemma exec_loop_run:
  "run_from cfg adapters (loop_call cfg req i) ds tr
     (exec_loop cfg (traced adapters) req i l ds (s, tr))"
proof (induction ds arbitrary: i l s tr)
  case (Cons d ds)
  have IH: "run_from cfg adapters (loop_call cfg req i) ds t
      (exec_loop cfg (traced adapters) req (Suc i) l ds (s, t))" for l s t
    by (rule run_from_mono[OF Cons.IH]) (rule loop_call_Suc)
  show ?case
  proof (cases "resolvable cfg adapters (backend_name d)")
    case False
    obtain l' where skip: "exec_loop cfg (traced adapters) req i l (d # ds) (s, tr)
        = exec_loop cfg (traced adapters) req (Suc i) (Some l') ds (s, tr)"
      using exec_loop_skip[OF False] by blast
    show ?thesis unfolding skip by (rule run_from_skip[OF False IH])
  next
    case True
    then obtain ivk b where ivk: "adapters (backend_name d) = Some ivk"
      and b: "BackendByName cfg (backend_name d) = Some b" by (auto simp: resolvable_def)
    obtain r s' where call: "ivk (dur_ms (b_timeout_ms b)) (invoke_request cfg i req) s = (r, s')"
      by (cases "ivk (dur_ms (b_timeout_ms b)) (invoke_request cfg i req) s")
    define c where "c = the_call (backend_name d) (dur_ms (b_timeout_ms b)) (invoke_request cfg i req) r"
    have c: "call_name c = backend_name d" "loop_call cfg req i c"
      using b by (auto simp: c_def loop_call_def)
    note step = exec_loop_call[of adapters d ivk cfg b i req s r s' l ds tr, OF ivk b call,
        folded c_def, unfolded Let_def]
    show ?thesis
    proof (cases r)
      case (Inr resp)
      then have "call_err c = None" by (simp add: c_def)
      with Inr c True show ?thesis
        unfolding step by (auto intro!: run_from_end run_ok_success)
    next
      case (Inl e)
      then have e: "call_err c = Some e" by (simp add: c_def)
      show ?thesis
      proof (cases "shouldFallback cfg (backend_name d) e")
        case fb: True
        then have "moves_on cfg c" using e c by (simp add: moves_on_def)
        from run_from_step[OF IH[of "tr @ [c]" "Some e" s'] this _ c(1) c(2)] fb
        show ?thesis using Inl True c(1) unfolding step by simp
      next
        case False
        then have "\<not> moves_on cfg c" using e c by (simp add: moves_on_def)
        with Inl False c e True show ?thesis
          unfolding step by (auto intro!: run_from_end run_ok_stop)
      qed
    qed
  qed
qed (simp add: run_from_def run_ok_Nil)

text \<open>Recording the calls changes nothing else of a run.\<close>

definition forget :: "'r \<times> 's \<times> call list \<Rightarrow> 'r \<times> 's" where
  "forget x = (fst x, fst (snd x))"

lemma exec_loop_forget:
  "forget (exec_loop cfg (traced adapters) req i l ds (s, tr)) = exec_loop cfg adapters req i l ds s"
proof (induction ds arbitrary: i l s tr)
  case (Cons d ds)
  show ?case
    using Cons.IH
    by (auto simp: traced_def forget_def split: option.splits prod.splits sum.splits)
qed (simp add: forget_def)

lemma execute_traced_result:
  "forget (ExecuteWithFallbackOpts cfg (traced adapters) req primary fb opts (s, tr))
     = ExecuteWithFallbackOpts cfg adapters req primary fb opts s"
proof -
  obtain p rest where fp: "forced_plan opts primary fb = (p, rest)"
    by (cases "forced_plan opts primary fb")
  obtain r s' tr' where x: "exec_loop cfg (traced adapters) req 0 None (p # rest) (s, tr) = (r, s', tr')"
    by (cases "exec_loop cfg (traced adapters) req 0 None (p # rest) (s, tr)") auto
  then have "exec_loop cfg adapters req 0 None (p # rest) s = (r, s')"
    using exec_loop_forget[of cfg adapters req 0 None "p # rest" s tr] by (simp add: forget_def)
  then show ?thesis
    using x by (simp add: ExecuteWithFallbackOpts_def fp forget_def Let_def del: exec_loop.simps split: sum.split)
qed

lemma execute_run:
  assumes "ExecuteWithFallbackOpts cfg (traced adapters) req primary fb opts (s, [])
      = ((res, err), (s', calls))"
    and "forced_plan opts primary fb = (p, rest)"
  obtains r where "run_ok cfg (filter (resolvable cfg adapters) (map backend_name (p # rest))) calls r"
    "\<forall>c \<in> set calls. loop_call cfg req 0 c"
    "case r of Inr ex \<Rightarrow> res = ex \<and> err = None
     | Inl _ \<Rightarrow> ex_status res = ''failed'' \<and> ex_error res = err \<and> err \<noteq> None
         \<and> ex_backend_name res = backend_name p \<and> ex_used_fallback res = (rest \<noteq> [])"
proof -
  obtain r s2 calls2 where x:
    "exec_loop cfg (traced adapters) req 0 None (p # rest) (s, []) = (r, s2, calls2)"
    by (cases "exec_loop cfg (traced adapters) req 0 None (p # rest) (s, [])") auto
  have "run_from cfg adapters (loop_call cfg req 0) (p # rest) [] (r, s2, calls2)"
    using exec_loop_run[of cfg adapters req 0 "p # rest" "[]" None s] x by simp
  then have run: "run_ok cfg (filter (resolvable cfg adapters) (map backend_name (p # rest))) calls2 r"
    "\<forall>c \<in> set calls2. loop_call cfg req 0 c" by (auto simp: run_from_def)
  have "calls2 = calls \<and> (case r of Inr ex \<Rightarrow> res = ex \<and> err = None
     | Inl _ \<Rightarrow> ex_status res = ''failed'' \<and> ex_error res = err \<and> err \<noteq> None
         \<and> ex_backend_name res = backend_name p \<and> ex_used_fallback res = (rest \<noteq> []))"
    using assms x
    by (auto simp: ExecuteWithFallbackOpts_def Let_def simp del: exec_loop.simps split: sum.splits)
  with run show ?thesis using that[of r] by simp
qed

section \<open>The fallback list\<close>

text \<open>
  \<open>Server.buildFallback\<close>, and its copy \<open>buildFallbackList\<close> in \<open>internal/replay/replay.go\<close>: the
  targets of the primary's rules, in the order of the rules.
\<close>

definition fallback_decision :: "string \<Rightarrow> BackendConfig \<Rightarrow> RouteDecision" where
  "fallback_decision primary b = unit_choice (''fallback-from-'' @ primary) b"

fun build_fallback_loop :: "Config \<Rightarrow> string \<Rightarrow> health \<Rightarrow> FallbackRule list \<Rightarrow> RouteDecision list" where
  "build_fallback_loop cfg primary h [] = []"
| "build_fallback_loop cfg primary h (r # rs) =
     (if fr_from_backend r \<noteq> primary then build_fallback_loop cfg primary h rs
      else case BackendByName cfg (fr_fallback_to r) of
        None \<Rightarrow> build_fallback_loop cfg primary h rs
      | Some b \<Rightarrow>
          if \<not> BackendHealthOK h (b_name b) then build_fallback_loop cfg primary h rs
          else fallback_decision primary b # build_fallback_loop cfg primary h rs)"

definition buildFallback :: "Config \<Rightarrow> string \<Rightarrow> health \<Rightarrow> RouteDecision list" where
  "buildFallback cfg primary h = build_fallback_loop cfg primary h (fallback_rules (reliability cfg))"

lemma build_fallback_names:
  "map backend_name (build_fallback_loop cfg primary h rs)
     = filter (BackendHealthOK h)
         (filter (\<lambda>n. BackendByName cfg n \<noteq> None)
            (map fr_fallback_to (filter (\<lambda>r. fr_from_backend r = primary) rs)))"
  by (induction rs)
     (auto simp: fallback_decision_def split: option.splits dest: BackendByName_Some)

section \<open>Properties\<close>


text \<open>
  With fallback disabled, and with the options of an exact replay (a forced primary and no
  fallback), an execution calls at most one backend.
\<close>

lemma execute_single_call:
  assumes "ExecuteWithFallbackOpts cfg (traced adapters) req primary fb opts (s, [])
      = ((res, err), (s', calls))"
    and "\<not> fallback_enabled (reliability cfg)
      \<or> (trim_space (force_primary_backend opts) \<noteq> [] \<and> no_fallback opts)"
  shows "length calls \<le> 1
     \<and> (trim_space (force_primary_backend opts) \<noteq> [] \<and> no_fallback opts \<longrightarrow>
          set (map call_name calls) \<subseteq> {trim_space (force_primary_backend opts)})"
proof -
  obtain p rest where fp: "forced_plan opts primary fb = (p, rest)"
    by (cases "forced_plan opts primary fb")
  obtain r where "run_ok cfg (filter (resolvable cfg adapters) (map backend_name (p # rest))) calls r"
    by (rule execute_run[OF assms(1) fp])
  then obtain left where split: "filter (resolvable cfg adapters) (map backend_name (p # rest))
      = map call_name calls @ left" and mv: "\<forall>c \<in> set (butlast calls). moves_on cfg c"
    by (auto simp: run_ok_def)
  have forced: "rest = [] \<and> backend_name p = trim_space (force_primary_backend opts)"
    if "trim_space (force_primary_backend opts) \<noteq> [] \<and> no_fallback opts"
    using that fp by (auto simp: forced_plan_def Let_def)
  show ?thesis
  proof (cases "trim_space (force_primary_backend opts) \<noteq> [] \<and> no_fallback opts")
    case True
    then have "filter (resolvable cfg adapters) (map backend_name (p # rest))
        \<in> {[], [trim_space (force_primary_backend opts)]}" using forced by auto
    with split have "map call_name calls @ left \<in> {[], [trim_space (force_primary_backend opts)]}"
      by simp
    then show ?thesis by (cases calls) auto
  next
    case False
    with assms(2) have "\<not> moves_on cfg c" for c by (simp add: moves_on_def shouldFallback_def)
    with mv have "butlast calls = []" by (metis list.set_intros(1) neq_Nil_conv)
    then have "length calls \<le> 1" by (metis One_nat_def diff_is_0_eq length_0_conv length_butlast)
    with False show ?thesis by blast
  qed
qed

text \<open>
  Stream fallback: with \<open>stream_fallback_enabled\<close> off, the primary is called with the request
  as it is, and every fallback is called with the same request without streaming; each call has
  the timeout configured for its backend.
\<close>

lemma fallback_calls_not_streamed:
  assumes "ExecuteWithFallback cfg (traced adapters) req primary fb (s, []) = ((res, err), (s', calls))"
    and "\<not> stream_fallback_enabled (reliability cfg)" "resolvable cfg adapters (backend_name primary)"
  shows "\<exists>c cs. calls = c # cs \<and> call_req c = req
     \<and> (\<forall>c' \<in> set cs. call_req c' = cloneAINonStream req)
     \<and> (\<forall>c' \<in> set calls. \<exists>b. BackendByName cfg (call_name c') = Some b
          \<and> call_timeout c' = dur_ms (b_timeout_ms b))"
proof -
  obtain ivk b where ivk: "adapters (backend_name primary) = Some ivk"
    and b: "BackendByName cfg (backend_name primary) = Some b"
    using assms(3) by (auto simp: resolvable_def)
  let ?q = "invoke_request cfg 0 req" and ?t = "dur_ms (b_timeout_ms b)"
  obtain r s1 where call: "ivk ?t ?q s = (r, s1)" by (cases "ivk ?t ?q s")
  define c where "c = the_call (backend_name primary) ?t ?q r"
  note step = exec_loop_call[of adapters primary ivk cfg b 0 req s r s1 None fb "[]",
      OF ivk b call, folded c_def, unfolded Let_def]
  have clone: "invoke_request cfg (Suc j) req = cloneAINonStream req" for j
    using assms(2) by (simp add: invoke_request_def cloneAINonStream_def)
  have req: "?q = req" by (simp add: invoke_request_def)
  obtain cs where cs: "snd (snd (exec_loop cfg (traced adapters) req 0 None (primary # fb) (s, [])))
      = c # cs" "\<forall>c' \<in> set cs. loop_call cfg req 1 c'"
  proof (cases "\<exists>e. r = Inl e \<and> shouldFallback cfg (backend_name primary) e")
    case True
    then obtain e where e: "r = Inl e" "shouldFallback cfg (backend_name primary) e" by blast
    then show ?thesis
      using that exec_loop_run[of cfg adapters req 1 fb "[c]" "Some e" s1] step
      by (auto simp: run_from_def)
  next
    case False
    then show ?thesis
      using that[of "[]"] step
      by (cases r) auto
  qed
  have plan: "forced_plan \<lparr>force_primary_backend = [], no_fallback = False\<rparr> primary fb = (primary, fb)"
    by (simp add: forced_plan_def)
  have "calls = snd (snd (exec_loop cfg (traced adapters) req 0 None (primary # fb) (s, [])))"
    using assms(1)
    by (auto simp: ExecuteWithFallback_def ExecuteWithFallbackOpts_def plan Let_def
        simp del: exec_loop.simps split: prod.splits sum.splits)
  then have "calls = c # cs" using cs by simp
  moreover have "\<forall>c' \<in> set cs. call_req c' = cloneAINonStream req"
    using cs(2) clone by (auto simp: loop_call_def dest!: Suc_le_D)
  ultimately show ?thesis using b req cs(2) by (auto simp: c_def loop_call_def)
qed

text \<open>
  Every error is classified as a trigger the configuration accepts, and an upstream error as
  the trigger of its kind, wrapped or not.
\<close>

lemma classify_valid:
  "IsValidTrigger (classifyError e)
     \<and> (\<forall>k m. as_upstream e = Some (k, m) \<longrightarrow> classifyError e = kind_string k)"
proof -
  have "kind_string k \<in> set validTriggers" for k
    by (cases k) (simp_all add: kind_string_def validTriggers_def trigger_defs)
  moreover have "as_upstream e = Some (k, m) \<Longrightarrow> classifyError e = kind_string k" for k m
    by (cases k) (simp_all add: classifyError_def kind_string_def trigger_defs)
  moreover have "as_upstream e = None \<Longrightarrow> classifyError e \<in> set validTriggers"
    by (simp add: classifyError_def validTriggers_def)
  ultimately show ?thesis
    unfolding IsValidTrigger_def by (metis option.exhaust surj_pair)
qed

text \<open>
  The fallback list of a primary: exactly the targets of the primary's rules, in the order of
  the rules, less those that are not configured or known to be unhealthy.
\<close>

lemma fallback_list_targets:
  "map backend_name (buildFallback cfg primary h)
     = filter (\<lambda>n. BackendByName cfg n \<noteq> None \<and> BackendHealthOK h n)
         (map fr_fallback_to (filter (\<lambda>r. fr_from_backend r = primary)
            (fallback_rules (reliability cfg))))"
  unfolding buildFallback_def build_fallback_names by (simp add: conj_commute)

text \<open>
  The trigger of a rule is not tied to its target: when the primary fails with a trigger that
  only the second of its rules lists, the execution goes to the target of the first rule.
\<close>

lemma trigger_not_tied_to_target:
  assumes "fallback_rules (reliability cfg) = [r1, r2]" "fallback_enabled (reliability cfg)"
    and "fr_from_backend r1 = a" "fr_from_backend r2 = a"
    and "classifyError e \<notin> set (fr_on r1)" "classifyError e \<in> set (fr_on r2)"
    and "resolvable cfg adapters a" "resolvable cfg adapters (fr_fallback_to r1)"
    and "BackendHealthOK h (fr_fallback_to r1)"
    and "\<And>ivk d q s. adapters a = Some ivk \<Longrightarrow> ivk d q s = (Inl e, s)"
    and "\<And>ivk d q s. adapters (fr_fallback_to r1) = Some ivk \<Longrightarrow> ivk d q s = (Inr resp, s)"
    and "backend_name primary = a" "fr_fallback_to r1 \<noteq> a"
  shows "ex_backend_name (fst (fst (ExecuteWithFallback cfg adapters req primary (buildFallback cfg a h) s)))
     = fr_fallback_to r1"
proof -
  obtain b where b: "BackendByName cfg (fr_fallback_to r1) = Some b" "b_name b = fr_fallback_to r1"
    using assms(8) by (auto simp: resolvable_def dest: BackendByName_Some)
  then obtain rest where fb: "buildFallback cfg a h = fallback_decision a b # rest"
    using assms(1,3,9) by (auto simp: buildFallback_def)
  have "shouldFallback cfg a e"
    using assms(1,2,4,6) by (auto simp: shouldFallback_def list_ex_iff)
  moreover have "backend_name (fallback_decision a b) = fr_fallback_to r1"
    using b(2) by (simp add: fallback_decision_def)
  moreover obtain i1 i2 b1 where "adapters a = Some i1" "adapters (fr_fallback_to r1) = Some i2"
    "BackendByName cfg a = Some b1" using assms(7,8) by (auto simp: resolvable_def)
  ultimately show ?thesis
    using b(1) assms(12) assms(10)[of i1] assms(11)[of i2]
    by (simp add: ExecuteWithFallback_def ExecuteWithFallbackOpts_def forced_plan_def fb)
qed

section \<open>Witnesses\<close>

text \<open>
  Two backends: \<open>small\<close> answers, \<open>large\<close> times out; the example's rule sends \<open>large\<close> to \<open>small\<close>.
\<close>

definition pair_config :: Config where
  "pair_config = apply_defaults example_config"

definition pair_adapters :: "unit adapters" where
  "pair_adapters n =
     (if n = ''small'' then Some (\<lambda>d q s. (Inr \<lparr>br_output = None, br_timing = None\<rparr>, s))
      else if n = ''large'' then Some (\<lambda>d q s. (Inl (ErrUpstream KindTimeout []), s))
      else None)"

definition large_route :: RouteDecision where
  "large_route = unit_choice ''r'' (zero_backend\<lparr>b_name := ''large''\<rparr>)"

definition small_route :: RouteDecision where
  "small_route = unit_choice ''f'' (zero_backend\<lparr>b_name := ''small''\<rparr>)"

definition default_opts :: ReliabilityExecuteOptions where
  "default_opts = \<lparr>force_primary_backend = [], no_fallback = False\<rparr>"

definition exact_opts :: ReliabilityExecuteOptions where
  "exact_opts = \<lparr>force_primary_backend = ''large'', no_fallback = True\<rparr>"

lemma pair_lookup:
  "BackendByName pair_config ''small'' = Some example_backend"
  "BackendByName pair_config ''large'' = Some (example_backend\<lparr>b_name := ''large'', b_cost_unit := 4\<rparr>)"
  "fallback_rules (reliability pair_config)
     = [\<lparr>fr_from_backend = ''large'', fr_on = [''timeout''], fr_fallback_to = ''small''\<rparr>]"
  "fallback_enabled (reliability pair_config)"
  "\<not> stream_fallback_enabled (reliability pair_config)"
  by (simp_all add: BackendByName_def pair_config_def apply_defaults_def example_config_def
      example_backend_def)


lemma execute_single_call_witness:
  "\<exists>res err s' calls. ExecuteWithFallbackOpts pair_config (traced pair_adapters) zero_request
      large_route [small_route] exact_opts ((), []) = ((res, err), (s', calls))
    \<and> length calls \<le> 1 \<and> set (map call_name calls) \<subseteq> {''large''}"
proof -
  obtain res err s' calls where x: "ExecuteWithFallbackOpts pair_config (traced pair_adapters)
      zero_request large_route [small_route] exact_opts ((), []) = ((res, err), (s', calls))"
    by (metis surj_pair)
  have t: "trim_space (force_primary_backend exact_opts) = ''large''" "no_fallback exact_opts"
    by (code_simp, simp add: exact_opts_def)
  from execute_single_call[OF x] t x show ?thesis by auto
qed

lemma fallback_calls_not_streamed_witness:
  "\<exists>res err s' c cs. ExecuteWithFallback pair_config (traced pair_adapters)
      (zero_request\<lparr>options := \<lparr>opt_stream = True, opt_max_tokens = 5\<rparr>\<rparr>) large_route [small_route] ((), [])
        = ((res, err), (s', c # cs))
    \<and> opt_stream (options (call_req c)) \<and> (\<forall>c' \<in> set cs. \<not> opt_stream (options (call_req c')))"
proof -
  let ?req = "zero_request\<lparr>options := \<lparr>opt_stream = True, opt_max_tokens = 5\<rparr>\<rparr>"
  obtain res err s' calls where x: "ExecuteWithFallback pair_config (traced pair_adapters)
      ?req large_route [small_route] ((), []) = ((res, err), (s', calls))"
    by (metis surj_pair)
  have "resolvable pair_config pair_adapters (backend_name large_route)"
    by (simp add: resolvable_def pair_adapters_def large_route_def pair_lookup)
  from fallback_calls_not_streamed[OF x pair_lookup(5) this] x show ?thesis
    by (fastforce simp: cloneAINonStream_def)
qed

definition cross_config :: Config where
  "cross_config = pair_config\<lparr>reliability := (reliability pair_config)\<lparr>fallback_rules :=
     [\<lparr>fr_from_backend = ''large'', fr_on = [''upstream_5xx''], fr_fallback_to = ''small''\<rparr>,
      \<lparr>fr_from_backend = ''large'', fr_on = [''timeout''], fr_fallback_to = ''other''\<rparr>]\<rparr>\<rparr>"

lemma trigger_not_tied_to_target_witness:
  "ex_backend_name (fst (fst (ExecuteWithFallback cross_config pair_adapters zero_request large_route
      (buildFallback cross_config ''large'' None) ()))) = ''small''"
proof -
  have l: "BackendByName cross_config n = BackendByName pair_config n" for n
    by (simp add: cross_config_def BackendByName_def)
  let ?r1 = "\<lparr>fr_from_backend = ''large'', fr_on = [''upstream_5xx''], fr_fallback_to = ''small''\<rparr>"
  let ?r2 = "\<lparr>fr_from_backend = ''large'', fr_on = [''timeout''], fr_fallback_to = ''other''\<rparr>"
  have r: "fallback_rules (reliability cross_config) = [?r1, ?r2]"
    "fallback_enabled (reliability cross_config)"
    by (simp_all add: cross_config_def pair_lookup)
  have res: "resolvable cross_config pair_adapters ''large''"
    "resolvable cross_config pair_adapters ''small''"
    by (simp_all add: resolvable_def l pair_lookup pair_adapters_def)
  have "ex_backend_name (fst (fst (ExecuteWithFallback cross_config pair_adapters zero_request
      large_route (buildFallback cross_config ''large'' None) ()))) = fr_fallback_to ?r1"
    by (rule trigger_not_tied_to_target[OF r, where e = "ErrUpstream KindTimeout []"
          and resp = "\<lparr>br_output = None, br_timing = None\<rparr>"])
       (use res in \<open>auto simp: classifyError_def trigger_defs BackendHealthOK_def pair_adapters_def
          large_route_def\<close>)
  then show ?thesis by simp
qed

end
