(* ===== verification/Ledger.thy ===== *)
theory Ledger
  imports Config_Check
begin

text \<open>
  The request ledger: the rows and the in-memory store of \<open>internal/requests\<close> (\<open>models.go\<close>,
  \<open>store.go\<close>, \<open>memory.go\<close>, \<open>factory.go\<close>) and the step writer of \<open>internal/execution/steps.go\<close>.
  The interface \<open>requests.Store\<close> is the locale \<open>ledger_store\<close>: what a reader sees after each
  operation; the memory store interprets it. JSON documents are trees (\<open>json\<close>), not bytes.
\<close>

section \<open>JSON documents\<close>

type_synonym json = goval

text \<open>
  A document column: \<open>None\<close> is the empty byte slice. \<open>json.Marshal\<close> of a map, nil giving \<open>null\<close>.
\<close>

definition json_obj :: "goobj option \<Rightarrow> json" where
  "json_obj m = (case m of None \<Rightarrow> VNil | Some kvs \<Rightarrow> VMap kvs)"

text \<open>
  \<open>json.Marshal\<close> and \<open>json.Unmarshal\<close> of an \<open>AIRequest\<close>, following the field tags: the fields
  with \<open>omitempty\<close> are left out when empty. A missing field or \<open>null\<close> decodes to the zero value, a
  value of another type is an error.
\<close>

definition omit_empty :: "string \<Rightarrow> string \<Rightarrow> goobj" where
  "omit_empty k v = (if v = [] then [] else [(k, VStr v)])"

definition request_json :: "AIRequest \<Rightarrow> json" where
  "request_json r = VMap
     (omit_empty ''request_id'' (request_id r) @ omit_empty ''request_type'' (request_type r)
      @ omit_empty ''pipeline_ref'' (pipeline_ref r)
      @ (case req_context r of None \<Rightarrow> [] | Some c \<Rightarrow> if c = [] then [] else [(''context'', VMap c)])
      @ [(''tenant_id'', VStr (tenant_id r)), (''task_type'', VStr (task_type r)),
         (''priority'', VStr (priority r)), (''input'', json_obj (req_input r)),
         (''options'', VMap [(''stream'', VBool (opt_stream (options r))),
                             (''max_tokens'', VInt (opt_max_tokens (options r)))])])"

text \<open>A value of type \<open>any\<close> decodes its numbers as \<open>float64\<close>.\<close>

primrec decode_any :: "json \<Rightarrow> goval" where
  "decode_any VNil = VNil"
| "decode_any (VBool b) = VBool b"
| "decode_any (VFloat x) = VFloat x"
| "decode_any (VInt n) = VFloat (f_of_int n)"
| "decode_any (VInt64 n) = VFloat (f_of_int n)"
| "decode_any (VStr s) = VStr s"
| "decode_any (VList xs) = VList (map decode_any xs)"
| "decode_any (VMap kvs) = VMap (map (map_prod id decode_any) kvs)"

definition field_string :: "goobj \<Rightarrow> string \<Rightarrow> string option" where
  "field_string m k = (case obj_get (Some m) k of VNil \<Rightarrow> Some [] | VStr s \<Rightarrow> Some s | _ \<Rightarrow> None)"

definition field_obj :: "goobj \<Rightarrow> string \<Rightarrow> goobj option option" where
  "field_obj m k = (case obj_get (Some m) k of VNil \<Rightarrow> Some None | VMap c \<Rightarrow> Some (Some c) | _ \<Rightarrow> None)"

definition field_any_obj :: "goobj \<Rightarrow> string \<Rightarrow> goobj option option" where
  "field_any_obj m k = map_option (map_option (map (map_prod id decode_any))) (field_obj m k)"

definition field_bool :: "goobj \<Rightarrow> string \<Rightarrow> bool option" where
  "field_bool m k = (case obj_get (Some m) k of VNil \<Rightarrow> Some False | VBool b \<Rightarrow> Some b | _ \<Rightarrow> None)"

definition field_int :: "goobj \<Rightarrow> string \<Rightarrow> int option" where
  "field_int m k = (case obj_get (Some m) k of VNil \<Rightarrow> Some 0 | VInt n \<Rightarrow> Some n | _ \<Rightarrow> None)"

definition options_of_json :: "goobj option \<Rightarrow> RequestOptions option" where
  "options_of_json m =
     (case m of None \<Rightarrow> Some \<lparr>opt_stream = False, opt_max_tokens = 0\<rparr>
      | Some o' \<Rightarrow>
          (case (field_bool o' ''stream'', field_int o' ''max_tokens'') of
             (Some s, Some n) \<Rightarrow> Some \<lparr>opt_stream = s, opt_max_tokens = n\<rparr>
           | _ \<Rightarrow> None))"

definition request_of_json :: "json \<Rightarrow> AIRequest option" where
  "request_of_json j =
     (case j of
        VMap m \<Rightarrow>
          (case (field_string m ''request_id'', field_string m ''request_type'',
                 field_string m ''pipeline_ref'', field_any_obj m ''context'', field_string m ''tenant_id'',
                 field_string m ''task_type'', field_string m ''priority'', field_any_obj m ''input'',
                 field_obj m ''options'') of
             (Some i, Some rt, Some p, Some c, Some t, Some ty, Some pr, Some inp, Some op) \<Rightarrow>
               (case options_of_json op of
                  None \<Rightarrow> None
                | Some opts \<Rightarrow>
                    Some \<lparr>request_id = i, request_type = rt, pipeline_ref = p, req_context = c,
                          tenant_id = t, task_type = ty, priority = pr, req_input = inp,
                          options = opts\<rparr>)
           | _ \<Rightarrow> None)
      | VNil \<Rightarrow> Some zero_request
      | _ \<Rightarrow> None)"

definition snapshot_json :: "PolicySnapshot \<Rightarrow> json" where
  "snapshot_json s = VMap
     [(''policy_reason'', VStr (ps_policy_reason s)), (''primary_backend'', VStr (ps_primary_backend s)),
      (''primary_route_reason'', VStr (ps_primary_route_reason s)),
      (''estimated_cost'', VFloat (ps_estimated_cost s)),
      (''overload_degrade'', VBool (ps_overload_degrade s)), (''queue_depth'', VInt (ps_queue_depth s))]"

section \<open>Rows\<close>

record RequestRow =
  rq_request_id :: string
  rq_trace_id :: string
  rq_request_type :: string
  rq_tenant_id :: string
  rq_task_type :: string
  rq_priority :: string
  rq_pipeline_ref :: string
  rq_input_json :: "json option"
  rq_context_json :: "json option"
  rq_ai_request_json :: "json option"
  rq_policy_snapshot :: "json option"
  rq_status :: string
  rq_selected_backend :: string
  rq_route_reason :: string
  rq_created_at :: gotime
  rq_updated_at :: gotime

record StepRow =
  st_request_id :: string
  st_step_index :: int
  st_step_type :: string
  st_input_json :: "json option"
  st_output_json :: "json option"
  st_backend :: string
  st_status :: string
  st_error :: string
  st_latency_ms :: int
  st_metadata_json :: "json option"

record RequestPatch =
  pt_status :: "string option"
  pt_selected_backend :: "string option"
  pt_route_reason :: "string option"
  pt_policy_snapshot :: "json option"
  pt_updated_at :: gotime

text \<open>The patch of a row, shared by the stores.\<close>

definition patch_row :: "RequestPatch \<Rightarrow> RequestRow \<Rightarrow> RequestRow" where
  "patch_row p r =
     r\<lparr>rq_status := (case pt_status p of None \<Rightarrow> rq_status r | Some s \<Rightarrow> s),
       rq_selected_backend := (case pt_selected_backend p of None \<Rightarrow> rq_selected_backend r | Some s \<Rightarrow> s),
       rq_route_reason := (case pt_route_reason p of None \<Rightarrow> rq_route_reason r | Some s \<Rightarrow> s),
       rq_policy_snapshot := (case pt_policy_snapshot p of None \<Rightarrow> rq_policy_snapshot r | Some s \<Rightarrow> Some s),
       rq_updated_at := (if is_zero_time (pt_updated_at p) then rq_updated_at r else pt_updated_at p)\<rparr>"

section \<open>The interface of a store\<close>

text \<open>
  \<open>get\<close> and \<open>steps\<close> are the readers \<open>GetRequest\<close> and \<open>ListSteps\<close>; an operation returns its error
  and the new store.
\<close>

locale ledger_store =
  fixes create :: "RequestRow \<Rightarrow> 's \<Rightarrow> goerr option \<times> 's"
    and update :: "string \<Rightarrow> RequestPatch \<Rightarrow> 's \<Rightarrow> goerr option \<times> 's"
    and append_step :: "StepRow \<Rightarrow> 's \<Rightarrow> goerr option \<times> 's"
    and get :: "string \<Rightarrow> 's \<Rightarrow> goerr + RequestRow"
    and steps :: "string \<Rightarrow> 's \<Rightarrow> goerr + StepRow list"
  assumes create_fresh: "get (rq_request_id row) s = Inl ErrNotFound \<Longrightarrow>
      fst (create row s) = None
      \<and> get i (snd (create row s)) = (if i = rq_request_id row then Inr row else get i s)
      \<and> steps i (snd (create row s)) = (if i = rq_request_id row then Inr [] else steps i s)"
    and create_dup: "get (rq_request_id row) s = Inr r \<Longrightarrow>
      fst (create row s) \<noteq> None \<and> snd (create row s) = s"
    and update_known: "get i s = Inr r \<Longrightarrow>
      fst (update i p s) = None
      \<and> get j (snd (update i p s)) = (if j = i then Inr (patch_row p r) else get j s)
      \<and> steps j (snd (update i p s)) = steps j s"
    and update_unknown: "get i s = Inl e \<Longrightarrow> fst (update i p s) \<noteq> None \<and> snd (update i p s) = s"
    and append_known: "steps (st_request_id st) s = Inr xs \<Longrightarrow>
      fst (append_step st s) = None
      \<and> get j (snd (append_step st s)) = get j s
      \<and> steps j (snd (append_step st s)) = (if j = st_request_id st then Inr (xs @ [st]) else steps j s)"
    and append_unknown: "steps (st_request_id st) s = Inl e \<Longrightarrow>
      fst (append_step st s) \<noteq> None \<and> snd (append_step st s) = s"
    and steps_iff_get: "(\<exists>xs. steps i s = Inr xs) \<longleftrightarrow> (\<exists>r. get i s = Inr r)"
    and get_error: "get i s = Inl e \<Longrightarrow> e = ErrNotFound"

text \<open>A history of writes to a store, and the run of it.\<close>

datatype ledger_write =
    WCreate RequestRow
  | WUpdate string RequestPatch
  | WStep StepRow

fun run_writes ::
  "(RequestRow \<Rightarrow> 's \<Rightarrow> goerr option \<times> 's) \<Rightarrow> (string \<Rightarrow> RequestPatch \<Rightarrow> 's \<Rightarrow> goerr option \<times> 's)
     \<Rightarrow> (StepRow \<Rightarrow> 's \<Rightarrow> goerr option \<times> 's) \<Rightarrow> ledger_write list \<Rightarrow> 's \<Rightarrow> 's" where
  "run_writes create update append_step [] s = s"
| "run_writes create update append_step (WCreate row # ws) s =
     run_writes create update append_step ws (snd (create row s))"
| "run_writes create update append_step (WUpdate i p # ws) s =
     run_writes create update append_step ws (snd (update i p s))"
| "run_writes create update append_step (WStep st # ws) s =
     run_writes create update append_step ws (snd (append_step st s))"

text \<open>What a request's row and steps are after a history: creations after the first are ignored.\<close>

fun row_after :: "string \<Rightarrow> ledger_write list \<Rightarrow> RequestRow option \<Rightarrow> RequestRow option" where
  "row_after i [] r = r"
| "row_after i (WCreate row # ws) r =
     row_after i ws (if rq_request_id row = i \<and> r = None then Some row else r)"
| "row_after i (WUpdate j p # ws) r = row_after i ws (if j = i then map_option (patch_row p) r else r)"
| "row_after i (WStep st # ws) r = row_after i ws r"

fun steps_after :: "string \<Rightarrow> ledger_write list \<Rightarrow> StepRow list option \<Rightarrow> StepRow list option" where
  "steps_after i [] xs = xs"
| "steps_after i (WCreate row # ws) xs =
     steps_after i ws (if rq_request_id row = i \<and> xs = None then Some [] else xs)"
| "steps_after i (WUpdate j p # ws) xs = steps_after i ws xs"
| "steps_after i (WStep st # ws) xs =
     steps_after i ws (if st_request_id st = i then map_option (\<lambda>l. l @ [st]) xs else xs)"

definition found :: "goerr + 'a \<Rightarrow> 'a option" where
  "found r = (case r of Inl _ \<Rightarrow> None | Inr x \<Rightarrow> Some x)"

lemma found_simps [simp]: "found (Inl e) = None" "found (Inr x) = Some x"
  by (simp_all add: found_def)

lemma found_Some [simp]: "found r = Some x \<longleftrightarrow> r = Inr x"
  by (cases r) auto

context ledger_store begin

lemma found_cases:
  obtains (unknown) e where "get i s = Inl ErrNotFound" "steps i s = Inl e"
  | (known) r xs where "get i s = Inr r" "steps i s = Inr xs"
  using steps_iff_get[of i s] get_error[of i s] by (cases "get i s"; cases "steps i s") auto

lemma create_found:
  "found (get i (snd (create row s)))
     = (if rq_request_id row = i \<and> found (get i s) = None then Some row else found (get i s))"
  "found (steps i (snd (create row s)))
     = (if rq_request_id row = i \<and> found (steps i s) = None then Some [] else found (steps i s))"
  using create_fresh[of row s i] create_dup[of row s]
  by (cases rule: found_cases[of "rq_request_id row" s]; auto)+

lemma update_found:
  "found (get i (snd (update j p s)))
     = (if j = i then map_option (patch_row p) (found (get i s)) else found (get i s))"
  "found (steps i (snd (update j p s))) = found (steps i s)"
  using update_known[of j s _ p i] update_unknown[of j s _ p]
  by (cases rule: found_cases[of j s]; auto)+

lemma append_found:
  "found (get i (snd (append_step st s))) = found (get i s)"
  "found (steps i (snd (append_step st s)))
     = (if st_request_id st = i then map_option (\<lambda>l. l @ [st]) (found (steps i s)) else found (steps i s))"
  using append_known[of st s _ i] append_unknown[of st s]
  by (cases rule: found_cases[of "st_request_id st" s]; auto)+

text \<open>A store is its history: the readers see exactly the row and the steps of the writes.\<close>

lemma run_writes_spec:
  "found (get i (run_writes create update append_step ws s)) = row_after i ws (found (get i s))
   \<and> found (steps i (run_writes create update append_step ws s)) = steps_after i ws (found (steps i s))"
proof (induction ws arbitrary: s)
  case (Cons w ws)
  then show ?case by (cases w) (simp_all add: create_found update_found append_found)
qed simp

end

section \<open>The memory store\<close>

record memoryStore =
  ms_requests :: "(string \<times> RequestRow) list"
  ms_steps :: "(string \<times> StepRow list) list"

definition NewMemoryStore :: memoryStore where
  "NewMemoryStore = \<lparr>ms_requests = [], ms_steps = []\<rparr>"

text \<open>\<open>m.steps[id]\<close>: nil where the key is missing.\<close>

definition steps_of :: "memoryStore \<Rightarrow> string \<Rightarrow> StepRow list" where
  "steps_of m i = (case map_of (ms_steps m) i of None \<Rightarrow> [] | Some xs \<Rightarrow> xs)"

definition CreateRequest :: "RequestRow \<Rightarrow> memoryStore \<Rightarrow> goerr option \<times> memoryStore" where
  "CreateRequest row m =
     (case map_of (ms_requests m) (rq_request_id row) of
        Some _ \<Rightarrow> (Some (ErrText ''request already exists''), m)
      | None \<Rightarrow>
          (None, m\<lparr>ms_requests := AList.update (rq_request_id row) row (ms_requests m),
                   ms_steps := AList.update (rq_request_id row) [] (ms_steps m)\<rparr>))"

definition UpdateRequest :: "string \<Rightarrow> RequestPatch \<Rightarrow> memoryStore \<Rightarrow> goerr option \<times> memoryStore" where
  "UpdateRequest i p m =
     (case map_of (ms_requests m) i of
        None \<Rightarrow> (Some ErrNotFound, m)
      | Some r \<Rightarrow> (None, m\<lparr>ms_requests := AList.update i (patch_row p r) (ms_requests m)\<rparr>))"

definition AppendStep :: "StepRow \<Rightarrow> memoryStore \<Rightarrow> goerr option \<times> memoryStore" where
  "AppendStep st m =
     (case map_of (ms_requests m) (st_request_id st) of
        None \<Rightarrow> (Some ErrNotFound, m)
      | Some _ \<Rightarrow>
          (None, m\<lparr>ms_steps := AList.update (st_request_id st)
                     (steps_of m (st_request_id st) @ [st]) (ms_steps m)\<rparr>))"

definition GetRequest :: "string \<Rightarrow> memoryStore \<Rightarrow> goerr + RequestRow" where
  "GetRequest i m =
     (case map_of (ms_requests m) i of None \<Rightarrow> Inl ErrNotFound | Some r \<Rightarrow> Inr r)"

definition ListSteps :: "string \<Rightarrow> memoryStore \<Rightarrow> goerr + StepRow list" where
  "ListSteps i m =
     (case map_of (ms_requests m) i of None \<Rightarrow> Inl ErrNotFound | Some _ \<Rightarrow> Inr (steps_of m i))"

lemmas memory_defs = CreateRequest_def UpdateRequest_def AppendStep_def GetRequest_def ListSteps_def
  steps_of_def

interpretation memory: ledger_store CreateRequest UpdateRequest AppendStep GetRequest ListSteps
  by unfold_locales (auto simp: memory_defs update_conv split: option.splits)

section \<open>NewFromConfig\<close>

datatype store_kind = StoreMemory | StoreSQLite string | StorePostgres string

text \<open>\<open>Inr None\<close> is the nil store of a disabled ledger.\<close>

definition NewFromConfig :: "Config \<Rightarrow> goerr + store_kind option" where
  "NewFromConfig cfg =
     (if \<not> ledger_enabled (ledger cfg) then Inr None
      else (let d = to_lower (trim_space (ledger_driver (ledger cfg)))
            in if d = [] \<or> d = ''memory'' then Inr (Some StoreMemory)
               else if d = ''sqlite'' then
                 (let path = trim_space (ledger_path (ledger cfg))
                  in if path = [] then Inl (ErrText ''ledger: sqlite path is empty'')
                     else Inr (Some (StoreSQLite path)))
               else if d = ''postgres'' then
                 (let dsn = trim_space (ledger_dsn (ledger cfg))
                  in if dsn = [] then Inl (ErrText ''ledger: postgres dsn is empty'')
                     else Inr (Some (StorePostgres dsn)))
               else Inl (ErrText (''ledger: unsupported driver '' @ quote (ledger_driver (ledger cfg))))))"

section \<open>StepWriter\<close>

text \<open>
  \<open>env_store\<close> is the writer's \<open>Store\<close>, \<open>env_onstep\<close> its \<open>OnStep\<close> hook (step type, backend, status,
  start, latency), both \<open>None\<close> when nil; \<open>env_tick\<close> reads the clock.
\<close>

record 'w step_env =
  env_store :: "(StepRow \<Rightarrow> 'w \<Rightarrow> goerr option \<times> 'w) option"
  env_onstep :: "(string \<Rightarrow> string \<Rightarrow> string \<Rightarrow> gotime \<Rightarrow> int \<Rightarrow> 'w \<Rightarrow> 'w) option"
  env_tick :: "'w \<Rightarrow> gotime \<times> 'w"

record StepWriter =
  sw_request_id :: string
  sw_tenant_id :: string
  sw_next :: int

definition StepPolicyCheck :: string where "StepPolicyCheck = ''policy_check''"

definition step_row ::
  "StepWriter \<Rightarrow> string \<Rightarrow> string \<Rightarrow> goobj \<Rightarrow> goobj option \<Rightarrow> goerr option \<Rightarrow> int \<Rightarrow> StepRow" where
  "step_row sw stepType backend inp out err lat =
     \<lparr>st_request_id = sw_request_id sw, st_step_index = sw_next sw, st_step_type = stepType,
      st_input_json = Some (VMap inp),
      st_output_json = Some (VMap (case out of None \<Rightarrow> [] | Some kvs \<Rightarrow> kvs)),
      st_backend = backend,
      st_status = (if err = None then ''success'' else ''failed''),
      st_error = (case err of None \<Rightarrow> [] | Some e \<Rightarrow> err_text e),
      st_latency_ms = lat,
      st_metadata_json = Some (VMap ([(''step'', VStr stepType)]
        @ (if err \<noteq> None \<and> stepType = StepPolicyCheck then [(''policy_rejected'', VBool True)] else [])))\<rparr>"

text \<open>
  \<open>(*StepWriter).Run\<close>: \<open>fn\<close> returns its output map, its error and what the closure assigns to
  variables outside; the error of \<open>AppendStep\<close> is dropped, as the code does.
\<close>

definition StepRun ::
  "'w step_env \<Rightarrow> string \<Rightarrow> string \<Rightarrow> goobj \<Rightarrow> ('w \<Rightarrow> (goobj option \<times> goerr option \<times> 'r) \<times> 'w)
     \<Rightarrow> StepWriter option \<Rightarrow> 'w \<Rightarrow> (goerr option \<times> 'r) \<times> StepWriter option \<times> 'w" where
  "StepRun env stepType backend inp fn w0 s =
     (case w0 of
        None \<Rightarrow> (case fn s of ((out, err, r), s') \<Rightarrow> ((err, r), None, s'))
      | Some sw \<Rightarrow>
          (let (t0, s1) = env_tick env s;
               ((out, err, r), s2) = fn s1;
               (t1, s3) = env_tick env s2;
               lat = millis (time_sub t1 t0);
               status = (if err = None then ''success'' else ''failed'');
               s4 = (case env_onstep env of None \<Rightarrow> s3
                     | Some hook \<Rightarrow> hook stepType backend status t0 lat s3)
           in case env_store env of
                None \<Rightarrow> ((err, r), Some sw, s4)
              | Some write \<Rightarrow>
                  (let (_, s5) = write (step_row sw stepType backend inp out err lat) s4
                   in ((err, r), Some (sw\<lparr>sw_next := sw_next sw + 1\<rparr>), s5))))"

section \<open>Properties\<close>

text \<open>
  C10. The memory ledger is its history: after any sequence of writes to a new store, \<open>GetRequest\<close>
  returns the first row created for the request with every later patch applied in order, and
  \<open>ListSteps\<close> the steps appended since, in order; writes for other requests change nothing.
\<close>

theorem ledger_history:
  "found (GetRequest i (run_writes CreateRequest UpdateRequest AppendStep ws NewMemoryStore))
     = row_after i ws None
   \<and> found (ListSteps i (run_writes CreateRequest UpdateRequest AppendStep ws NewMemoryStore))
     = steps_after i ws None"
proof -
  have "found (GetRequest i NewMemoryStore) = None" "found (ListSteps i NewMemoryStore) = None"
    by (simp_all add: GetRequest_def ListSteps_def NewMemoryStore_def)
  then show ?thesis using memory.run_writes_spec[of i ws NewMemoryStore] by simp
qed

text \<open>
  The request stored in \<open>ai_request_json\<close> decodes to the same normalised request, when the
  values of its context and input came from JSON themselves (their numbers are floats).
\<close>

lemma request_json_decodes:
  assumes "\<And>kvs. req_context r = Some kvs \<Longrightarrow> decode_any (VMap kvs) = VMap kvs"
    and "\<And>kvs. req_input r = Some kvs \<Longrightarrow> decode_any (VMap kvs) = VMap kvs"
  shows "request_of_json (request_json r)
    = Some (r\<lparr>req_context := (case req_context r of None \<Rightarrow> None | Some c \<Rightarrow> if c = [] then None else Some c)\<rparr>)"
  using assms
  by (cases "req_context r"; cases "req_input r"; cases "options r")
     (auto simp: request_of_json_def request_json_def omit_empty_def field_string_def field_obj_def
        field_any_obj_def field_bool_def field_int_def options_of_json_def json_obj_def obj_get_def
        split: option.splits)

text \<open>An empty context is dropped by the encoding and made again by the normalisation.\<close>

lemma normalize_empty_context:
  "NormalizeAIRequest (r\<lparr>req_context := (case req_context r of None \<Rightarrow> None | Some c \<Rightarrow> if c = [] then None else Some c)\<rparr>)
     = NormalizeAIRequest r"
  by (intro AIRequest.equality)
     (auto simp: norm_request_type norm_pipeline norm_context split: option.splits)

lemma request_json_roundtrip:
  assumes "\<And>kvs. req_context r = Some kvs \<Longrightarrow> decode_any (VMap kvs) = VMap kvs"
    and "\<And>kvs. req_input r = Some kvs \<Longrightarrow> decode_any (VMap kvs) = VMap kvs"
  shows "\<exists>r'. request_of_json (request_json r) = Some r' \<and> NormalizeAIRequest r' = NormalizeAIRequest r"
  using request_json_decodes[OF assms] normalize_empty_context by blast

text \<open>
  A validated configuration always gives a ledger: \<open>NewFromConfig\<close> returns no error, and the
  store is nil exactly when the ledger is disabled.
\<close>

lemma ledger_from_valid_config:
  assumes "validate cfg = None"
  shows "\<exists>k. NewFromConfig cfg = Inr k \<and> (k = None \<longleftrightarrow> \<not> ledger_enabled (ledger cfg))"
proof -
  have "check_ledger cfg = None" using assms by (simp add: validate_parts)
  then show ?thesis by (auto simp: NewFromConfig_def check_ledger_def Let_def split: if_splits)
qed

section \<open>Witnesses\<close>

lemma request_json_roundtrip_witness:
  "\<exists>r'. request_of_json (request_json (zero_request\<lparr>tenant_id := ''t1'',
     req_input := Some [(''text'', VStr ''hi'')]\<rparr>)) = Some r' \<and> tenant_id r' = ''t1''"
proof -
  let ?r = "zero_request\<lparr>tenant_id := ''t1'', req_input := Some [(''text'', VStr ''hi'')]\<rparr>"
  obtain r' where r: "request_of_json (request_json ?r) = Some r'"
    "NormalizeAIRequest r' = NormalizeAIRequest ?r"
    using request_json_roundtrip[of ?r] by (auto simp: zero_request_def)
  from arg_cong[OF r(2), of tenant_id] r(1) show ?thesis by simp
qed

lemma ledger_from_valid_config_witness:
  "NewFromConfig (apply_defaults example_config) = Inr None"
proof -
  have "validate (apply_defaults example_config) = None" by code_simp
  from ledger_from_valid_config[OF this] show ?thesis
    by (auto simp: apply_defaults_def example_config_def)
qed

end
