(* ===== verification/Retrieval.thy ===== *)
theory Retrieval
  imports Ledger "HOL-Library.Multiset"
begin

text \<open>
  Retrieval for RAG requests, \<open>internal/retrieval\<close>: the options shared by the adapters
  (\<open>common.go\<close>), the file knowledge base (\<open>filekb.go\<close>), the decoding of the answers of the remote
  ones (\<open>http_kb.go\<close>, \<open>opensearch_kb.go\<close>, \<open>meilisearch_kb.go\<close>), the choice of adapters
  (\<open>build.go\<close>), the reranker and the merge into the request's input. The Unicode tables behind
  \<open>strings.ToLower\<close> and \<open>unicode.IsLetter\<close> are arguments (\<open>lower\<close>, \<open>word_rune\<close>), as is
  \<open>sort.Slice\<close> (\<open>sorter\<close>); JSON objects have distinct keys, spelled as in the contract. The lemmas:
  what the file knowledge base returns (best overlap first, nothing better left out), that the
  decoders return only chunks with text, and what the merge leaves of the input.
\<close>

section \<open>Common options\<close>

definition effectiveTopK :: "KnowledgeBaseConfig \<Rightarrow> goobj option \<Rightarrow> int \<Rightarrow> int" where
  "effectiveTopK kb opts fallback =
     (let from_opts = (case obj_get opts ''top_k'' of
          VInt v \<Rightarrow> if 0 < v then Some v else None
        | VInt64 v \<Rightarrow> if 0 < v then Some v else None
        | VFloat v \<Rightarrow> if 0 < v then Some (f_to_int v) else None
        | _ \<Rightarrow> None)
      in case from_opts of
           Some k \<Rightarrow> k
         | None \<Rightarrow> if 0 < kb_top_k kb then kb_top_k kb else fallback)"

definition httpClientTimeoutMS :: "KnowledgeBaseConfig \<Rightarrow> int" where
  "httpClientTimeoutMS kb = (if 0 < kb_http_timeout_ms kb then kb_http_timeout_ms kb else 30000)"

section \<open>Tokens\<close>

text \<open>
  The bytes of the rune at the head of a non-empty string, as \<open>range\<close> over a string decodes it: an
  invalid byte is a rune of its own.
\<close>

definition cont :: "string \<Rightarrow> nat \<Rightarrow> bool" where
  "cont s k \<longleftrightarrow> k < length s \<and> 128 \<le> (of_char (s ! k) :: nat) \<and> (of_char (s ! k) :: nat) < 192"

definition rune_len :: "string \<Rightarrow> nat" where
  "rune_len s =
     (let b0 = (of_char (s ! 0) :: nat); b1 = (if 1 < length s then (of_char (s ! 1) :: nat) else 0)
      in if b0 < 128 then 1
         else if 194 \<le> b0 \<and> b0 \<le> 223 \<and> cont s 1 then 2
         else if 224 \<le> b0 \<and> b0 \<le> 239 \<and> cont s 1 \<and> cont s 2
              \<and> (b0 = 224 \<longrightarrow> 160 \<le> b1) \<and> (b0 = 237 \<longrightarrow> b1 \<le> 159) then 3
         else if 240 \<le> b0 \<and> b0 \<le> 244 \<and> cont s 1 \<and> cont s 2 \<and> cont s 3
              \<and> (b0 = 240 \<longrightarrow> 144 \<le> b1) \<and> (b0 = 244 \<longrightarrow> b1 \<le> 143) then 4
         else 1)"

lemma rune_len_pos: "0 < rune_len s"
  by (simp add: rune_len_def Let_def)

function runes :: "string \<Rightarrow> string list" where
  "runes s = (if s = [] then [] else take (rune_len s) s # runes (drop (rune_len s) s))"
  by pat_completeness auto
termination
  by (relation "measure length") (auto simp: rune_len_pos)

declare runes.simps [simp del]

text \<open>The loop of \<open>tokenize\<close> over the runes; \<open>cur\<close> is the token being built.\<close>

fun tokenize_loop :: "(string \<Rightarrow> bool) \<Rightarrow> string \<Rightarrow> string list \<Rightarrow> string list" where
  "tokenize_loop word_rune cur [] = (if cur = [] then [] else [cur])"
| "tokenize_loop word_rune cur (r # rs) =
     (if word_rune r then tokenize_loop word_rune (cur @ r) rs
      else (if cur = [] then [] else [cur]) @ tokenize_loop word_rune [] rs)"

definition tokenize :: "(string \<Rightarrow> string) \<Rightarrow> (string \<Rightarrow> bool) \<Rightarrow> string \<Rightarrow> string list" where
  "tokenize lower word_rune s = tokenize_loop word_rune [] (runes (lower s))"

definition overlapScore :: "string list \<Rightarrow> string list \<Rightarrow> rat" where
  "overlapScore q doc =
     (let hit = length (filter (\<lambda>t. t \<in> set doc) q)
      in if hit = 0 then 0 else f_div (f_of_int (int hit)) (f_of_int (int (length q))))"

section \<open>The file knowledge base\<close>

record docChunk =
  dc_text :: string
  dc_source :: string

record FileKB =
  fk_name :: string
  fk_docs :: "docChunk list"

text \<open>
  A file of the walk, in walk order: its path, its path relative to the root, its content
  (\<open>None\<close> when it cannot be read).
\<close>

type_synonym walked_file = "string \<times> string \<times> string option"

definition has_suffix :: "string \<Rightarrow> string \<Rightarrow> bool" where
  "has_suffix s suf \<longleftrightarrow> starts_with (rev suf) (rev s)"

definition file_chunks :: "walked_file \<Rightarrow> docChunk list" where
  "file_chunks f =
     (case f of (path, rel, content) \<Rightarrow>
        if \<not> has_suffix (to_lower path) ''.md'' \<and> \<not> has_suffix (to_lower path) ''.txt'' then []
        else case content of None \<Rightarrow> []
        | Some text \<Rightarrow>
            (let parts = split_on text [CHR 0x0A, CHR 0x0A]
             in List.map_filter (\<lambda>(i, p).
                  if trim_space p = [] then None
                  else Some \<lparr>dc_text = trim_space p,
                    dc_source = (if 1 < length parts then rel @ ''#'' @ show_nat i else rel)\<rparr>)
                  (enumerate 0 parts)))"

text \<open>The walk itself, with its error, is an argument.\<close>

definition NewFileKB :: "string \<Rightarrow> goerr + walked_file list \<Rightarrow> goerr + FileKB" where
  "NewFileKB name walk =
     (case walk of Inl e \<Rightarrow> Inl e
      | Inr files \<Rightarrow> Inr \<lparr>fk_name = name, fk_docs = concat (map file_chunks files)\<rparr>)"

definition score_doc :: "(string \<Rightarrow> string) \<Rightarrow> (string \<Rightarrow> bool) \<Rightarrow> string list \<Rightarrow> docChunk \<Rightarrow> RetrievalChunk option" where
  "score_doc lower word_rune qTokens d =
     (let dt = tokenize lower word_rune (dc_text d)
      in if dt = [] then None
         else (let s = overlapScore qTokens dt
               in if s \<le> 0 then None
                  else Some \<lparr>chunk_text = dc_text d, chunk_source = dc_source d, chunk_score = s\<rparr>))"

definition Retrieve ::
  "(string \<Rightarrow> string) \<Rightarrow> (string \<Rightarrow> bool) \<Rightarrow> (RetrievalChunk list \<Rightarrow> RetrievalChunk list) \<Rightarrow> FileKB \<Rightarrow> string
     \<Rightarrow> RetrievalChunk list" where
  "Retrieve lower word_rune sorter kb query =
     (let qTokens = tokenize lower word_rune query
      in if qTokens = [] then []
         else (let out = sorter (List.map_filter (score_doc lower word_rune qTokens) (fk_docs kb));
                   top = (if length out < 5 then length out else 5)
               in take top out))"

section \<open>The answers of remote knowledge bases\<close>

fun first_string :: "goobj option \<Rightarrow> string list \<Rightarrow> string" where
  "first_string m [] = []"
| "first_string m (k # ks) =
     (case obj_get m k of
        VStr t \<Rightarrow> if trim_space t \<noteq> [] then trim_space t else first_string m ks
      | _ \<Rightarrow> first_string m ks)"

definition firstString :: "goobj option \<Rightarrow> string list \<Rightarrow> string" where
  "firstString m ks = first_string m ks"

definition field_float :: "goobj \<Rightarrow> string \<Rightarrow> rat option" where
  "field_float m k =
     (case obj_get (Some m) k of VNil \<Rightarrow> Some 0 | VFloat x \<Rightarrow> Some x | VInt n \<Rightarrow> Some (f_of_int n) | _ \<Rightarrow> None)"

definition field_list :: "goobj \<Rightarrow> string \<Rightarrow> json list option" where
  "field_list m k = (case obj_get (Some m) k of VNil \<Rightarrow> Some [] | VList xs \<Rightarrow> Some xs | _ \<Rightarrow> None)"

fun sequence_opt :: "'a option list \<Rightarrow> 'a list option" where
  "sequence_opt [] = Some []"
| "sequence_opt (x # xs) =
     (case x of None \<Rightarrow> None | Some a \<Rightarrow> map_option (\<lambda>l. a # l) (sequence_opt xs))"

text \<open>The fields of \<open>httpChunkEl\<close>: text, content, source, score.\<close>

definition chunk_el :: "json \<Rightarrow> (string \<times> string \<times> string \<times> rat) option" where
  "chunk_el j =
     (case j of
        VNil \<Rightarrow> Some ([], [], [], 0)
      | VMap m \<Rightarrow>
          (case (field_string m ''text'', field_string m ''content'', field_string m ''source'',
                 field_float m ''score'') of
             (Some t, Some c, Some s, Some x) \<Rightarrow> Some (t, c, s, x)
           | _ \<Rightarrow> None)
      | _ \<Rightarrow> None)"

definition chunk_of_el :: "string \<times> string \<times> string \<times> rat \<Rightarrow> RetrievalChunk option" where
  "chunk_of_el el =
     (case el of (t, c, s, x) \<Rightarrow>
        (let text = (if trim_space t = [] then trim_space c else trim_space t)
         in if text = [] then None
            else Some \<lparr>chunk_text = text, chunk_source = s, chunk_score = x\<rparr>))"

definition decode_error :: "string \<Rightarrow> goerr" where
  "decode_error p = ErrWrap p (ErrText ''json'')"

text \<open>The bytes of the answer come in as the document they decode to, or the error of decoding.\<close>

definition parseHTTPChunksJSON :: "goerr + json \<Rightarrow> goerr + RetrievalChunk list" where
  "parseHTTPChunksJSON b =
     (case b of
        Inl e \<Rightarrow> Inl (ErrWrap ''decode retrieval json: '' e)
      | Inr VNil \<Rightarrow> Inr []
      | Inr (VMap env) \<Rightarrow>
          (case (map_option (map chunk_el) (field_list env ''chunks''),
                 map_option (map chunk_el) (field_list env ''results'')) of
             (Some cs, Some rs) \<Rightarrow>
               (case (sequence_opt cs, sequence_opt rs) of
                  (Some cl, Some rl) \<Rightarrow>
                    Inr (List.map_filter chunk_of_el (if cl = [] then rl else cl))
                | _ \<Rightarrow> Inl (decode_error ''decode retrieval json: ''))
           | _ \<Rightarrow> Inl (decode_error ''decode retrieval json: ''))
      | Inr _ \<Rightarrow> Inl (decode_error ''decode retrieval json: ''))"

definition text_keys :: "string list" where
  "text_keys = [''text'', ''content'', ''body'', ''passage'']"

definition meili_hit :: "nat \<times> json \<Rightarrow> RetrievalChunk option" where
  "meili_hit ih =
     (case ih of (i, raw) \<Rightarrow>
        (case (case raw of VMap m \<Rightarrow> Some (Some m) | VNil \<Rightarrow> Some None | _ \<Rightarrow> None) of
           None \<Rightarrow> None
         | Some hit \<Rightarrow>
             (let text0 = firstString hit text_keys;
                  text = (if text0 = []
                          then (case obj_get hit ''_formatted'' of
                                  VMap f \<Rightarrow> firstString (Some f) text_keys | _ \<Rightarrow> [])
                          else text0);
                  score = (case decode_any (obj_get hit ''_rankingScore'') of VFloat x \<Rightarrow> x | _ \<Rightarrow> 0);
                  src = (case obj_get hit ''id'' of
                           VStr s \<Rightarrow> if s \<noteq> [] then s else ''hit:'' @ show_nat i
                         | _ \<Rightarrow> ''hit:'' @ show_nat i)
              in if text = [] then None
                 else Some \<lparr>chunk_text = text, chunk_source = src, chunk_score = score\<rparr>)))"

definition parseMeilisearchHits :: "goerr + json \<Rightarrow> goerr + RetrievalChunk list" where
  "parseMeilisearchHits b =
     (case b of
        Inl e \<Rightarrow> Inl (ErrWrap ''meilisearch decode: '' e)
      | Inr VNil \<Rightarrow> Inr []
      | Inr (VMap doc) \<Rightarrow>
          (case field_list doc ''hits'' of
             Some hits \<Rightarrow> Inr (List.map_filter meili_hit (enumerate 0 hits))
           | None \<Rightarrow> Inl (decode_error ''meilisearch decode: ''))
      | Inr _ \<Rightarrow> Inl (decode_error ''meilisearch decode: ''))"

text \<open>A hit's id, index, score and source document (\<open>None\<close> when it is missing).\<close>

definition os_hit :: "json \<Rightarrow> (string \<times> string \<times> rat \<times> json option) option" where
  "os_hit j =
     (case j of
        VNil \<Rightarrow> Some ([], [], 0, None)
      | VMap m \<Rightarrow>
          (case (field_string m ''_id'', field_string m ''_index'', field_float m ''_score'') of
             (Some i, Some ix, Some x) \<Rightarrow> Some (i, ix, x, map_of m ''_source'')
           | _ \<Rightarrow> None)
      | _ \<Rightarrow> None)"

definition os_chunk :: "string \<times> string \<times> rat \<times> json option \<Rightarrow> RetrievalChunk option" where
  "os_chunk h =
     (case h of (i, ix, x, source) \<Rightarrow>
        (case source of
           Some (VMap m) \<Rightarrow>
             (let text = firstString (Some m) (text_keys @ [''chunk''])
              in if text = [] then None
                 else Some \<lparr>chunk_text = text, chunk_source = ix @ ''/'' @ i, chunk_score = x\<rparr>)
         | _ \<Rightarrow> None))"

definition parseOpenSearchHits :: "goerr + json \<Rightarrow> goerr + RetrievalChunk list" where
  "parseOpenSearchHits b =
     (case b of
        Inl e \<Rightarrow> Inl (ErrWrap ''opensearch decode: '' e)
      | Inr VNil \<Rightarrow> Inr []
      | Inr (VMap doc) \<Rightarrow>
          (case field_obj doc ''hits'' of
             Some None \<Rightarrow> Inr []
           | Some (Some outer) \<Rightarrow>
               (case map_option (\<lambda>hs. sequence_opt (map os_hit hs)) (field_list outer ''hits'') of
                  Some (Some hs) \<Rightarrow> Inr (List.map_filter os_chunk hs)
                | _ \<Rightarrow> Inl (decode_error ''opensearch decode: ''))
           | None \<Rightarrow> Inl (decode_error ''opensearch decode: ''))
      | Inr _ \<Rightarrow> Inl (decode_error ''opensearch decode: ''))"

section \<open>Reranker and merge\<close>

definition NoopRerank :: "string \<Rightarrow> RetrievalChunk list \<Rightarrow> goerr + RetrievalChunk list" where
  "NoopRerank q chunks = Inr chunks"

text \<open>\<open>NewRerankFromConfig\<close>: every configuration gives the no-op reranker.\<close>

definition NewRerankFromConfig ::
  "Config option \<Rightarrow> string \<Rightarrow> RetrievalChunk list \<Rightarrow> goerr + RetrievalChunk list" where
  "NewRerankFromConfig cfg =
     (case cfg of
        None \<Rightarrow> NoopRerank
      | Some c \<Rightarrow>
          (let t = to_lower (trim_space (rerank_type c))
           in if t = [] \<or> t = ''noop'' then NoopRerank else NoopRerank))"

definition chunk_meta :: "RetrievalChunk \<Rightarrow> goval" where
  "chunk_meta c = VMap [(''text'', VStr (chunk_text c)), (''source'', VStr (chunk_source c)),
                        (''score'', VFloat (chunk_score c))]"

definition MergeRetrievalIntoInput :: "AIRequest \<Rightarrow> RetrievalChunk list \<Rightarrow> AIRequest" where
  "MergeRetrievalIntoInput req chunks =
     (let input0 = (case req_input req of None \<Rightarrow> [] | Some m \<Rightarrow> m);
          input1 = AList.update ''retrieved_context''
            (VStr (join [CHR 0x0A, CHR 0x0A] (map chunk_text chunks))) input0;
          input2 = AList.update ''retrieved_chunks'' (VList (map chunk_meta chunks)) input1
      in req\<lparr>req_input := Some input2\<rparr>)"

section \<open>Adapters of a configuration\<close>

datatype kb_adapter =
    AFile FileKB | AHTTP KnowledgeBaseConfig | AOpenSearch KnowledgeBaseConfig "string list"
  | AMeilisearch KnowledgeBaseConfig

definition NewHTTPJSONKB :: "KnowledgeBaseConfig \<Rightarrow> goerr + kb_adapter" where
  "NewHTTPJSONKB kb =
     (if blank (kb_endpoint kb) then Inl (ErrText (''http kb '' @ quote (kb_name kb) @ '': empty endpoint''))
      else Inr (AHTTP kb))"

definition NewOpenSearchKB :: "KnowledgeBaseConfig \<Rightarrow> goerr + kb_adapter" where
  "NewOpenSearchKB kb =
     (if blank (kb_endpoint kb) \<or> blank (kb_index kb)
      then Inl (ErrText (''opensearch kb '' @ quote (kb_name kb) @ '': endpoint and index required''))
      else Inr (AOpenSearch kb (if kb_search_fields kb = [] then [''text'', ''content'', ''body'']
                                else kb_search_fields kb)))"

definition NewMeilisearchKB :: "KnowledgeBaseConfig \<Rightarrow> goerr + kb_adapter" where
  "NewMeilisearchKB kb =
     (if blank (kb_endpoint kb) \<or> blank (kb_index kb) \<or> blank (kb_api_key kb)
      then Inl (ErrText (''meilisearch kb '' @ quote (kb_name kb)
                @ '': endpoint, index, and api_key required''))
      else Inr (AMeilisearch kb))"

definition build_adapter ::
  "(string \<Rightarrow> goerr + walked_file list) \<Rightarrow> KnowledgeBaseConfig \<Rightarrow> (goerr + kb_adapter) option" where
  "build_adapter walk kb =
     (let typ = to_lower (trim_space (kb_type kb))
      in if typ = ''file'' then Some (map_sum id AFile (NewFileKB (kb_name kb) (walk (kb_path kb))))
         else if typ = ''http'' then Some (NewHTTPJSONKB kb)
         else if typ = ''opensearch'' \<or> typ = ''elasticsearch'' then Some (NewOpenSearchKB kb)
         else if typ = ''meilisearch'' then Some (NewMeilisearchKB kb)
         else None)"

fun from_config_loop ::
  "(string \<Rightarrow> goerr + walked_file list) \<Rightarrow> KnowledgeBaseConfig list \<Rightarrow> (string \<times> kb_adapter) list
     \<Rightarrow> (string \<times> kb_adapter) list" where
  "from_config_loop walk [] out = out"
| "from_config_loop walk (kb # kbs) out =
     (case build_adapter walk kb of
        Some (Inr a) \<Rightarrow> from_config_loop walk kbs (AList.update (kb_name kb) a out)
      | _ \<Rightarrow> from_config_loop walk kbs out)"

definition FromConfig ::
  "(string \<Rightarrow> goerr + walked_file list) \<Rightarrow> Config \<Rightarrow> (string \<times> kb_adapter) list" where
  "FromConfig walk cfg = from_config_loop walk (knowledge_bases cfg) []"

section \<open>What retrieval returns\<close>

definition sorts_by_score :: "(RetrievalChunk list \<Rightarrow> RetrievalChunk list) \<Rightarrow> bool" where
  "sorts_by_score sorter \<longleftrightarrow>
     (\<forall>xs. mset (sorter xs) = mset xs \<and> sorted_wrt (\<lambda>a b. chunk_score b \<le> chunk_score a) (sorter xs))"

lemma f_ratio_pos:
  assumes "0 < a" "a \<le> b" "b < 2 ^ 53"
  shows "0 < f_div (f_of_int a) (f_of_int b) \<and> f_div (f_of_int a) (f_of_int b) \<le> 1"
proof -
  have f: "f_of_int a = of_int a" "f_of_int b = of_int b"
    using assms by (simp_all add: f_of_int_def fl_of_int)
  have "0 < (of_int a :: rat) / of_int b" using assms by simp
  moreover have "0 < x \<Longrightarrow> 0 < fl x" for x by (simp add: fl_def fl_pos_pos)
  ultimately have "0 < fl (of_int a / of_int b)" by blast
  moreover have "(of_int a :: rat) / of_int b \<le> 1" using assms by simp
  then have "fl (of_int a / of_int b) \<le> fl 1" by (rule fl_mono)
  moreover have "fl 1 = 1" using fl_of_int[of 1] by simp
  ultimately show ?thesis by (simp add: f_div_def f)
qed

lemma overlapScore_range:
  assumes "q \<noteq> []" "length q < 2 ^ 53"
  shows "overlapScore q doc \<le> 1 \<and> (0 < overlapScore q doc \<longleftrightarrow> (\<exists>t \<in> set q. t \<in> set doc))"
proof (cases "filter (\<lambda>t. t \<in> set doc) q = []")
  case True
  then show ?thesis by (auto simp: overlapScore_def Let_def filter_empty_conv)
next
  case False
  let ?h = "length (filter (\<lambda>t. t \<in> set doc) q)"
  have "0 < int ?h" "int ?h \<le> int (length q)" "int (length q) < 2 ^ 53"
    using False assms(2) by auto
  from f_ratio_pos[OF this] have "0 < overlapScore q doc \<and> overlapScore q doc \<le> 1"
    using False by (simp add: overlapScore_def Let_def)
  moreover have "\<exists>t \<in> set q. t \<in> set doc" using False by (auto simp: filter_empty_conv)
  ultimately show ?thesis by blast
qed

lemma map_filter_set: "y \<in> set (List.map_filter f xs) \<longleftrightarrow> (\<exists>x \<in> set xs. f x = Some y)"
  by (force simp: List.map_filter_def)

lemma score_doc_Some:
  assumes "score_doc lower word_rune q d = Some c" "q \<noteq> []" "length q < 2 ^ 53"
  shows "chunk_text c = dc_text d \<and> 0 < chunk_score c \<and> chunk_score c \<le> 1
     \<and> (\<exists>t \<in> set q. t \<in> set (tokenize lower word_rune (dc_text d)))"
  using assms(1) overlapScore_range[OF assms(2,3), of "tokenize lower word_rune (dc_text d)"]
  by (auto simp: score_doc_def Let_def split: if_splits)

definition some_chunks :: "goerr + RetrievalChunk list \<Rightarrow> RetrievalChunk list" where
  "some_chunks r = (case r of Inl _ \<Rightarrow> [] | Inr cs \<Rightarrow> cs)"

lemma first_string_trimmed: "first_string m ks = [] \<or> (\<exists>t. first_string m ks = trim_space t)"
  by (induction m ks rule: first_string.induct) (auto split: goval.split)

lemma check_kbs_all: "check_kbs kbs = None \<Longrightarrow> \<forall>kb \<in> set kbs. check_kb kb = None"
  by (induction kbs) auto

lemma build_valid:
  assumes "check_kb kb = None" "\<forall>e. walk (kb_path kb) \<noteq> Inl e"
  shows "\<exists>a. build_adapter walk kb = Some (Inr a)"
proof -
  obtain files where "walk (kb_path kb) = Inr files" using assms(2) by (cases "walk (kb_path kb)") auto
  then show ?thesis
    using assms(1)
    by (auto simp: check_kb_def build_adapter_def NewFileKB_def NewHTTPJSONKB_def NewOpenSearchKB_def
        NewMeilisearchKB_def Let_def split: if_splits)
qed

lemma from_config_keeps: "map_of out n \<noteq> None \<Longrightarrow> map_of (from_config_loop walk kbs out) n \<noteq> None"
  by (induction walk kbs out rule: from_config_loop.induct)
     (auto simp: update_conv split: option.splits sum.splits if_splits)

lemma from_config_builds:
  assumes "kb \<in> set kbs" "build_adapter walk kb = Some (Inr a)"
  shows "map_of (from_config_loop walk kbs out) (kb_name kb) \<noteq> None"
  using assms
proof (induction kbs arbitrary: out)
  case (Cons k kbs)
  show ?case
  proof (cases "k = kb")
    case True
    then show ?thesis
      using Cons.prems(2) from_config_keeps[of "AList.update (kb_name kb) a out" "kb_name kb" walk kbs]
      by (simp add: update_conv)
  next
    case False
    then have "map_of (from_config_loop walk kbs out') (kb_name kb) \<noteq> None" for out'
      using Cons by simp
    then show ?thesis by (auto split: option.split sum.split)
  qed
qed simp

section \<open>Properties\<close>


text \<open>
  Every chunk a remote knowledge base's answer decodes to has a non-empty text without
  surrounding space, whatever the answer is.
\<close>

lemma remote_chunks_have_text:
  "\<forall>c \<in> set (some_chunks (parseHTTPChunksJSON b)) \<union> set (some_chunks (parseMeilisearchHits b))
      \<union> set (some_chunks (parseOpenSearchHits b)). chunk_text c \<noteq> [] \<and> trim_space (chunk_text c) = chunk_text c"
proof -
  have fs: "trim_space (firstString m ks) = firstString m ks" for m ks
    using first_string_trimmed[of m ks] by (auto simp: firstString_def)
  have http: "chunk_text c \<noteq> [] \<and> trim_space (chunk_text c) = chunk_text c" if "chunk_of_el el = Some c" for el c
    using that by (auto simp: chunk_of_el_def Let_def split: prod.splits if_splits)
  have meili: "chunk_text c \<noteq> [] \<and> trim_space (chunk_text c) = chunk_text c" if "meili_hit ih = Some c" for ih c
    using that
    by (auto simp: meili_hit_def Let_def fs split: prod.splits if_splits option.splits goval.splits)
  have os: "chunk_text c \<noteq> [] \<and> trim_space (chunk_text c) = chunk_text c" if "os_chunk h = Some c" for h c
    using that by (auto simp: os_chunk_def Let_def fs split: prod.splits if_splits option.splits goval.splits)
  have "set (some_chunks (parseHTTPChunksJSON b)) \<subseteq> {c. \<exists>el. chunk_of_el el = Some c}"
    by (auto simp: parseHTTPChunksJSON_def some_chunks_def map_filter_set
        split: sum.splits goval.splits option.splits)
  moreover have "set (some_chunks (parseMeilisearchHits b)) \<subseteq> {c. \<exists>ih. meili_hit ih = Some c}"
    by (auto simp: parseMeilisearchHits_def some_chunks_def map_filter_set
        split: sum.splits goval.splits option.splits)
  moreover have "set (some_chunks (parseOpenSearchHits b)) \<subseteq> {c. \<exists>h. os_chunk h = Some c}"
    by (auto simp: parseOpenSearchHits_def some_chunks_def map_filter_set
        split: sum.splits goval.splits option.splits)
  ultimately show ?thesis using http meili os by blast
qed

text \<open>
  The merge writes the texts of the chunks, joined by blank lines, and their metadata into the
  input, and changes nothing else of the request.
\<close>

lemma merge_retrieval:
  "obj_get (req_input (MergeRetrievalIntoInput req cs)) ''retrieved_context''
     = VStr (join [CHR 0x0A, CHR 0x0A] (map chunk_text cs))
   \<and> obj_get (req_input (MergeRetrievalIntoInput req cs)) ''retrieved_chunks'' = VList (map chunk_meta cs)
   \<and> (\<forall>k. k \<noteq> ''retrieved_context'' \<and> k \<noteq> ''retrieved_chunks'' \<longrightarrow>
        obj_get (req_input (MergeRetrievalIntoInput req cs)) k = obj_get (req_input req) k)
   \<and> (MergeRetrievalIntoInput req cs)\<lparr>req_input := req_input req\<rparr> = req"
proof -
  have "obj_get (Some []) k = VNil" for k by (simp add: obj_get_def)
  then show ?thesis
    by (auto simp: MergeRetrievalIntoInput_def Let_def split: option.split)
qed

text \<open>
  With a validated configuration every knowledge base gets its retrieval adapter, unless the
  walk of a file knowledge base's directory fails.
\<close>

lemma valid_kbs_have_adapters:
  assumes "validate cfg = None" "kb \<in> set (knowledge_bases cfg)" "\<forall>e. walk (kb_path kb) \<noteq> Inl e"
  shows "map_of (FromConfig walk cfg) (kb_name kb) \<noteq> None"
proof -
  have "check_kb kb = None" using assms(1,2) check_kbs_all by (auto simp: validate_parts)
  from build_valid[of kb walk, OF this assms(3)] obtain a where "build_adapter walk kb = Some (Inr a)" ..
  from from_config_builds[OF assms(2) this] show ?thesis by (simp add: FromConfig_def)
qed

section \<open>Witnesses\<close>

text \<open>Insertion by score: a concrete sort.\<close>

fun insert_score :: "RetrievalChunk \<Rightarrow> RetrievalChunk list \<Rightarrow> RetrievalChunk list" where
  "insert_score c [] = [c]"
| "insert_score c (d # ds) = (if chunk_score d \<le> chunk_score c then c # d # ds else d # insert_score c ds)"

definition score_sort :: "RetrievalChunk list \<Rightarrow> RetrievalChunk list" where
  "score_sort xs = foldr insert_score xs []"

lemma insert_score_mset: "mset (insert_score c cs) = add_mset c (mset cs)"
  by (induction cs) auto

lemma insert_score_sorted:
  "sorted_wrt (\<lambda>a b. chunk_score b \<le> chunk_score a) cs \<Longrightarrow>
     sorted_wrt (\<lambda>a b. chunk_score b \<le> chunk_score a) (insert_score c cs)"
proof (induction cs)
  case (Cons d ds)
  have "set (insert_score c ds) = insert c (set ds)"
    using arg_cong[OF insert_score_mset[of c ds], of set_mset] by simp
  with Cons show ?case by auto
qed simp

lemma score_sort_ok: "sorts_by_score score_sort"
proof -
  have "mset (score_sort xs) = mset xs
      \<and> sorted_wrt (\<lambda>a b. chunk_score b \<le> chunk_score a) (score_sort xs)" for xs
    by (induction xs) (auto simp: score_sort_def insert_score_mset insert_score_sorted)
  then show ?thesis by (simp add: sorts_by_score_def)
qed


definition kb_config :: Config where
  "kb_config = apply_defaults (example_config\<lparr>knowledge_bases := [\<lparr>kb_name = ''docs'', kb_type = ''file'',
     kb_path = ''/kb'', kb_endpoint = [], kb_api_key = [], kb_headers = [], kb_top_k = 0, kb_index = [],
     kb_search_fields = [], kb_http_timeout_ms = 0\<rparr>]\<rparr>)"

lemma valid_kbs_have_adapters_witness: "map_of (FromConfig (\<lambda>_. Inr []) kb_config) ''docs'' \<noteq> None"
proof -
  have v: "validate kb_config = None" unfolding kb_config_def by code_simp
  have k: "knowledge_bases kb_config = [hd (knowledge_bases kb_config)]"
    "kb_name (hd (knowledge_bases kb_config)) = ''docs''"
    by (simp_all add: kb_config_def apply_defaults_def)
  then have "hd (knowledge_bases kb_config) \<in> set (knowledge_bases kb_config)" by (metis list.set_intros(1))
  from valid_kbs_have_adapters[OF v this] k(2) show ?thesis by auto
qed

lemma merge_retrieval_witness:
  "obj_get (req_input (MergeRetrievalIntoInput (zero_request\<lparr>req_input := Some [(''text'', VStr ''hi'')]\<rparr>)
      [\<lparr>chunk_text = ''a'', chunk_source = [], chunk_score = 0\<rparr>])) ''text'' = VStr ''hi''"
  using merge_retrieval[of "zero_request\<lparr>req_input := Some [(''text'', VStr ''hi'')]\<rparr>"
      "[\<lparr>chunk_text = ''a'', chunk_source = [], chunk_score = 0\<rparr>]"]
  by (simp add: obj_get_def)

end
