(* ===== verification/Upstream_Http.thy ===== *)
theory Upstream_Http
  imports Reliability Retrieval
begin

text \<open>
  What the HTTP backend adapters (\<open>internal/adapters/vllm\<close>, \<open>anthropic\<close>, \<open>gemini\<close>) share: sending
  a request and mapping its failures, reading a stream of server-sent events, and the timings of a
  streamed answer. The code repeats these parts in each adapter; the definitions take what differs
  (names, texts, the decoding of one event) as arguments. The transport, the clock and the decoding
  of JSON text are the record \<open>net\<close>, on an outside state \<open>'x\<close>.
\<close>

section \<open>Requests and answers\<close>

record http_out =
  ho_method :: string
  ho_url :: string
  ho_headers :: "(string \<times> string) list"
  ho_body :: "json option"

text \<open>
  An answer: \<open>hi_json\<close> is what \<open>json.Decoder\<close> makes of the body (a value or the error, which may be
  a read error); \<open>hi_text\<close> are the bytes of the body and \<open>hi_read_error\<close> the error that ended
  them, \<open>None\<close> for the end of file.
\<close>

record http_in =
  hi_status :: int
  hi_content_type :: string
  hi_json :: "goerr + json"
  hi_text :: string
  hi_read_error :: "goerr option"

text \<open>
  \<open>net_do client budget out\<close> sends \<open>out\<close> with the client's timeout under a context with the given
  budget; \<open>net_url_error\<close> is the error of \<open>http.NewRequestWithContext\<close>; \<open>net_unmarshal\<close> is
  \<open>json.Unmarshal\<close> of a text into a value; \<open>net_wait budget d\<close> waits for \<open>d\<close> or the end of the
  context, whose error it then returns; \<open>net_iter\<close> is the order in which the configured header
  map is ranged over.
\<close>

record 'x net =
  net_url_error :: "string \<Rightarrow> goerr option"
  net_do :: "duration \<Rightarrow> duration \<Rightarrow> http_out \<Rightarrow> 'x \<Rightarrow> (goerr + http_in) \<times> 'x"
  net_now :: "'x \<Rightarrow> gotime \<times> 'x"
  net_wait :: "duration \<Rightarrow> duration \<Rightarrow> 'x \<Rightarrow> goerr option \<times> 'x"
  net_unmarshal :: "string \<Rightarrow> json option"
  net_iter :: "(string \<times> string) list \<Rightarrow> (string \<times> string) list"

section \<open>Headers\<close>

definition token_char :: "char \<Rightarrow> bool" where
  "token_char c \<longleftrightarrow>
     (let n = (of_char c :: nat)
      in 48 \<le> n \<and> n \<le> 57 \<or> 65 \<le> n \<and> n \<le> 90 \<or> 97 \<le> n \<and> n \<le> 122 \<or> c \<in> set ''!#$%&*+-.^_|~'' \<or> n = 39 \<or> n = 96)"

definition upper_byte :: "char \<Rightarrow> char" where
  "upper_byte c = (if 97 \<le> (of_char c :: nat) \<and> (of_char c :: nat) \<le> 122
     then char_of ((of_char c :: nat) - 32) else c)"

fun canonical_from :: "bool \<Rightarrow> string \<Rightarrow> string" where
  "canonical_from up [] = []"
| "canonical_from up (c # cs) =
     (if up then upper_byte c else lower_byte c) # canonical_from (c = CHR ''-'') cs"

text \<open>\<open>http.CanonicalHeaderKey\<close> and \<open>Header.Set\<close>.\<close>

definition canonical_key :: "string \<Rightarrow> string" where
  "canonical_key k = (if list_all token_char k then canonical_from True k else k)"

definition header_set :: "string \<Rightarrow> string \<Rightarrow> (string \<times> string) list \<Rightarrow> (string \<times> string) list" where
  "header_set k v hs = AList.update (canonical_key k) v hs"

definition header_get :: "(string \<times> string) list \<Rightarrow> string \<Rightarrow> string option" where
  "header_get hs k = map_of hs (canonical_key k)"

definition applyExtraHeaders ::
  "'x net \<Rightarrow> BackendConfig \<Rightarrow> (string \<times> string) list \<Rightarrow> (string \<times> string) list" where
  "applyExtraHeaders net cfg hs =
     foldl (\<lambda>hs (k, v). if trim_space k = [] then hs else header_set (trim_space k) v hs)
       hs (net_iter net (b_headers cfg))"

section \<open>Sending\<close>

definition ok_status :: "int \<Rightarrow> bool" where
  "ok_status st \<longleftrightarrow> 200 \<le> st \<and> st < 300"

text \<open>
  From \<open>http.NewRequestWithContext\<close> to the check of the status; \<open>what\<close> is the text the adapter puts
  before \<open>failed status=\<close>.
\<close>

definition send_chat ::
  "'x net \<Rightarrow> duration \<Rightarrow> duration \<Rightarrow> string \<Rightarrow> http_out \<Rightarrow> 'x \<Rightarrow> (goerr + http_in) \<times> 'x" where
  "send_chat net client budget what out x =
     (case net_url_error net (ho_url out) of
        Some e \<Rightarrow> (Inl e, x)
      | None \<Rightarrow>
          (case net_do net client budget out x of
             (Inl e, x1) \<Rightarrow> (Inl (if is_deadline e then ErrUpstream KindTimeout (err_text e) else e), x1)
           | (Inr r, x1) \<Rightarrow>
               ((if ok_status (hi_status r) then Inr r
                 else Inl (ErrUpstream (if 500 \<le> hi_status r then KindUpstream5xx else KindUpstream4xx)
                   (what @ '' failed status='' @ show_int (hi_status r)))), x1)))"

text \<open>A health probe: \<open>GET\<close> of a path.\<close>

definition send_health ::
  "'x net \<Rightarrow> duration \<Rightarrow> duration \<Rightarrow> string \<Rightarrow> string \<Rightarrow> http_out \<Rightarrow> 'x \<Rightarrow> goerr option \<times> 'x" where
  "send_health net client budget what path out x =
     (case net_url_error net (ho_url out) of
        Some e \<Rightarrow> (Some e, x)
      | None \<Rightarrow>
          (case net_do net client budget out x of
             (Inl e, x1) \<Rightarrow> (Some (ErrUpstream KindBackendUnhealthy (err_text e)), x1)
           | (Inr r, x1) \<Rightarrow>
               ((if ok_status (hi_status r) then None
                 else Some (ErrUpstream KindBackendUnhealthy
                   (what @ '' failed status='' @ show_int (hi_status r) @ '' path='' @ path))), x1)))"

definition is_event_stream :: "http_in \<Rightarrow> bool" where
  "is_event_stream r \<longleftrightarrow>
     (let ct = to_lower (hi_content_type r) in contains ct ''event-stream'' \<or> contains ct ''text/plain'')"

definition input_text :: "AIRequest \<Rightarrow> string" where
  "input_text req =
     (let text = string_or_empty (obj_get (req_input req) ''text'')
      in if text = [] then ''No text provided.'' else text)"

definition rooted :: "string \<Rightarrow> string" where
  "rooted path = (if starts_with ''/'' path then path else CHR ''/'' # path)"

section \<open>Reading lines\<close>

text \<open>
  \<open>bufio.Scanner\<close> with \<open>ScanLines\<close> and a buffer of at most \<open>limit\<close> bytes: the lines it yields and
  the error it ends with. A line that fills the buffer ends the scan.
\<close>

definition drop_cr :: "string \<Rightarrow> string" where
  "drop_cr l = (if l \<noteq> [] \<and> last l = CHR 0x0D then butlast l else l)"

definition too_long :: goerr where
  "too_long = ErrText ''bufio.Scanner: token too long''"

function scan_lines :: "nat \<Rightarrow> string \<Rightarrow> goerr option \<Rightarrow> string list \<times> goerr option" where
  "scan_lines limit s err =
     (let l = takeWhile (\<lambda>c. c \<noteq> CHR 0x0A) s; rest = dropWhile (\<lambda>c. c \<noteq> CHR 0x0A) s
      in if limit \<le> length l then ([], Some too_long)
         else if rest = [] then ((if l = [] then [] else [drop_cr l]), err)
         else (let (ls, e) = scan_lines limit (tl rest) err in (drop_cr l # ls, e)))"
  by pat_completeness auto
termination
proof (relation "measure (\<lambda>(_, s, _). length s)", goal_cases)
  case (2 limit s err l rest)
  then have "length (tl rest) < length rest" by (cases rest) auto
  also have "length rest \<le> length s" using 2(2) length_dropWhile_le by blast
  finally show ?case by simp
qed simp

declare scan_lines.simps [simp del]

definition scan_limit :: nat where
  "scan_limit = 1048576"

section \<open>Server-sent events\<close>

text \<open>
  The loop over the lines of a stream. \<open>event\<close> decodes the data of an event: \<open>None\<close> ends the loop
  (the sentinel \<open>[DONE]\<close> of the OpenAI protocol), \<open>Some []\<close> is an event without text. The clock is
  read when the first text arrives.
\<close>

record sse =
  se_text :: string
  se_first :: "gotime option"
  se_data :: bool
  se_done :: bool

definition no_events :: sse where
  "no_events = \<lparr>se_text = [], se_first = None, se_data = False, se_done = False\<rparr>"

definition event_data :: "string \<Rightarrow> string" where
  "event_data line =
     (if line = [] \<or> starts_with '':'' line \<or> \<not> starts_with ''data:'' line then []
      else trim_space (trim_prefix ''data:'' line))"

fun sse_loop ::
  "(string \<Rightarrow> string option) \<Rightarrow> ('x \<Rightarrow> gotime \<times> 'x) \<Rightarrow> string list \<Rightarrow> sse \<Rightarrow> 'x \<Rightarrow> sse \<times> 'x" where
  "sse_loop event now [] s x = (s, x)"
| "sse_loop event now (line # lines) s x =
     (let data = event_data line
      in if data = [] then sse_loop event now lines s x
         else case event data of
           None \<Rightarrow> (s\<lparr>se_done := True\<rparr>, x)
         | Some part \<Rightarrow>
             (let s1 = s\<lparr>se_data := True\<rparr>
              in if part = [] then sse_loop event now lines s1 x
                 else case se_first s1 of
                   Some _ \<Rightarrow> sse_loop event now lines (s1\<lparr>se_text := se_text s1 @ part\<rparr>) x
                 | None \<Rightarrow>
                     (let (t, x1) = now x
                      in sse_loop event now lines (s1\<lparr>se_text := se_text s1 @ part, se_first := Some t\<rparr>) x1)))"

text \<open>The timings of a streamed answer.\<close>

definition stream_timing :: "gotime \<Rightarrow> gotime option \<Rightarrow> gotime \<Rightarrow> string \<Rightarrow> BackendTiming" where
  "stream_timing t0 first tEnd out =
     \<lparr>bt_ttft_ms = (case first of
         None \<Rightarrow> 0
       | Some f \<Rightarrow> if millis (time_sub f t0) < 0 then 0 else millis (time_sub f t0)),
      bt_completion_latency_ms = millis (time_sub tEnd t0),
      bt_tpot_ms = (case first of
         None \<Rightarrow> 0
       | Some f \<Rightarrow>
           (let post = millis (time_sub tEnd f);
                tokens = (if int (length (runes out)) < 1 then 1 else int (length (runes out)))
            in if 0 < post then (if go_div post tokens \<le> 0 then 1 else go_div post tokens) else 0)),
      bt_streamed = True\<rparr>"

definition flat_timing :: "gotime \<Rightarrow> gotime \<Rightarrow> BackendTiming" where
  "flat_timing t0 t1 =
     \<lparr>bt_ttft_ms = millis (time_sub t1 t0), bt_completion_latency_ms = millis (time_sub t1 t0),
      bt_tpot_ms = 0, bt_streamed = False\<rparr>"

definition chat_output :: "BackendConfig \<Rightarrow> string \<Rightarrow> bool \<Rightarrow> bool \<Rightarrow> goobj" where
  "chat_output cfg text requested degraded =
     [(''text'', VStr text), (''backend'', VStr (b_name cfg)),
      (''stream_requested'', VBool requested), (''stream_degraded'', VBool degraded)]"

text \<open>From the scanner to the response; \<open>none\<close> and \<open>blank_text\<close> are the adapter's texts.\<close>

definition read_stream ::
  "'x net \<Rightarrow> BackendConfig \<Rightarrow> (string \<Rightarrow> string option) \<Rightarrow> string \<Rightarrow> string \<Rightarrow> gotime \<Rightarrow> http_in \<Rightarrow> 'x
     \<Rightarrow> (goerr + BackendResponse) \<times> 'x" where
  "read_stream net cfg event none blank_text t0 r x =
     (let (lines, scan_err) = scan_lines scan_limit (hi_text r) (hi_read_error r);
          (s, x1) = sse_loop event (net_now net) lines no_events x
      in case (if se_done s then None else scan_err) of
           Some e \<Rightarrow> (Inl (ErrUpstream KindBackendError (err_text e)), x1)
         | None \<Rightarrow>
             if \<not> se_data s \<and> se_text s = [] then (Inl (ErrUpstream KindBackendError none), x1)
             else (let (tEnd, x2) = net_now net x1;
                       out = (if se_text s = [] then blank_text else se_text s)
                   in (Inr \<lparr>br_output = Some (chat_output cfg out True False),
                            br_timing = Some (stream_timing t0 (se_first s) tEnd out)\<rparr>, x2)))"

end
