(* ===== verification/Openai.thy ===== *)
theory Openai
  imports Upstream_Http
begin

text \<open>
  The adapter for OpenAI-compatible backends, \<open>internal/adapters/vllm/vllm.go\<close> (types \<open>vllm\<close>,
  \<open>openai\<close>, \<open>openai_compatible\<close>, \<open>azure_openai\<close>): chat completions, plain and streamed, the health
  probe, the URLs and the headers of both dialects.
\<close>

section \<open>URLs and headers\<close>

definition hex_upper :: "nat \<Rightarrow> char" where
  "hex_upper d = (if d < 10 then char_of (48 + d) else char_of (55 + d))"

text \<open>\<open>url.QueryEscape\<close>.\<close>

definition escape_byte :: "char \<Rightarrow> string" where
  "escape_byte c =
     (let n = (of_char c :: nat)
      in if 48 \<le> n \<and> n \<le> 57 \<or> 65 \<le> n \<and> n \<le> 90 \<or> 97 \<le> n \<and> n \<le> 122 \<or> c \<in> set ''-_.~'' then [c]
         else if n = 32 then ''+''
         else [CHR ''%'', hex_upper (n div 16), hex_upper (n mod 16)])"

definition query_escape :: "string \<Rightarrow> string" where
  "query_escape s = concat (map escape_byte s)"

definition joinURL :: "string \<Rightarrow> string \<Rightarrow> string" where
  "joinURL base suffix = trim_right_slash base @ suffix"

definition isAzure :: "BackendConfig \<Rightarrow> bool" where
  "isAzure cfg \<longleftrightarrow> b_type cfg = ''azure_openai''"

definition apiVersion :: "BackendConfig \<Rightarrow> string" where
  "apiVersion cfg =
     (let v = trim_space (b_api_version cfg)
      in if v \<noteq> [] then v else if isAzure cfg then ''2024-02-15-preview'' else [])"

definition chatCompletionsURL :: "BackendConfig \<Rightarrow> string" where
  "chatCompletionsURL cfg =
     (if \<not> isAzure cfg then joinURL (b_endpoint cfg) ''/v1/chat/completions''
      else (let u = trim_right_slash (b_endpoint cfg) @ ''/openai/deployments/''
                  @ trim_space (b_default_model cfg) @ ''/chat/completions'';
                v = apiVersion cfg
            in if v \<noteq> [] then u @ ''?api-version='' @ query_escape v else u))"

definition applyHeaders :: "'x net \<Rightarrow> BackendConfig \<Rightarrow> (string \<times> string) list \<Rightarrow> (string \<times> string) list" where
  "applyHeaders net cfg hs =
     (let hs1 = applyExtraHeaders net cfg hs; key = trim_space (b_api_key cfg);
          name = trim_space (b_auth_header_name cfg)
      in if key = [] then hs1
         else if isAzure cfg then header_set (if name = [] then ''api-key'' else name) key hs1
         else if name = [] then header_set ''Authorization'' (''Bearer '' @ key) hs1
         else header_set name key hs1)"

definition openai_client :: "BackendConfig \<Rightarrow> duration" where
  "openai_client cfg =
     (let timeout = dur_ms (b_timeout_ms cfg) in if timeout \<le> 0 then 1500 * 1000000 else timeout)"

section \<open>Chat completions\<close>

definition openai_payload :: "string \<Rightarrow> string \<Rightarrow> bool \<Rightarrow> json" where
  "openai_payload model text stream =
     VMap [(''model'', VStr model),
           (''messages'', VList [VMap [(''role'', VStr ''user''), (''content'', VStr text)]]),
           (''stream'', VBool stream)]"

definition openai_request :: "'x net \<Rightarrow> BackendConfig \<Rightarrow> string \<Rightarrow> string \<Rightarrow> bool \<Rightarrow> http_out" where
  "openai_request net cfg model text stream =
     \<lparr>ho_method = ''POST'', ho_url = chatCompletionsURL cfg,
      ho_headers = applyHeaders net cfg
        ((if stream then header_set ''Accept'' ''text/event-stream'' else id)
          (header_set ''Content-Type'' ''application/json'' [])),
      ho_body = Some (openai_payload model text stream)\<rparr>"

text \<open>
  Decoding into the structs: \<open>None\<close> for a value of another type, which makes \<open>encoding/json\<close> return
  an error; a missing field is its zero value.
\<close>

definition nested_string :: "string \<Rightarrow> string \<Rightarrow> goobj \<Rightarrow> string option" where
  "nested_string outer inner m =
     (case field_obj m outer of
        None \<Rightarrow> None
      | Some None \<Rightarrow> Some []
      | Some (Some d) \<Rightarrow> field_string d inner)"

definition openai_choice :: "json \<Rightarrow> (string \<times> string) option" where
  "openai_choice j =
     (case j of
        VNil \<Rightarrow> Some ([], [])
      | VMap m \<Rightarrow>
          (case (nested_string ''message'' ''content'' m, field_string m ''text'') of
             (Some c, Some t) \<Rightarrow> Some (c, t) | _ \<Rightarrow> None)
      | _ \<Rightarrow> None)"

definition openai_message :: "json \<Rightarrow> string option" where
  "openai_message j =
     (case j of VNil \<Rightarrow> Some [] | VMap m \<Rightarrow> nested_string ''message'' ''content'' m | _ \<Rightarrow> None)"

definition openai_delta :: "json \<Rightarrow> string option" where
  "openai_delta j =
     (case j of VNil \<Rightarrow> Some [] | VMap m \<Rightarrow> nested_string ''delta'' ''content'' m | _ \<Rightarrow> None)"

definition decode_list :: "string \<Rightarrow> (json \<Rightarrow> 'a option) \<Rightarrow> json \<Rightarrow> 'a list option" where
  "decode_list k el j =
     (case j of
        VNil \<Rightarrow> Some []
      | VMap m \<Rightarrow> (case field_list m k of None \<Rightarrow> None | Some xs \<Rightarrow> sequence_opt (map el xs))
      | _ \<Rightarrow> None)"

definition bad_json :: goerr where
  "bad_json = ErrUpstream KindBackendError ''json''"

definition decode_body :: "(json \<Rightarrow> 'a option) \<Rightarrow> http_in \<Rightarrow> goerr + 'a" where
  "decode_body dec r =
     (case hi_json r of
        Inl e \<Rightarrow> Inl (ErrUpstream KindBackendError (err_text e))
      | Inr j \<Rightarrow> (case dec j of None \<Rightarrow> Inl bad_json | Some a \<Rightarrow> Inr a))"

definition openai_nonstream ::
  "'x net \<Rightarrow> BackendConfig \<Rightarrow> duration \<Rightarrow> string \<Rightarrow> string \<Rightarrow> bool \<Rightarrow> 'x \<Rightarrow> (goerr + BackendResponse) \<times> 'x" where
  "openai_nonstream net cfg budget text model requested x =
     (let (t0, x1) = net_now net x
      in case send_chat net (openai_client cfg) budget ''openai-compatible invoke''
              (openai_request net cfg model text False) x1 of
           (Inl e, x2) \<Rightarrow> (Inl e, x2)
         | (Inr r, x2) \<Rightarrow>
             (case decode_body (decode_list ''choices'' openai_choice) r of
                Inl e \<Rightarrow> (Inl e, x2)
              | Inr choices \<Rightarrow>
                  (let output0 = (case choices of
                           [] \<Rightarrow> []
                         | (content, txt) # _ \<Rightarrow> if content \<noteq> [] then content else txt);
                       output = (if output0 = [] then ''[openai-compatible] empty response'' else output0);
                       (t1, x3) = net_now net x2
                   in (Inr \<lparr>br_output = Some (chat_output cfg output requested False),
                            br_timing = Some (flat_timing t0 t1)\<rparr>, x3))))"

text \<open>One event: \<open>None\<close> for the sentinel, the text of the first choice otherwise.\<close>

definition openai_event :: "'x net \<Rightarrow> string \<Rightarrow> string option" where
  "openai_event net data =
     (if data = ''[DONE]'' then None
      else Some (case Option.bind (net_unmarshal net data) (decode_list ''choices'' openai_delta) of
                   None \<Rightarrow> [] | Some [] \<Rightarrow> [] | Some (part # _) \<Rightarrow> part))"

definition openai_stream ::
  "'x net \<Rightarrow> BackendConfig \<Rightarrow> duration \<Rightarrow> string \<Rightarrow> string \<Rightarrow> 'x \<Rightarrow> (goerr + BackendResponse) \<times> 'x" where
  "openai_stream net cfg budget text model x =
     (let (t0, x1) = net_now net x
      in case send_chat net (openai_client cfg) budget ''openai-compatible stream''
              (openai_request net cfg model text True) x1 of
           (Inl e, x2) \<Rightarrow> (Inl e, x2)
         | (Inr r, x2) \<Rightarrow>
             if \<not> is_event_stream r then
               (case decode_body (decode_list ''choices'' openai_message) r of
                  Inl e \<Rightarrow> (Inl e, x2)
                | Inr choices \<Rightarrow>
                    (let out = (case choices of [] \<Rightarrow> [] | c # _ \<Rightarrow> c); (t1, x3) = net_now net x2
                     in (Inr \<lparr>br_output = Some (chat_output cfg out True True),
                              br_timing = Some (flat_timing t0 t1)\<rparr>, x3)))
             else read_stream net cfg (openai_event net) ''empty stream response''
                    ''[openai-compatible] empty stream'' t0 r x2)"

definition openai_invoke ::
  "'x net \<Rightarrow> BackendConfig \<Rightarrow> duration \<Rightarrow> AIRequest \<Rightarrow> 'x \<Rightarrow> (goerr + BackendResponse) \<times> 'x" where
  "openai_invoke net cfg budget req x =
     (let text = input_text req;
          model0 = trim_space (b_default_model cfg);
          model = (if model0 = [] then ''infercore-default'' else model0)
      in if opt_stream (options req) then openai_stream net cfg budget text model x
         else openai_nonstream net cfg budget text model False x)"

section \<open>Health\<close>

definition health_get :: "'x net \<Rightarrow> BackendConfig \<Rightarrow> string \<Rightarrow> http_out" where
  "health_get net cfg u =
     \<lparr>ho_method = ''GET'', ho_url = u, ho_headers = applyHeaders net cfg [], ho_body = None\<rparr>"

definition healthAzure :: "'x net \<Rightarrow> BackendConfig \<Rightarrow> duration \<Rightarrow> 'x \<Rightarrow> goerr option \<times> 'x" where
  "healthAzure net cfg budget x =
     (let p = trim_space (b_health_path cfg);
          path = rooted (if p = [] then ''/openai/models'' else p);
          u = trim_right_slash (b_endpoint cfg) @ path @ ''?api-version='' @ query_escape (apiVersion cfg)
      in send_health net (openai_client cfg) budget ''azure health check'' path (health_get net cfg u) x)"

definition openai_health :: "'x net \<Rightarrow> BackendConfig \<Rightarrow> duration \<Rightarrow> 'x \<Rightarrow> goerr option \<times> 'x" where
  "openai_health net cfg budget x =
     (if isAzure cfg then healthAzure net cfg budget x
      else (let p = trim_space (b_health_path cfg);
                path = rooted (if p = [] then ''/health'' else p)
            in send_health net (openai_client cfg) budget ''health check'' path
                 (health_get net cfg (joinURL (b_endpoint cfg) path)) x))"

end
