(* ===== verification/Anthropic.thy ===== *)
theory Anthropic
  imports Openai
begin

text \<open>
  The adapter for the Anthropic Messages API, \<open>internal/adapters/anthropic/anthropic.go\<close>.
\<close>

definition defaultEndpoint :: string where "defaultEndpoint = ''https://api.anthropic.com''"
definition anthropicAPIVersion :: string where "anthropicAPIVersion = ''2023-06-01''"
definition defaultMaxTokens :: int where "defaultMaxTokens = 4096"

definition anthropic_client :: "BackendConfig \<Rightarrow> duration" where
  "anthropic_client cfg =
     (let timeout = dur_ms (b_timeout_ms cfg) in if timeout \<le> 0 then 120 * second else timeout)"

definition anthropic_base :: "BackendConfig \<Rightarrow> string" where
  "anthropic_base cfg =
     (let base = trim_space (b_endpoint cfg)
      in trim_right_slash (if base = [] then defaultEndpoint else base))"

definition anthropic_maxTokens :: "AIRequest \<Rightarrow> int" where
  "anthropic_maxTokens req =
     (if 0 < opt_max_tokens (options req) then opt_max_tokens (options req) else defaultMaxTokens)"

definition anthropic_payload :: "string \<Rightarrow> string \<Rightarrow> int \<Rightarrow> bool \<Rightarrow> json" where
  "anthropic_payload model text maxTok stream =
     VMap ([(''model'', VStr model), (''max_tokens'', VInt maxTok)]
       @ (if stream then [(''stream'', VBool True)] else [])
       @ [(''messages'', VList [VMap [(''role'', VStr ''user''), (''content'', VStr text)]])])"

definition anthropic_request :: "'x net \<Rightarrow> BackendConfig \<Rightarrow> string \<Rightarrow> string \<Rightarrow> int \<Rightarrow> bool \<Rightarrow> http_out" where
  "anthropic_request net cfg model text maxTok stream =
     \<lparr>ho_method = ''POST'', ho_url = anthropic_base cfg @ ''/v1/messages'',
      ho_headers = applyExtraHeaders net cfg
        (header_set ''x-api-key'' (trim_space (b_api_key cfg))
          (header_set ''anthropic-version'' anthropicAPIVersion
            ((if stream then header_set ''Accept'' ''text/event-stream'' else id)
              (header_set ''Content-Type'' ''application/json'' [])))),
      ho_body = Some (anthropic_payload model text maxTok stream)\<rparr>"

text \<open>A content block: its type and text.\<close>

definition anthropic_block :: "json \<Rightarrow> (string \<times> string) option" where
  "anthropic_block j =
     (case j of
        VNil \<Rightarrow> Some ([], [])
      | VMap m \<Rightarrow>
          (case (field_string m ''type'', field_string m ''text'') of
             (Some ty, Some t) \<Rightarrow> Some (ty, t) | _ \<Rightarrow> None)
      | _ \<Rightarrow> None)"

definition anthropic_nonstream ::
  "'x net \<Rightarrow> BackendConfig \<Rightarrow> duration \<Rightarrow> string \<Rightarrow> string \<Rightarrow> int \<Rightarrow> 'x \<Rightarrow> (goerr + BackendResponse) \<times> 'x" where
  "anthropic_nonstream net cfg budget text model maxTok x =
     (let (t0, x1) = net_now net x
      in case send_chat net (anthropic_client cfg) budget ''anthropic messages''
              (anthropic_request net cfg model text maxTok False) x1 of
           (Inl e, x2) \<Rightarrow> (Inl e, x2)
         | (Inr r, x2) \<Rightarrow>
             (case decode_body (decode_list ''content'' anthropic_block) r of
                Inl e \<Rightarrow> (Inl e, x2)
              | Inr blocks \<Rightarrow>
                  (let out0 = concat (map snd (filter (\<lambda>(ty, _). ty = ''text'') blocks));
                       out = (if out0 = [] then ''[anthropic] empty response'' else out0);
                       (t1, x3) = net_now net x2
                   in (Inr \<lparr>br_output = Some [(''text'', VStr out), (''backend'', VStr (b_name cfg))],
                            br_timing = Some (flat_timing t0 t1)\<rparr>, x3))))"

text \<open>An event: its type, and the type and text of its delta.\<close>

definition anthropic_delta :: "json \<Rightarrow> (string \<times> string \<times> string) option" where
  "anthropic_delta j =
     (case j of
        VNil \<Rightarrow> Some ([], [], [])
      | VMap m \<Rightarrow>
          (case (field_string m ''type'', nested_string ''delta'' ''type'' m, nested_string ''delta'' ''text'' m) of
             (Some ty, Some dt, Some t) \<Rightarrow> Some (ty, dt, t) | _ \<Rightarrow> None)
      | _ \<Rightarrow> None)"

definition anthropic_event :: "'x net \<Rightarrow> string \<Rightarrow> string option" where
  "anthropic_event net data =
     Some (case Option.bind (net_unmarshal net data) anthropic_delta of
             None \<Rightarrow> []
           | Some (ty, dt, t) \<Rightarrow> if ty = ''content_block_delta'' \<and> dt = ''text_delta'' then t else [])"

definition anthropic_stream ::
  "'x net \<Rightarrow> BackendConfig \<Rightarrow> duration \<Rightarrow> string \<Rightarrow> string \<Rightarrow> int \<Rightarrow> 'x \<Rightarrow> (goerr + BackendResponse) \<times> 'x" where
  "anthropic_stream net cfg budget text model maxTok x =
     (let (t0, x1) = net_now net x
      in case send_chat net (anthropic_client cfg) budget ''anthropic stream''
              (anthropic_request net cfg model text maxTok True) x1 of
           (Inl e, x2) \<Rightarrow> (Inl e, x2)
         | (Inr r, x2) \<Rightarrow> read_stream net cfg (anthropic_event net) ''empty anthropic stream''
                            ''[anthropic] empty stream'' t0 r x2)"

definition anthropic_invoke ::
  "'x net \<Rightarrow> BackendConfig \<Rightarrow> duration \<Rightarrow> AIRequest \<Rightarrow> 'x \<Rightarrow> (goerr + BackendResponse) \<times> 'x" where
  "anthropic_invoke net cfg budget req x =
     (let text = input_text req; model = trim_space (b_default_model cfg)
      in if model = [] then (Inl (ErrUpstream KindBackendError ''anthropic backend requires default_model''), x)
         else if trim_space (b_api_key cfg) = []
           then (Inl (ErrUpstream KindBackendError ''anthropic backend requires api_key''), x)
         else if opt_stream (options req)
           then anthropic_stream net cfg budget text model (anthropic_maxTokens req) x
         else anthropic_nonstream net cfg budget text model (anthropic_maxTokens req) x)"

definition anthropic_health :: "'x net \<Rightarrow> BackendConfig \<Rightarrow> duration \<Rightarrow> 'x \<Rightarrow> goerr option \<times> 'x" where
  "anthropic_health net cfg budget x =
     (let p = trim_space (b_health_path cfg);
          path = rooted (if p = [] then ''/v1/models'' else p)
      in send_health net (anthropic_client cfg) budget ''anthropic health'' path
           \<lparr>ho_method = ''GET'', ho_url = anthropic_base cfg @ path,
            ho_headers = applyExtraHeaders net cfg
              (header_set ''anthropic-version'' anthropicAPIVersion
                (header_set ''x-api-key'' (trim_space (b_api_key cfg)) [])),
            ho_body = None\<rparr> x)"

end
