(* ===== verification/Gemini.thy ===== *)
theory Gemini
  imports Openai
begin

text \<open>
  The adapter for the Gemini API and its Vertex AI variant, \<open>internal/adapters/gemini/gemini.go\<close>.
\<close>

definition defaultGeminiEndpoint :: string where
  "defaultGeminiEndpoint = ''https://generativelanguage.googleapis.com''"

text \<open>A candidate is the list of the texts of its parts.\<close>

type_synonym gemCandidate = "string list"

definition gem_part :: "json \<Rightarrow> string option" where
  "gem_part j = (case j of VNil \<Rightarrow> Some [] | VMap m \<Rightarrow> field_string m ''text'' | _ \<Rightarrow> None)"

definition gem_candidate :: "json \<Rightarrow> gemCandidate option" where
  "gem_candidate j =
     (case j of
        VNil \<Rightarrow> Some []
      | VMap m \<Rightarrow>
          (case field_obj m ''content'' of
             None \<Rightarrow> None
           | Some None \<Rightarrow> Some []
           | Some (Some c) \<Rightarrow>
               (case field_list c ''parts'' of None \<Rightarrow> None | Some ps \<Rightarrow> sequence_opt (map gem_part ps)))
      | _ \<Rightarrow> None)"

definition geminiGenerateResponse :: "json \<Rightarrow> gemCandidate list option" where
  "geminiGenerateResponse = decode_list ''candidates'' gem_candidate"

definition geminiCandidatesText :: "gemCandidate list \<Rightarrow> string" where
  "geminiCandidatesText candidates = (case candidates of [] \<Rightarrow> [] | parts # _ \<Rightarrow> concat parts)"

definition vertex :: "BackendConfig \<Rightarrow> bool" where
  "vertex cfg \<longleftrightarrow> b_type cfg = ''gemini_vertex''"

definition gemini_client :: "BackendConfig \<Rightarrow> duration" where
  "gemini_client cfg =
     (let timeout = dur_ms (b_timeout_ms cfg) in if timeout \<le> 0 then 60 * second else timeout)"

definition gemini_base :: "BackendConfig \<Rightarrow> string" where
  "gemini_base cfg =
     (let base = trim_space (b_endpoint cfg); loc = trim_space (b_vertex_location cfg)
      in trim_right_slash
           (if base \<noteq> [] then base
            else if vertex cfg then ''https://'' @ (if loc = [] then ''us-central1'' else loc) @ ''-aiplatform.googleapis.com''
            else defaultGeminiEndpoint))"

definition gemini_modelID :: "BackendConfig \<Rightarrow> string" where
  "gemini_modelID cfg = trim_space (trim_prefix ''models/'' (trim_space (b_default_model cfg)))"

definition gemini_apiKey :: "BackendConfig \<Rightarrow> string" where
  "gemini_apiKey cfg = trim_space (b_api_key cfg)"

definition actionPath :: "BackendConfig \<Rightarrow> string \<Rightarrow> string \<Rightarrow> string" where
  "actionPath cfg model0 action =
     (let model = trim_space (trim_prefix ''models/'' model0)
      in if vertex cfg
         then ''/v1/projects/'' @ trim_space (b_vertex_project cfg) @ ''/locations/''
              @ trim_space (b_vertex_location cfg) @ ''/publishers/google/models/'' @ model @ '':'' @ action
         else ''/v1beta/models/'' @ model @ '':'' @ action)"

definition applyAPIKey :: "BackendConfig \<Rightarrow> (string \<times> string) list \<Rightarrow> (string \<times> string) list" where
  "applyAPIKey cfg hs =
     (let k = gemini_apiKey cfg
      in if k = [] then hs
         else if vertex cfg then header_set ''Authorization'' (''Bearer '' @ k) hs
         else header_set ''x-goog-api-key'' k hs)"

definition gemini_payload :: "string \<Rightarrow> json" where
  "gemini_payload text =
     VMap [(''contents'', VList [VMap [(''role'', VStr ''user''),
             (''parts'', VList [VMap [(''text'', VStr text)]])]])]"

definition gemini_request :: "'x net \<Rightarrow> BackendConfig \<Rightarrow> string \<Rightarrow> string \<Rightarrow> bool \<Rightarrow> http_out" where
  "gemini_request net cfg model text stream =
     \<lparr>ho_method = ''POST'',
      ho_url = gemini_base cfg @ actionPath cfg model (if stream then ''streamGenerateContent'' else ''generateContent'')
        @ (if stream then ''?alt=sse'' else []),
      ho_headers = applyExtraHeaders net cfg
        (applyAPIKey cfg (header_set ''Content-Type'' ''application/json'' [])),
      ho_body = Some (gemini_payload text)\<rparr>"

definition gemini_nonstream ::
  "'x net \<Rightarrow> BackendConfig \<Rightarrow> duration \<Rightarrow> string \<Rightarrow> string \<Rightarrow> 'x \<Rightarrow> (goerr + BackendResponse) \<times> 'x" where
  "gemini_nonstream net cfg budget text model x =
     (let (t0, x1) = net_now net x
      in case send_chat net (gemini_client cfg) budget ''gemini generateContent''
              (gemini_request net cfg model text False) x1 of
           (Inl e, x2) \<Rightarrow> (Inl e, x2)
         | (Inr r, x2) \<Rightarrow>
             (case decode_body geminiGenerateResponse r of
                Inl e \<Rightarrow> (Inl e, x2)
              | Inr cands \<Rightarrow>
                  (let out0 = geminiCandidatesText cands;
                       out = (if out0 = [] then ''[gemini] empty response'' else out0);
                       (t1, x3) = net_now net x2
                   in (Inr \<lparr>br_output = Some (chat_output cfg out False False),
                            br_timing = Some (flat_timing t0 t1)\<rparr>, x3))))"

definition gemini_event :: "'x net \<Rightarrow> string \<Rightarrow> string option" where
  "gemini_event net data =
     Some (case Option.bind (net_unmarshal net data) geminiGenerateResponse of
             None \<Rightarrow> [] | Some cands \<Rightarrow> geminiCandidatesText cands)"

definition gemini_stream ::
  "'x net \<Rightarrow> BackendConfig \<Rightarrow> duration \<Rightarrow> string \<Rightarrow> string \<Rightarrow> 'x \<Rightarrow> (goerr + BackendResponse) \<times> 'x" where
  "gemini_stream net cfg budget text model x =
     (let (t0, x1) = net_now net x
      in case send_chat net (gemini_client cfg) budget ''gemini stream''
              (gemini_request net cfg model text True) x1 of
           (Inl e, x2) \<Rightarrow> (Inl e, x2)
         | (Inr r, x2) \<Rightarrow>
             if \<not> is_event_stream r then
               (case decode_body geminiGenerateResponse r of
                  Inl e \<Rightarrow> (Inl e, x2)
                | Inr cands \<Rightarrow>
                    (let out = geminiCandidatesText cands; (t1, x3) = net_now net x2
                     in (Inr \<lparr>br_output = Some (chat_output cfg out True True),
                              br_timing = Some (flat_timing t0 t1)\<rparr>, x3)))
             else read_stream net cfg (gemini_event net) ''empty gemini stream'' ''[gemini] empty stream'' t0 r x2)"

definition gemini_invoke ::
  "'x net \<Rightarrow> BackendConfig \<Rightarrow> duration \<Rightarrow> AIRequest \<Rightarrow> 'x \<Rightarrow> (goerr + BackendResponse) \<times> 'x" where
  "gemini_invoke net cfg budget req x =
     (let text = input_text req; model = gemini_modelID cfg
      in if model = [] then (Inl (ErrUpstream KindBackendError ''gemini backend requires default_model''), x)
         else if gemini_apiKey cfg = []
           then (Inl (ErrUpstream KindBackendError ''gemini backend requires api_key''), x)
         else if opt_stream (options req) then gemini_stream net cfg budget text model x
         else gemini_nonstream net cfg budget text model x)"

definition gemini_health :: "'x net \<Rightarrow> BackendConfig \<Rightarrow> duration \<Rightarrow> 'x \<Rightarrow> goerr option \<times> 'x" where
  "gemini_health net cfg budget x =
     (let p = trim_space (b_health_path cfg);
          path = rooted (if p \<noteq> [] then p
            else if vertex cfg then ''/v1/projects/'' @ trim_space (b_vertex_project cfg)
              @ ''/locations/'' @ trim_space (b_vertex_location cfg)
            else ''/v1beta/models'')
      in send_health net (gemini_client cfg) budget ''gemini health'' path
           \<lparr>ho_method = ''GET'', ho_url = gemini_base cfg @ path,
            ho_headers = applyExtraHeaders net cfg (applyAPIKey cfg []), ho_body = None\<rparr> x)"

end
