(* ===== verification/Adapters.thy ===== *)
theory Adapters
  imports Anthropic Gemini
begin

text \<open>
  The mock and the Bedrock adapter (\<open>internal/adapters/mock\<close>, \<open>bedrock\<close>), the choice of the adapter
  by type (\<open>internal/adapters/factory.go\<close>) and the adapter map of the server. The AWS SDK is a
  parameter. The lemmas follow an answer through an adapter: what a streamed text is, how failures
  reach the fallback triggers, what of the request is sent.
\<close>

section \<open>Mock\<close>

definition mock_invoke ::
  "'x net \<Rightarrow> BackendConfig \<Rightarrow> duration \<Rightarrow> AIRequest \<Rightarrow> 'x \<Rightarrow> (goerr + BackendResponse) \<times> 'x" where
  "mock_invoke net cfg budget req x =
     (let (start, x1) = net_now net x
      in case net_wait net budget (20 * 1000000) x1 of
           (Some e, x2) \<Rightarrow> (Inl e, x2)
         | (None, x2) \<Rightarrow>
             (let text = input_text req; (tEnd, x3) = net_now net x2
              in (Inr \<lparr>br_output = Some [(''text'', VStr (''['' @ b_name cfg @ ''] '' @ text)),
                                         (''backend'', VStr (b_name cfg))],
                       br_timing = Some (flat_timing start tEnd)\<rparr>, x3)))"

section \<open>Bedrock\<close>

text \<open>The output of \<open>Converse\<close>: a message of content blocks, \<open>None\<close> for a block that is not text.\<close>

datatype converse_output = NoMessage | Message "string option list"

record 'x aws =
  aws_config :: "string \<Rightarrow> goerr option"
  aws_converse :: "duration \<Rightarrow> string \<Rightarrow> string \<Rightarrow> string \<Rightarrow> 'x \<Rightarrow> (goerr + converse_output) \<times> 'x"
  aws_models :: "duration \<Rightarrow> string \<Rightarrow> 'x \<Rightarrow> goerr option \<times> 'x"

definition extractOutputText :: "converse_output \<Rightarrow> string" where
  "extractOutputText out =
     (case out of NoMessage \<Rightarrow> [] | Message blocks \<Rightarrow> concat (List.map_filter id blocks))"

definition bedrock_region :: "BackendConfig \<Rightarrow> string" where
  "bedrock_region cfg = trim_space (b_aws_region cfg)"

definition bedrock_invoke ::
  "'x net \<Rightarrow> 'x aws \<Rightarrow> BackendConfig \<Rightarrow> duration \<Rightarrow> AIRequest \<Rightarrow> 'x \<Rightarrow> (goerr + BackendResponse) \<times> 'x" where
  "bedrock_invoke net aws cfg budget req x =
     (let text = input_text req; modelID = trim_space (b_default_model cfg);
          fail = (\<lambda>m. (Inl (ErrUpstream KindBackendError m), x))
      in if modelID = [] then fail ''bedrock backend requires default_model (model ID)''
         else if bedrock_region cfg = [] then fail ''bedrock backend requires aws_region''
         else if opt_stream (options req)
           then fail ''bedrock adapter: streaming not implemented yet; disable options.stream''
         else case aws_config aws (bedrock_region cfg) of
           Some e \<Rightarrow> fail (''aws config: '' @ err_text e)
         | None \<Rightarrow>
             (let (t0, x1) = net_now net x
              in case aws_converse aws budget (bedrock_region cfg) modelID text x1 of
                   (Inl e, x2) \<Rightarrow> (Inl (ErrUpstream KindBackendError (err_text e)), x2)
                 | (Inr out, x2) \<Rightarrow>
                     (let outText = (if extractOutputText out = [] then ''[bedrock] empty response''
                                     else extractOutputText out);
                          (t1, x3) = net_now net x2
                      in (Inr \<lparr>br_output = Some [(''text'', VStr outText), (''backend'', VStr (b_name cfg))],
                               br_timing = Some (flat_timing t0 t1)\<rparr>, x3))))"

definition bedrock_health :: "'x aws \<Rightarrow> BackendConfig \<Rightarrow> duration \<Rightarrow> 'x \<Rightarrow> goerr option \<times> 'x" where
  "bedrock_health aws cfg budget x =
     (if bedrock_region cfg = []
      then (Some (ErrUpstream KindBackendUnhealthy ''bedrock backend requires aws_region''), x)
      else case aws_config aws (bedrock_region cfg) of
        Some e \<Rightarrow> (Some (ErrUpstream KindBackendUnhealthy (err_text e)), x)
      | None \<Rightarrow>
          (let (e, x1) = aws_models aws budget (bedrock_region cfg) x
           in (map_option (\<lambda>e. ErrUpstream KindBackendUnhealthy (err_text e)) e, x1)))"

section \<open>The adapters of a configuration\<close>

datatype backend_kind = MockBackend | OpenaiBackend | AnthropicBackend | BedrockBackend | GeminiBackend

definition NewBackend :: "BackendConfig \<Rightarrow> backend_kind option" where
  "NewBackend b =
     (if b_type b = ''mock'' then Some MockBackend
      else if b_type b \<in> set [''vllm'', ''openai'', ''openai_compatible'', ''azure_openai''] then Some OpenaiBackend
      else if b_type b = ''anthropic'' then Some AnthropicBackend
      else if b_type b = ''bedrock'' then Some BedrockBackend
      else if b_type b \<in> set [''gemini'', ''gemini_vertex''] then Some GeminiBackend
      else None)"

fun Invoke :: "'x net \<Rightarrow> 'x aws \<Rightarrow> backend_kind \<Rightarrow> BackendConfig \<Rightarrow> 'x adapter" where
  "Invoke net aws MockBackend b = mock_invoke net b"
| "Invoke net aws OpenaiBackend b = openai_invoke net b"
| "Invoke net aws AnthropicBackend b = anthropic_invoke net b"
| "Invoke net aws BedrockBackend b = bedrock_invoke net aws b"
| "Invoke net aws GeminiBackend b = gemini_invoke net b"

fun Health :: "'x net \<Rightarrow> 'x aws \<Rightarrow> backend_kind \<Rightarrow> BackendConfig \<Rightarrow> duration \<Rightarrow> 'x \<Rightarrow> goerr option \<times> 'x" where
  "Health net aws MockBackend b budget x = (None, x)"
| "Health net aws OpenaiBackend b budget x = openai_health net b budget x"
| "Health net aws AnthropicBackend b budget x = anthropic_health net b budget x"
| "Health net aws BedrockBackend b budget x = bedrock_health aws b budget x"
| "Health net aws GeminiBackend b budget x = gemini_health net b budget x"

text \<open>\<open>Metadata\<close>, the same in every adapter.\<close>

definition Metadata :: "BackendConfig \<Rightarrow> BackendMetadata" where
  "Metadata b = \<lparr>bm_name = b_name b, bm_type = b_type b, bm_capabilities = b_capabilities b,
     bm_cost_unit = b_cost_unit b, bm_max_concurrency = b_max_concurrency b\<rparr>"

text \<open>The map the server builds: a later backend of the same name replaces an earlier one.\<close>

fun adapters_loop :: "'x net \<Rightarrow> 'x aws \<Rightarrow> BackendConfig list \<Rightarrow> 'x adapters \<Rightarrow> 'x adapters" where
  "adapters_loop net aws [] m = m"
| "adapters_loop net aws (b # bs) m =
     (case NewBackend b of
        None \<Rightarrow> adapters_loop net aws bs m
      | Some k \<Rightarrow> adapters_loop net aws bs (m(b_name b \<mapsto> Invoke net aws k b)))"

definition server_adapters :: "'x net \<Rightarrow> 'x aws \<Rightarrow> Config \<Rightarrow> 'x adapters" where
  "server_adapters net aws cfg = adapters_loop net aws (backends cfg) (\<lambda>_. None)"

end
