(* ===== verification/Adapter_Laws.thy ===== *)
theory Adapter_Laws
  imports Adapters
begin

text \<open>
  What the adapters guarantee to the execution: the contract every one of them keeps, stated as a
  locale and interpreted on all five, the text of a streamed answer, its timings, and how a failure
  of the upstream reaches the fallback triggers.
\<close>

section \<open>The contract of an adapter\<close>

text \<open>
  Of the request an adapter uses the text of the input and the options only, and a successful
  answer carries a text, the name of the backend and a timing. An empty text comes only with
  \<open>stream_degraded\<close>.
\<close>

definition good_answer :: "BackendConfig \<Rightarrow> BackendResponse \<Rightarrow> bool" where
  "good_answer cfg r \<longleftrightarrow>
     (\<exists>t. obj_get (br_output r) ''text'' = VStr t
        \<and> (t = [] \<longrightarrow> obj_get (br_output r) ''stream_degraded'' = VBool True))
     \<and> obj_get (br_output r) ''backend'' = VStr (b_name cfg) \<and> br_timing r \<noteq> None"

locale adapter_contract =
  fixes invoke :: "'x net \<Rightarrow> 'x aws \<Rightarrow> BackendConfig \<Rightarrow> 'x adapter"
  assumes text_only:
      "input_text req = input_text req' \<Longrightarrow> options req = options req'
         \<Longrightarrow> invoke net aws cfg budget req x = invoke net aws cfg budget req' x"
    and answers: "invoke net aws cfg budget req x = (Inr r, x') \<Longrightarrow> good_answer cfg r"
begin

lemma merge_is_lost:
  "invoke net aws cfg budget (MergeRetrievalIntoInput req chunks) x = invoke net aws cfg budget req x"
proof (rule text_only)
  have "obj_get (req_input (MergeRetrievalIntoInput req chunks)) ''text'' = obj_get (req_input req) ''text''"
    using merge_retrieval[of req chunks] by simp
  then show "input_text (MergeRetrievalIntoInput req chunks) = input_text req"
    by (simp add: input_text_def)
qed (simp add: MergeRetrievalIntoInput_def Let_def)

end

lemma good_chat:
  "(t = [] \<Longrightarrow> degraded) \<Longrightarrow> good_answer cfg \<lparr>br_output = Some (chat_output cfg t q degraded), br_timing = Some tm\<rparr>"
  by (simp add: good_answer_def chat_output_def obj_get_def)

lemma good_plain:
  "t \<noteq> [] \<Longrightarrow> good_answer cfg \<lparr>br_output = Some [(''text'', VStr t), (''backend'', VStr (b_name cfg))],
     br_timing = Some tm\<rparr>"
  by (simp add: good_answer_def obj_get_def)

lemma read_stream_good:
  assumes "read_stream net cfg event none dflt t0 r x = (Inr a, x')" "dflt \<noteq> []"
  shows "good_answer cfg a"
  using assms
  by (auto simp: read_stream_def Let_def case_prod_beta intro!: good_chat
      split: option.splits if_splits)

lemmas answer_splits = option.splits sum.splits prod.splits if_splits

interpretation mock: adapter_contract "\<lambda>net aws. mock_invoke net"
  by unfold_locales
    (auto simp: mock_invoke_def Let_def intro!: good_plain split: answer_splits)

interpretation openai: adapter_contract "\<lambda>net aws. openai_invoke net"
  by unfold_locales
    (auto simp: openai_invoke_def openai_stream_def openai_nonstream_def Let_def
      intro!: good_chat dest!: read_stream_good split: answer_splits)

interpretation anthropic: adapter_contract "\<lambda>net aws. anthropic_invoke net"
  by unfold_locales
    (auto simp: anthropic_invoke_def anthropic_stream_def anthropic_nonstream_def Let_def
      anthropic_maxTokens_def intro!: good_plain dest!: read_stream_good split: answer_splits)

interpretation gemini: adapter_contract "\<lambda>net aws. gemini_invoke net"
  by unfold_locales
    (auto simp: gemini_invoke_def gemini_stream_def gemini_nonstream_def Let_def
      intro!: good_chat dest!: read_stream_good split: answer_splits)

interpretation bedrock: adapter_contract bedrock_invoke
  by unfold_locales
    (auto simp: bedrock_invoke_def Let_def intro!: good_plain split: answer_splits)

interpretation any_adapter: adapter_contract "\<lambda>net aws. Invoke net aws k" for k
proof (unfold_locales, goal_cases)
  case (1 req req' net aws cfg budget x)
  then show ?case
    by (cases k) (simp_all add: mock.text_only[of req req'] openai.text_only[of req req']
        anthropic.text_only[of req req'] gemini.text_only[of req req'] bedrock.text_only[of req req'])
next
  case (2 net aws cfg budget req x r x')
  then show ?case
    by (cases k) (auto dest: mock.answers openai.answers anthropic.answers gemini.answers bedrock.answers)
qed

text \<open>
  No adapter sends anything of the retrieved context: with the chunks merged into the input the
  call does exactly what it does without them.
\<close>

lemma adapters_ignore_retrieval:
  "Invoke net aws k cfg budget (MergeRetrievalIntoInput req chunks) x = Invoke net aws k cfg budget req x"
  by (rule any_adapter.merge_is_lost)

text \<open>
  C27. Every successful answer of every adapter has a text, names its backend and is timed; only an
  answer marked \<open>stream_degraded\<close> can have an empty text.
\<close>

theorem answers_are_complete:
  assumes "Invoke net aws k cfg budget req x = (Inr r, x')"
  shows "obj_get (br_output r) ''backend'' = VStr (b_name cfg)
    \<and> (\<exists>t. obj_get (br_output r) ''text'' = VStr t
         \<and> (t = [] \<longrightarrow> obj_get (br_output r) ''stream_degraded'' = VBool True))
    \<and> (\<exists>tm. br_timing r = Some tm)"
  using any_adapter.answers[OF assms] by (auto simp: good_answer_def)

section \<open>The text of a stream\<close>

text \<open>The events of a stream before the sentinel, and their texts.\<close>

definition stream_events :: "(string \<Rightarrow> string option) \<Rightarrow> string list \<Rightarrow> string list" where
  "stream_events event lines =
     takeWhile (\<lambda>d. event d \<noteq> None) (filter (\<lambda>d. d \<noteq> []) (map event_data lines))"

definition stream_text :: "(string \<Rightarrow> string option) \<Rightarrow> string list \<Rightarrow> string" where
  "stream_text event lines = concat (List.map_filter event (stream_events event lines))"

definition stream_ended :: "(string \<Rightarrow> string option) \<Rightarrow> string list \<Rightarrow> bool" where
  "stream_ended event lines \<longleftrightarrow> (\<exists>l \<in> set lines. event_data l \<noteq> [] \<and> event (event_data l) = None)"

lemma stream_events_Nil [simp]: "stream_events event [] = []"
  by (simp add: stream_events_def)

lemma stream_events_Cons [simp]:
  "stream_events event (l # ls) =
     (if event_data l = [] then stream_events event ls
      else if event (event_data l) = None then []
      else event_data l # stream_events event ls)"
  by (simp add: stream_events_def)

lemma stream_text_Nil [simp]: "stream_text event [] = []"
  by (simp add: stream_text_def List.map_filter_simps)

lemma stream_text_Cons [simp]:
  "stream_text event (l # ls) =
     (if event_data l = [] then stream_text event ls
      else case event (event_data l) of None \<Rightarrow> [] | Some p \<Rightarrow> p @ stream_text event ls)"
  by (auto simp: stream_text_def List.map_filter_simps split: option.splits)

lemma stream_ended_Nil [simp]: "\<not> stream_ended event []"
  by (simp add: stream_ended_def)

lemma stream_ended_Cons [simp]:
  "stream_ended event (l # ls) \<longleftrightarrow>
     event_data l \<noteq> [] \<and> event (event_data l) = None \<or> stream_ended event ls"
  by (auto simp: stream_ended_def)

text \<open>The loop of the adapters computes these, and reads the clock for the first text only.\<close>

lemma sse_loop_text:
  "se_text (fst (sse_loop event now lines s x)) = se_text s @ stream_text event lines"
  "se_data (fst (sse_loop event now lines s x)) \<longleftrightarrow> se_data s \<or> stream_events event lines \<noteq> []"
  "\<not> se_done s \<Longrightarrow> se_done (fst (sse_loop event now lines s x)) \<longleftrightarrow> stream_ended event lines"
  by (induction event now lines s x rule: sse_loop.induct)
    (auto simp: Let_def case_prod_beta split: option.splits)

lemma sse_loop_started:
  "se_first s = Some f \<Longrightarrow> se_first (fst (sse_loop event now lines s x)) = Some f
     \<and> snd (sse_loop event now lines s x) = x"
  by (induction lines arbitrary: s) (auto simp: Let_def split: option.splits)

lemma sse_loop_clock:
  assumes "se_first s = None"
  shows "if stream_text event lines = []
    then se_first (fst (sse_loop event now lines s x)) = None \<and> snd (sse_loop event now lines s x) = x
    else se_first (fst (sse_loop event now lines s x)) = Some (fst (now x))
         \<and> snd (sse_loop event now lines s x) = snd (now x)"
  using assms
proof (induction lines arbitrary: s)
  case (Cons l lines)
  have IH: "se_first s' = None \<Longrightarrow> if stream_text event lines = []
    then se_first (fst (sse_loop event now lines s' x)) = None \<and> snd (sse_loop event now lines s' x) = x
    else se_first (fst (sse_loop event now lines s' x)) = Some (fst (now x))
         \<and> snd (sse_loop event now lines s' x) = snd (now x)" for s' by (rule Cons.IH)
  show ?case
  proof (cases "event_data l = [] \<or> event (event_data l) \<in> {None, Some []}")
    case True
    then show ?thesis using IH[of s] IH[of "s\<lparr>se_data := True\<rparr>"] Cons.prems
      by (auto simp: Let_def)
  next
    case False
    then obtain p where "event (event_data l) = Some p" "p \<noteq> []" "event_data l \<noteq> []" by auto
    with Cons.prems show ?thesis by (simp add: Let_def case_prod_beta sse_loop_started)
  qed
qed simp

section \<open>Lines on the wire\<close>

definition lf_lines :: "string list \<Rightarrow> string" where
  "lf_lines ls = concat (map (\<lambda>l. l @ [CHR 0x0A]) ls)"

definition short_line :: "nat \<Rightarrow> string \<Rightarrow> bool" where
  "short_line limit l \<longleftrightarrow> CHR 0x0A \<notin> set l \<and> length l < limit"

lemma take_line: "CHR 0x0A \<notin> set l \<Longrightarrow> takeWhile (\<lambda>c. c \<noteq> CHR 0x0A) (l @ CHR 0x0A # s) = l"
  "CHR 0x0A \<notin> set l \<Longrightarrow> dropWhile (\<lambda>c. c \<noteq> CHR 0x0A) (l @ CHR 0x0A # s) = CHR 0x0A # s"
  by (induction l) auto

text \<open>The scanner gives back lines that were written with a line feed each.\<close>

lemma scan_lf_lines:
  assumes "list_all (short_line limit) ls" "0 < limit"
  shows "scan_lines limit (lf_lines ls) err = (map drop_cr ls, err)"
  using assms(1)
proof (induction ls)
  case Nil
  then show ?case using assms(2) by (subst scan_lines.simps) (simp add: lf_lines_def)
next
  case (Cons l ls)
  have eq: "lf_lines (l # ls) = l @ CHR 0x0A # lf_lines ls" by (simp add: lf_lines_def)
  from Cons show ?case unfolding eq
    by (subst scan_lines.simps) (auto simp: take_line short_line_def Let_def)
qed

text \<open>An event is a \<open>data:\<close> line and a blank line.\<close>

definition event_lines :: "string list \<Rightarrow> string list" where
  "event_lines ps = concat (map (\<lambda>p. [''data: '' @ p, []]) ps)"

lemma trim_space_after_blank: "trim_space (CHR '' '' # p) = trim_space p"
proof -
  have "head_len ascii_spaces wide_spaces (CHR '' '' # p) = 1"
    by (simp add: head_len_def ascii_spaces_def)
  then have "trim_left (CHR '' '' # p) = trim_left p"
    by (simp add: trim_left_def strip_heads.simps[of _ _ "CHR '' '' # p"])
  then show ?thesis by (simp add: trim_space_def)
qed

lemma trimmed_last:
  assumes "trim_space p = p" "p \<noteq> []"
  shows "last p \<noteq> CHR 0x0D"
proof
  assume "last p = CHR 0x0D"
  then obtain q where "rev p = CHR 0x0D # q" using assms(2) by (metis append_butlast_last_id rev.simps(2) rev_rev_ident rev_swap)
  moreover have "head_len ascii_spaces (map rev wide_spaces) (rev p) = 0"
    using assms(1) by (simp add: trim_space_fixed)
  ultimately show False by (simp add: head_len_def ascii_spaces_def)
qed

lemma event_data_line:
  assumes "trim_space p = p" "p \<noteq> []"
  shows "event_data (drop_cr (''data: '' @ p)) = p"
  using assms trimmed_last[OF assms] trim_space_after_blank[of p]
  by (simp add: drop_cr_def event_data_def starts_with_def trim_prefix_def)

text \<open>A payload that can be sent as one event.\<close>

definition sendable :: "string \<Rightarrow> bool" where
  "sendable p \<longleftrightarrow> p \<noteq> [] \<and> trim_space p = p \<and> CHR 0x0A \<notin> set p \<and> length p + 6 < scan_limit"

definition event_stream :: "string list \<Rightarrow> string" where
  "event_stream ps = lf_lines (event_lines ps)"

lemma event_stream_events:
  assumes "list_all sendable ps"
  shows "\<exists>ls. scan_lines scan_limit (event_stream ps) err = (ls, err)
     \<and> filter (\<lambda>d. d \<noteq> []) (map event_data ls) = ps"
proof -
  have "list_all (short_line scan_limit) (event_lines ps)"
    using assms by (induction ps) (auto simp: event_lines_def short_line_def sendable_def scan_limit_def)
  then have "scan_lines scan_limit (event_stream ps) err = (map drop_cr (event_lines ps), err)"
    by (simp add: event_stream_def scan_lf_lines scan_limit_def)
  moreover have "filter (\<lambda>d. d \<noteq> []) (map event_data (map drop_cr (event_lines ps))) = ps"
    using assms
  proof (induction ps)
    case (Cons p ps)
    then have "event_data (drop_cr (''data: '' @ p)) = p" "p \<noteq> []"
      using event_data_line[of p] by (auto simp: sendable_def)
    with Cons show ?case by (simp add: event_lines_def event_data_def drop_cr_def)
  qed (simp add: event_lines_def)
  ultimately show ?thesis by blast
qed

text \<open>The loop's effect in closed form: the text and whether anything was seen.\<close>

lemma read_stream_closed:
  assumes "scan_lines scan_limit (hi_text r) (hi_read_error r) = (ls, e)"
    and "stream_ended event ls \<or> e = None"
  shows "fst (read_stream net cfg event none dflt t0 r x) =
     (if stream_events event ls = [] then Inl (ErrUpstream KindBackendError none)
      else let tx = stream_text event ls;
               x1 = (if tx = [] then x else snd (net_now net x));
               first = (if tx = [] then None else Some (fst (net_now net x)));
               out = (if tx = [] then dflt else tx)
           in Inr \<lparr>br_output = Some (chat_output cfg out True False),
                   br_timing = Some (stream_timing t0 first (fst (net_now net x1)) out)\<rparr>)"
proof -
  let ?s = "fst (sse_loop event (net_now net) ls no_events x)"
  have t: "se_text ?s = stream_text event ls" "se_data ?s \<longleftrightarrow> stream_events event ls \<noteq> []"
    "se_done ?s \<longleftrightarrow> stream_ended event ls"
    by (simp_all add: sse_loop_text no_events_def)
  have none: "stream_text event ls = []" if "stream_events event ls = []"
    using that by (simp add: stream_text_def List.map_filter_simps)
  have c: "if stream_text event ls = []
    then se_first ?s = None \<and> snd (sse_loop event (net_now net) ls no_events x) = x
    else se_first ?s = Some (fst (net_now net x))
         \<and> snd (sse_loop event (net_now net) ls no_events x) = snd (net_now net x)"
    by (rule sse_loop_clock) (simp add: no_events_def)
  have d: "(if stream_ended event ls then None else e) = None" using assms(2) by auto
  show ?thesis
    using c none by (auto simp: read_stream_def assms(1) Let_def case_prod_beta t d)
qed

section \<open>The exchange of the HTTP adapters\<close>

definition http_kind :: "backend_kind \<Rightarrow> bool" where
  "http_kind k \<longleftrightarrow> k \<in> {OpenaiBackend, AnthropicBackend, GeminiBackend}"

text \<open>The settings without which the adapter refuses every request.\<close>

fun usable :: "backend_kind \<Rightarrow> BackendConfig \<Rightarrow> bool" where
  "usable AnthropicBackend b \<longleftrightarrow> trim_space (b_default_model b) \<noteq> [] \<and> trim_space (b_api_key b) \<noteq> []"
| "usable GeminiBackend b \<longleftrightarrow> gemini_modelID b \<noteq> [] \<and> gemini_apiKey b \<noteq> []"
| "usable _ b \<longleftrightarrow> True"

text \<open>The JSON in which each API sends one part of the text, and the adapter's reading of an event.\<close>

fun chunk :: "backend_kind \<Rightarrow> string \<Rightarrow> json" where
  "chunk AnthropicBackend t = VMap [(''type'', VStr ''content_block_delta''),
     (''delta'', VMap [(''type'', VStr ''text_delta''), (''text'', VStr t)])]"
| "chunk GeminiBackend t = VMap [(''candidates'', VList [VMap [(''content'',
     VMap [(''parts'', VList [VMap [(''text'', VStr t)]])])]])]"
| "chunk _ t = VMap [(''choices'', VList [VMap [(''delta'', VMap [(''content'', VStr t)])]])]"

fun read_event :: "backend_kind \<Rightarrow> 'x net \<Rightarrow> string \<Rightarrow> string option" where
  "read_event AnthropicBackend net = anthropic_event net"
| "read_event GeminiBackend net = gemini_event net"
| "read_event _ net = openai_event net"

lemma read_event_chunk:
  assumes "net_unmarshal net d = Some (chunk k t)" "d \<noteq> ''[DONE]''"
  shows "read_event k net d = Some t"
  using assms by (cases k)
    (simp_all add: anthropic_event_def anthropic_delta_def gemini_event_def geminiGenerateResponse_def
      openai_event_def openai_delta_def decode_list_def gem_candidate_def gem_part_def nested_string_def
      geminiCandidatesText_def field_string_def field_obj_def field_list_def  obj_get_def)

text \<open>
  The one request a usable HTTP adapter sends, after reading the clock: when sending fails the
  adapter fails with that error, and a streamed answer to a streaming request is read as events.
\<close>

definition sends ::
  "'x net \<Rightarrow> duration \<Rightarrow> AIRequest \<Rightarrow> 'x \<Rightarrow> backend_kind \<Rightarrow> BackendConfig
     \<Rightarrow> duration \<times> string \<times> http_out \<Rightarrow> bool" where
  "sends net budget req x k b = (\<lambda>(client, what, out).
     case send_chat net client budget what out (snd (net_now net x)) of
       (Inl e, x2) \<Rightarrow> \<forall>aws. Invoke net aws k b budget req x = (Inl e, x2)
     | (Inr r, x2) \<Rightarrow> opt_stream (options req) \<and> is_event_stream r \<longrightarrow>
         (\<exists>none dflt. dflt \<noteq> [] \<and> (\<forall>aws. Invoke net aws k b budget req x
            = read_stream net b (read_event k net) none dflt (fst (net_now net x)) r x2)))"

lemma openai_sends: "\<exists>c. sends net budget req x OpenaiBackend b c"
proof (cases "opt_stream (options req)")
  case True
  let ?m = "if trim_space (b_default_model b) = [] then ''infercore-default'' else trim_space (b_default_model b)"
  from True show ?thesis
    by (intro exI[of _ "(openai_client b, ''openai-compatible stream'', openai_request net b ?m (input_text req) True)"])
      (auto simp: sends_def openai_invoke_def openai_stream_def Let_def split: prod.splits sum.splits)
next
  case False
  let ?m = "if trim_space (b_default_model b) = [] then ''infercore-default'' else trim_space (b_default_model b)"
  from False show ?thesis
    by (intro exI[of _ "(openai_client b, ''openai-compatible invoke'', openai_request net b ?m (input_text req) False)"])
      (auto simp: sends_def openai_invoke_def openai_nonstream_def Let_def split: prod.splits sum.splits)
qed

lemma anthropic_sends:
  assumes "usable AnthropicBackend b"
  shows "\<exists>c. sends net budget req x AnthropicBackend b c"
proof -
  let ?st = "opt_stream (options req)"
  let ?o = "(anthropic_client b, if ?st then ''anthropic stream'' else ''anthropic messages'',
    anthropic_request net b (trim_space (b_default_model b)) (input_text req) (anthropic_maxTokens req) ?st)"
  from assms have "sends net budget req x AnthropicBackend b ?o"
    by (cases ?st) (auto simp: sends_def anthropic_invoke_def anthropic_stream_def anthropic_nonstream_def
        Let_def split: prod.splits sum.splits)
  then show ?thesis ..
qed

lemma gemini_sends:
  assumes "usable GeminiBackend b"
  shows "\<exists>c. sends net budget req x GeminiBackend b c"
proof -
  let ?st = "opt_stream (options req)"
  let ?o = "(gemini_client b, if ?st then ''gemini stream'' else ''gemini generateContent'',
    gemini_request net b (gemini_modelID b) (input_text req) ?st)"
  from assms have "sends net budget req x GeminiBackend b ?o"
    by (cases ?st) (auto simp: sends_def gemini_invoke_def gemini_stream_def gemini_nonstream_def
        Let_def split: prod.splits sum.splits)
  then show ?thesis ..
qed

lemma http_sends:
  assumes "http_kind k" "usable k b"
  shows "\<exists>c. sends net budget req x k b c"
  using assms by (auto simp: http_kind_def simp del: usable.simps split_paired_Ex
      intro: openai_sends anthropic_sends gemini_sends)

section \<open>Streams and failures of a backend\<close>

text \<open>What an answer of the transport has to be for a stream of events to be read from it.\<close>

definition sse_answer :: "string \<Rightarrow> goerr option \<Rightarrow> http_in \<Rightarrow> bool" where
  "sse_answer body err r \<longleftrightarrow> ok_status (hi_status r) \<and> is_event_stream r \<and> hi_text r = body \<and> hi_read_error r = err"

lemma streamed_invoke:
  assumes "http_kind k" "usable k b" "opt_stream (options req)" "net_url_error net = (\<lambda>_. None)"
    and "\<And>client out. net_do net client budget out (snd (net_now net x)) = (Inr r, x2)"
    and "sse_answer body err r"
  obtains none dflt where "dflt \<noteq> []" "Invoke net aws k b budget req x
     = read_stream net b (read_event k net) none dflt (fst (net_now net x)) r x2"
proof -
  from http_sends[OF assms(1,2), of net budget req x] obtain c where c: "sends net budget req x k b c" ..
  obtain client what out where "c = (client, what, out)" by (cases c)
  with c assms(3-6) that show ?thesis by (auto simp: sends_def send_chat_def sse_answer_def)
qed

text \<open>The sentinel of the OpenAI protocol; the others end with the body.\<close>

fun ending :: "backend_kind \<Rightarrow> string list" where
  "ending OpenaiBackend = [''[DONE]'']"
| "ending _ = []"

lemma take_events:
  assumes "\<forall>(d, t) \<in> set ps. event d = Some t"
  shows "takeWhile (\<lambda>d. event d \<noteq> None) (map fst ps @ ds) = map fst ps @ takeWhile (\<lambda>d. event d \<noteq> None) ds"
    "List.map_filter event (map fst ps) = map snd ps"
  using assms by (induction ps) (auto simp: List.map_filter_simps)

lemma trim_done: "trim_space ''[DONE]'' = ''[DONE]''"
  by code_simp

lemma sendable_done: "sendable ''[DONE]''"
  by (simp add: sendable_def scan_limit_def trim_done)

lemma sendable_ending: "list_all sendable (ending k)"
  by (cases k) (simp_all add: sendable_done)

lemma ending_events: "takeWhile (\<lambda>d. read_event k net d \<noteq> None) (ending k) = []"
  by (cases k) (simp_all add: openai_event_def)

text \<open>
  C23. Round trip of a stream: when the upstream sends the parts of a text as events of its API, each
  in one \<open>data:\<close> line below a megabyte, the adapter's answer has the concatenated parts as its text.
\<close>

theorem streamed_text_roundtrip:
  assumes "http_kind k" "usable k b" "opt_stream (options req)" "net_url_error net = (\<lambda>_. None)"
    and "\<And>client out. net_do net client budget out (snd (net_now net x)) = (Inr r, x2)"
    and "sse_answer (event_stream (map fst ps @ ending k)) None r"
    and "\<And>d t. (d, t) \<in> set ps \<Longrightarrow> sendable d \<and> d \<noteq> ''[DONE]'' \<and> net_unmarshal net d = Some (chunk k t)"
    and "concat (map snd ps) \<noteq> []"
  shows "\<exists>a x'. Invoke net aws k b budget req x = (Inr a, x')
     \<and> obj_get (br_output a) ''text'' = VStr (concat (map snd ps))"
proof -
  from streamed_invoke[OF assms(1-6)] obtain none dflt where inv: "Invoke net aws k b budget req x
     = read_stream net b (read_event k net) none dflt (fst (net_now net x)) r x2" by blast
  have ev: "\<forall>(d, t) \<in> set ps. read_event k net d = Some t"
    using assms(7) read_event_chunk by fastforce
  have "list_all sendable (map fst ps @ ending k)"
    using assms(7) sendable_ending[of k] by (auto simp: list_all_iff)
  from event_stream_events[OF this] obtain ls
    where ls: "scan_lines scan_limit (hi_text r) (hi_read_error r) = (ls, None)"
      "filter (\<lambda>d. d \<noteq> []) (map event_data ls) = map fst ps @ ending k"
    using assms(6) unfolding sse_answer_def by metis
  have "stream_events (read_event k net) ls = map fst ps"
    unfolding stream_events_def ls(2) take_events(1)[OF ev] ending_events by simp
  moreover from this have "stream_text (read_event k net) ls = concat (map snd ps)"
    by (simp add: stream_text_def take_events[OF ev])
  ultimately show ?thesis
    using read_stream_closed[OF ls(1), of "read_event k net" net b none dflt "fst (net_now net x)" x2] assms(8)
    by (cases "read_stream net b (read_event k net) none dflt (fst (net_now net x)) r x2")
      (auto simp: inv chat_output_def obj_get_def Let_def)
qed

lemma fallback_on_kind:
  "shouldFallback cfg n (ErrUpstream kd m) \<longleftrightarrow> fallback_enabled (reliability cfg)
     \<and> (\<exists>r \<in> set (fallback_rules (reliability cfg)). fr_from_backend r = n \<and> kind_string kd \<in> set (fr_on r))"
  by (cases kd) (auto simp: shouldFallback_def classifyError_def list_ex_iff kind_string_def trigger_defs)


text \<open>
  A deadline that expires while the body of the answer is read is not a \<open>timeout\<close>: the adapter
  reports \<open>backend_error\<close>, and a rule on \<open>timeout\<close> alone does not apply.
\<close>

lemma body_timeout_is_backend_error:
  assumes "http_kind k" "usable k b" "opt_stream (options req)" "net_url_error net = (\<lambda>_. None)"
    and "\<And>client out. net_do net client budget out (snd (net_now net x)) = (Inr r, x2)"
    and "sse_answer (event_stream ds) (Some ErrDeadlineExceeded) r"
    and "list_all sendable ds" "\<forall>d \<in> set ds. read_event k net d \<noteq> None"
  shows "\<exists>e. fst (Invoke net aws k b budget req x) = Inl e \<and> classifyError e = TriggerBackendError"
proof -
  from streamed_invoke[OF assms(1-6)] obtain none dflt where inv: "Invoke net aws k b budget req x
     = read_stream net b (read_event k net) none dflt (fst (net_now net x)) r x2" by blast
  from event_stream_events[OF assms(7)] obtain ls
    where ls: "scan_lines scan_limit (hi_text r) (hi_read_error r) = (ls, Some ErrDeadlineExceeded)"
      "filter (\<lambda>d. d \<noteq> []) (map event_data ls) = ds"
    using assms(6) unfolding sse_answer_def by metis
  have "\<not> stream_ended (read_event k net) ls"
    using ls(2) assms(8) by (auto simp: stream_ended_def)
  then have "\<not> se_done (fst (sse_loop (read_event k net) (net_now net) ls no_events x2))"
    by (simp add: sse_loop_text no_events_def)
  then show ?thesis
    by (auto simp: inv read_stream_def ls(1) Let_def split_beta classifyError_def)
qed

text \<open>
  An Anthropic stream that reports an error in an event, without any text, is answered as a
  success with a placeholder text, so that no fallback is tried.
\<close>

lemma error_event_is_success:
  assumes "usable AnthropicBackend b" "opt_stream (options req)" "net_url_error net = (\<lambda>_. None)"
    and "\<And>client out. net_do net client budget out (snd (net_now net x)) = (Inr r, x2)"
    and "sse_answer (event_stream [d]) None r" "sendable d"
    and "net_unmarshal net d = Some (VMap [(''type'', VStr ''error''), (''error'', detail)])"
  shows "\<exists>a. fst (Invoke net aws AnthropicBackend b budget req x) = Inr a
     \<and> obj_get (br_output a) ''text'' \<noteq> VStr []"
proof -
  have k: "http_kind AnthropicBackend" by (simp add: http_kind_def)
  from streamed_invoke[OF k assms(1-5)] obtain none dflt
    where inv: "dflt \<noteq> []" "Invoke net aws AnthropicBackend b budget req x
     = read_stream net b (read_event AnthropicBackend net) none dflt (fst (net_now net x)) r x2" by blast
  from event_stream_events[of "[d]" None] assms(6) obtain ls
    where ls: "scan_lines scan_limit (hi_text r) (hi_read_error r) = (ls, None)"
      "filter (\<lambda>d. d \<noteq> []) (map event_data ls) = [d]"
    using assms(5) unfolding sse_answer_def by auto
  have ev: "read_event AnthropicBackend net d = Some []"
    using assms(7) by (simp add: anthropic_event_def anthropic_delta_def field_string_def
        nested_string_def field_obj_def obj_get_def)
  then have "stream_events (read_event AnthropicBackend net) ls = [d]"
    by (simp add: stream_events_def ls(2))
  then show ?thesis
    using read_stream_closed[OF ls(1), of "read_event AnthropicBackend net" net b none dflt "fst (net_now net x)" x2] ev
    by (auto simp: inv chat_output_def obj_get_def Let_def simp del: Invoke.simps)
qed

section \<open>Timings\<close>

text \<open>A clock that does not run backwards, seen through the outside state.\<close>

definition steady :: "('x \<Rightarrow> gotime) \<Rightarrow> 'x net \<Rightarrow> 'x aws \<Rightarrow> bool" where
  "steady c net aws \<longleftrightarrow>
     (\<forall>x. c x \<le> fst (net_now net x) \<and> fst (net_now net x) \<le> c (snd (net_now net x)))
     \<and> (\<forall>client budget out x. c x \<le> c (snd (net_do net client budget out x)))
     \<and> (\<forall>budget d x. c x \<le> c (snd (net_wait net budget d x)))
     \<and> (\<forall>budget region model text x. c x \<le> c (snd (aws_converse aws budget region model text x)))"

text \<open>What the timings of an answer promise.\<close>

definition good_timing :: "BackendTiming \<Rightarrow> bool" where
  "good_timing tm \<longleftrightarrow> 0 \<le> bt_ttft_ms tm \<and> bt_ttft_ms tm \<le> bt_completion_latency_ms tm \<and> 0 \<le> bt_tpot_ms tm
     \<and> bt_tpot_ms tm \<le> max 1 (bt_completion_latency_ms tm)
     \<and> (\<not> bt_streamed tm \<longrightarrow> bt_tpot_ms tm = 0 \<and> bt_ttft_ms tm = bt_completion_latency_ms tm)"

lemma time_sub_mono: "t \<le> t' \<Longrightarrow> u' \<le> u \<Longrightarrow> time_sub t u \<le> time_sub t' u'"
  by (simp add: time_sub_def)

lemma go_div_le: "0 \<le> a \<Longrightarrow> 1 \<le> n \<Longrightarrow> go_div a n \<le> a"
  using zdiv_mono2[of a 1 n] by (simp add: go_div_nonneg)

lemma good_flat: "t0 \<le> t1 \<Longrightarrow> good_timing (flat_timing t0 t1)"
  by (simp add: good_timing_def flat_timing_def millis_nonneg time_sub_nonneg)

lemma good_stream:
  assumes "t0 \<le> t1" "\<And>f. first = Some f \<Longrightarrow> t0 \<le> f \<and> f \<le> t1"
  shows "good_timing (stream_timing t0 first t1 out)"
proof (cases first)
  case None
  then show ?thesis using assms(1) by (simp add: good_timing_def stream_timing_def millis_nonneg time_sub_nonneg)
next
  case (Some f)
  with assms(2) have f: "t0 \<le> f" "f \<le> t1" by auto
  let ?n = "if int (length (runes out)) < 1 then 1 else int (length (runes out))"
  have post: "0 \<le> millis (time_sub t1 f)" "millis (time_sub t1 f) \<le> millis (time_sub t1 t0)"
    using f by (auto intro: millis_nonneg millis_mono time_sub_nonneg time_sub_mono)
  then have "go_div (millis (time_sub t1 f)) ?n \<le> millis (time_sub t1 f)"
    by (intro go_div_le) (simp_all add: Suc_le_eq)
  moreover have "millis (time_sub f t0) \<le> millis (time_sub t1 t0)"
    using f by (auto intro: millis_mono time_sub_nonneg time_sub_mono)
  ultimately show ?thesis using post Some f
    by (auto simp: good_timing_def stream_timing_def Let_def millis_nonneg time_sub_nonneg)
qed

locale timed_adapter = adapter_contract +
  assumes timed: "steady c net aws \<Longrightarrow> invoke net aws cfg budget req x = (Inr r, x')
    \<Longrightarrow> \<exists>tm. br_timing r = Some tm \<and> good_timing tm"

lemma steady_now:
  assumes "steady c net aws" "net_now net x = (t, x')"
  shows "c x \<le> t" "t \<le> c x'"
  using assms unfolding steady_def by (metis fst_conv, metis fst_conv snd_conv)

lemma steady_send:
  assumes "steady c net aws" "send_chat net client budget what out x = (o', x')"
  shows "c x \<le> c x'"
proof -
  have "c x \<le> c (snd (net_do net client budget out x))" using assms(1) by (simp add: steady_def)
  with assms(2) show ?thesis
    by (auto simp: send_chat_def split: option.splits prod.splits sum.splits)
qed

lemma read_stream_timed:
  assumes "steady c net aws" "read_stream net cfg event none dflt t0 r x = (Inr a, x')" "t0 \<le> c x"
  shows "\<exists>tm. br_timing a = Some tm \<and> good_timing tm"
proof -
  obtain ls e where ls: "scan_lines scan_limit (hi_text r) (hi_read_error r) = (ls, e)" by fastforce
  obtain s x1 where s: "sse_loop event (net_now net) ls no_events x = (s, x1)" by fastforce
  obtain t1 x2 where t1: "net_now net x1 = (t1, x2)" by fastforce
  from assms(2) obtain out where a: "br_timing a = Some (stream_timing t0 (se_first s) t1 out)"
    by (auto simp: read_stream_def ls s t1 Let_def split: option.splits if_splits)
  have clock: "se_first s = None \<and> x1 = x \<or> (\<exists>f. se_first s = Some f \<and> net_now net x = (f, x1))"
    using sse_loop_clock[of no_events event ls "net_now net" x] s
    by (cases "stream_text event ls = []") (auto simp: no_events_def)
  have "good_timing (stream_timing t0 (se_first s) t1 out)"
    by (rule good_stream)
      (use clock assms(3) steady_now[OF assms(1) t1] steady_now[OF assms(1), of x] in fastforce)+
  with a show ?thesis by simp
qed

text \<open>Reading the clock, then a step of the outside that takes time, then the clock again.\<close>

lemma steady_around:
  assumes "steady c net aws" "net_now net x = (t0, x1)" "c x1 \<le> c x2" "net_now net x2 = (t1, x3)"
  shows "t0 \<le> t1"
  using steady_now[OF assms(1,2)] steady_now[OF assms(1,4)] assms(3) by linarith

lemmas step_splits = prod.splits option.splits sum.splits if_splits

lemma steady_wait:
  assumes "steady c net aws" "net_wait net budget d x = (e, x')"
  shows "c x \<le> c x'"
proof -
  have "c x \<le> c (snd (net_wait net budget d x))" using assms(1) by (simp add: steady_def)
  with assms(2) show ?thesis by simp
qed

lemma steady_converse:
  assumes "steady c net aws" "aws_converse aws budget region model text x = (e, x')"
  shows "c x \<le> c x'"
proof -
  have "c x \<le> c (snd (aws_converse aws budget region model text x))" using assms(1) by (simp add: steady_def)
  with assms(2) show ?thesis by simp
qed

lemma timed_flat:
  assumes "steady c net aws" "net_now net x = (t0, x1)" "c x1 \<le> c x2" "net_now net x2 = (t1, x3)"
  shows "good_timing (flat_timing t0 t1)"
  using steady_around[OF assms] by (rule good_flat)

lemma timed_flat_send:
  assumes "steady c net aws" "net_now net x = (t0, x1)"
    "send_chat net client budget what out x1 = (o', x2)" "net_now net x2 = (t1, x3)"
  shows "good_timing (flat_timing t0 t1)"
  by (rule timed_flat[OF assms(1,2) steady_send[OF assms(1,3)] assms(4)])

lemma timed_stream_send:
  assumes "steady c net aws" "net_now net x = (t0, x1)"
    "send_chat net client budget what out x1 = (o', x2)"
    "read_stream net cfg event none dflt t0 a x2 = (Inr r, x')"
  shows "\<exists>tm. br_timing r = Some tm \<and> good_timing tm"
  using read_stream_timed[OF assms(1,4)] steady_now[OF assms(1,2)] steady_send[OF assms(1,3)] by simp

lemma mock_timed:
  assumes "steady c net aws" "mock_invoke net cfg budget req x = (Inr r, x')"
  shows "\<exists>tm. br_timing r = Some tm \<and> good_timing tm"
proof -
  from assms(2) obtain t0 x1 x2 t1 x3 where s: "net_now net x = (t0, x1)"
    "net_wait net budget (20 * 1000000) x1 = (None, x2)" "net_now net x2 = (t1, x3)"
    "br_timing r = Some (flat_timing t0 t1)"
    by (auto simp: mock_invoke_def Let_def split: step_splits)
  from timed_flat[OF assms(1) s(1) steady_wait[OF assms(1) s(2)] s(3)] s(4) show ?thesis by simp
qed

lemma bedrock_timed:
  assumes "steady c net aws" "bedrock_invoke net aws cfg budget req x = (Inr r, x')"
  shows "\<exists>tm. br_timing r = Some tm \<and> good_timing tm"
proof -
  from assms(2) obtain t0 x1 o' x2 t1 x3 where s: "net_now net x = (t0, x1)"
    "aws_converse aws budget (bedrock_region cfg) (trim_space (b_default_model cfg)) (input_text req) x1 = (o', x2)"
    "net_now net x2 = (t1, x3)" "br_timing r = Some (flat_timing t0 t1)"
    by (auto simp: bedrock_invoke_def Let_def split: step_splits)
  from timed_flat[OF assms(1) s(1) steady_converse[OF assms(1) s(2)] s(3)] s(4) show ?thesis by simp
qed

lemma openai_timed:
  assumes "steady c net aws" "openai_invoke net cfg budget req x = (Inr r, x')"
  shows "\<exists>tm. br_timing r = Some tm \<and> good_timing tm"
  using assms(2)
  by (auto simp: openai_invoke_def openai_stream_def openai_nonstream_def Let_def
      intro: timed_flat_send[OF assms(1)] timed_stream_send[OF assms(1)] split: step_splits)

lemma anthropic_timed:
  assumes "steady c net aws" "anthropic_invoke net cfg budget req x = (Inr r, x')"
  shows "\<exists>tm. br_timing r = Some tm \<and> good_timing tm"
  using assms(2)
  by (auto simp: anthropic_invoke_def anthropic_stream_def anthropic_nonstream_def Let_def
      intro: timed_flat_send[OF assms(1)] timed_stream_send[OF assms(1)] split: step_splits)

lemma gemini_timed:
  assumes "steady c net aws" "gemini_invoke net cfg budget req x = (Inr r, x')"
  shows "\<exists>tm. br_timing r = Some tm \<and> good_timing tm"
  using assms(2)
  by (auto simp: gemini_invoke_def gemini_stream_def gemini_nonstream_def Let_def
      intro: timed_flat_send[OF assms(1)] timed_stream_send[OF assms(1)] split: step_splits)

interpretation any_timed: timed_adapter "\<lambda>net aws. Invoke net aws k" for k
proof (unfold_locales, goal_cases)
  case (1 c net aws cfg budget req x r x')
  note t = mock_timed openai_timed anthropic_timed bedrock_timed gemini_timed
  from 1 show ?case by (cases k) (auto dest: t[OF 1(1)])
qed

text \<open>
  With a clock that does not run backwards the timings of every answer are sound: not negative,
  the first token no later than the completion, and no time per token without streaming.
\<close>

lemma answer_timings:
  assumes "steady c net aws" "Invoke net aws k cfg budget req x = (Inr r, x')"
  shows "\<exists>tm. br_timing r = Some tm
     \<and> 0 \<le> bt_ttft_ms tm \<and> bt_ttft_ms tm \<le> bt_completion_latency_ms tm
     \<and> 0 \<le> bt_tpot_ms tm \<and> bt_tpot_ms tm \<le> max 1 (bt_completion_latency_ms tm)
     \<and> (\<not> bt_streamed tm \<longrightarrow> bt_tpot_ms tm = 0 \<and> bt_ttft_ms tm = bt_completion_latency_ms tm)"
  using any_timed.timed[OF assms] by (simp add: good_timing_def)

section \<open>The adapters of a configuration\<close>

lemma adapters_loop_other: "n \<notin> b_name ` set bs \<Longrightarrow> adapters_loop net aws bs m n = m n"
  by (induction bs arbitrary: m) (auto split: option.split)

lemma adapters_loop_own:
  "distinct (map b_name bs) \<Longrightarrow> b \<in> set bs \<Longrightarrow> NewBackend b = Some k
     \<Longrightarrow> adapters_loop net aws bs m (b_name b) = Some (Invoke net aws k b)"
  by (induction bs arbitrary: m) (auto simp: adapters_loop_other split: option.split)

lemma check_backends_each:
  "check_backends seen bs = None \<Longrightarrow> b \<in> set bs \<Longrightarrow> check_backend b = None"
  by (induction seen bs rule: check_backends.induct) (auto simp: Let_def split: option.splits if_splits)

lemma checked_backend:
  assumes "check_backend b = None"
  shows "\<exists>k. NewBackend b = Some k \<and> (usable k b \<or> k = GeminiBackend \<and> gemini_modelID b = [])"
  using assms by (auto simp: check_backend_def NewBackend_def openai_types_def Let_def
      gemini_apiKey_def split: if_splits)

text \<open>
  In the server's map every backend of a validated configuration has its own adapter, with the
  settings that adapter needs; the exception is a Gemini model name that is only \<open>models/\<close>.
\<close>

lemma valid_backends_have_adapters:
  assumes "validate cfg = None" "b \<in> set (backends cfg)"
  shows "\<exists>k. server_adapters net aws cfg (b_name b) = Some (Invoke net aws k b)
     \<and> (usable k b \<or> k = GeminiBackend \<and> gemini_modelID b = [])"
proof -
  have "check_backend b = None"
    using assms check_backends_each by (auto simp: validate_parts)
  from checked_backend[OF this] obtain k
    where k: "NewBackend b = Some k" "usable k b \<or> k = GeminiBackend \<and> gemini_modelID b = []" by blast
  have "distinct (map trim_space (map b_name (backends cfg)))"
    using validate_config_ok[OF assms(1)] by (simp add: config_ok_def backend_names_def comp_def)
  then have "distinct (map b_name (backends cfg))"
    by (auto simp: distinct_map inj_on_def)
  from adapters_loop_own[OF this assms(2) k(1)] k(2) show ?thesis by (auto simp: server_adapters_def)
qed

section \<open>Concrete exchanges\<close>

text \<open>
  A small outside: the state counts milliseconds, the clock shows them, a request takes five, and
  every text is the JSON of one chunk of the OpenAI protocol unless it is listed.
\<close>

definition echo_net :: "http_in \<Rightarrow> (string \<rightharpoonup> json) \<Rightarrow> nat net" where
  "echo_net r parse =
     \<lparr>net_url_error = (\<lambda>_. None),
      net_do = (\<lambda>client budget out x. (Inr r, x + 5)),
      net_now = (\<lambda>x. (int x * 1000000, Suc x)),
      net_wait = (\<lambda>budget d x. (None, x + 20)),
      net_unmarshal = parse, net_iter = id\<rparr>"

definition no_aws :: "nat aws" where
  "no_aws = \<lparr>aws_config = (\<lambda>_. None), aws_converse = (\<lambda>_ _ _ _ x. (Inr NoMessage, x + 3)),
     aws_models = (\<lambda>_ _ x. (None, x))\<rparr>"

definition sse_in :: "string list \<Rightarrow> goerr option \<Rightarrow> http_in" where
  "sse_in ps err = \<lparr>hi_status = 200, hi_content_type = ''text/event-stream'',
     hi_json = Inr VNil, hi_text = event_stream ps, hi_read_error = err\<rparr>"

definition demo_backend :: "string \<Rightarrow> BackendConfig" where
  "demo_backend ty = zero_backend\<lparr>b_name := ''one'', b_type := ty, b_default_model := ''m'',
     b_api_key := ''k'', b_endpoint := ''http://one''\<rparr>"

definition stream_request :: AIRequest where
  "stream_request = zero_request\<lparr>options := (options zero_request)\<lparr>opt_stream := True\<rparr>\<rparr>"

section \<open>Witnesses\<close>

theorem answers_are_complete_witness:
  "\<exists>r. fst (Invoke (echo_net (sse_in [] None) (\<lambda>_. None)) no_aws MockBackend (demo_backend ''mock'') 0 zero_request 0) = Inr r
     \<and> obj_get (br_output r) ''backend'' = VStr ''one''"
proof -
  obtain r x' where "Invoke (echo_net (sse_in [] None) (\<lambda>_. None)) no_aws MockBackend (demo_backend ''mock'') 0 zero_request 0
      = (Inr r, x')"
    by (simp add: mock_invoke_def echo_net_def Let_def)
  from answers_are_complete[OF this] this show ?thesis by (auto simp: demo_backend_def simp del: Invoke.simps)
qed

lemma demo_usable:
  "usable k (demo_backend ty)"
proof -
  have "trim_space ''m'' = ''m''" "trim_space ''k'' = ''k''" "trim_prefix ''models/'' ''m'' = ''m''" by code_simp+
  then show ?thesis
    by (cases k) (simp_all add: demo_backend_def gemini_modelID_def gemini_apiKey_def)
qed

lemma sendable_parts: "sendable ''Hel''" "sendable ''lo''"
proof -
  have "trim_space ''Hel'' = ''Hel''" "trim_space ''lo'' = ''lo''" by code_simp+
  then show "sendable ''Hel''" "sendable ''lo''" by (simp_all add: sendable_def scan_limit_def)
qed

lemma sse_in_answer: "sse_answer (event_stream ps) err (sse_in ps err)"
proof -
  have "is_event_stream (sse_in ps err)" by (simp add: is_event_stream_def sse_in_def) code_simp
  then show ?thesis by (simp add: sse_answer_def sse_in_def ok_status_def)
qed

lemma echo_net_simps [simp]:
  "net_url_error (echo_net r p) = (\<lambda>_. None)" "net_unmarshal (echo_net r p) = p"
  "net_do (echo_net r p) client budget out x = (Inr r, x + 5)"
  by (simp_all add: echo_net_def)

theorem streamed_text_roundtrip_witness:
  "\<exists>a x'. Invoke (echo_net (sse_in [''Hel'', ''lo'', ''[DONE]''] None) (Some \<circ> chunk OpenaiBackend)) no_aws
       OpenaiBackend (demo_backend ''openai'') 9 stream_request 0 = (Inr a, x')
     \<and> obj_get (br_output a) ''text'' = VStr ''Hello''"
proof -
  let ?net = "echo_net (sse_in [''Hel'', ''lo'', ''[DONE]''] None) (Some \<circ> chunk OpenaiBackend)"
  have "\<exists>a x'. Invoke ?net no_aws OpenaiBackend (demo_backend ''openai'') 9 stream_request 0 = (Inr a, x')
     \<and> obj_get (br_output a) ''text'' = VStr (concat (map snd [(''Hel'', ''Hel''), (''lo'', ''lo'')]))"
  proof (rule streamed_text_roundtrip)
    show "sse_answer (event_stream (map fst [(''Hel'', ''Hel''), (''lo'', ''lo'')] @ ending OpenaiBackend)) None
        (sse_in [''Hel'', ''lo'', ''[DONE]''] None)"
      using sse_in_answer[of "[''Hel'', ''lo'', ''[DONE]'']" None] by simp
    show "net_do ?net client 9 out (snd (net_now ?net 0)) =
        (Inr (sse_in [''Hel'', ''lo'', ''[DONE]''] None), snd (net_now ?net 0) + 5)" for client out by simp
  qed (auto simp: http_kind_def demo_usable stream_request_def sendable_parts)
  then show ?thesis by simp
qed


lemma body_timeout_is_backend_error_witness:
  "\<exists>e. fst (Invoke (echo_net (sse_in [''Hel''] (Some ErrDeadlineExceeded)) (Some \<circ> chunk OpenaiBackend)) no_aws
       OpenaiBackend (demo_backend ''openai'') 9 stream_request 0) = Inl e \<and> classifyError e = TriggerBackendError"
  using body_timeout_is_backend_error[of OpenaiBackend "demo_backend ''openai''" stream_request
      "echo_net (sse_in [''Hel''] (Some ErrDeadlineExceeded)) (Some \<circ> chunk OpenaiBackend)" 9 0
      "sse_in [''Hel''] (Some ErrDeadlineExceeded)"
      "snd (net_now (echo_net (sse_in [''Hel''] (Some ErrDeadlineExceeded)) (Some \<circ> chunk OpenaiBackend)) 0) + 5"
      "[''Hel'']" no_aws]
  by (simp add: http_kind_def demo_usable stream_request_def sendable_parts sse_in_answer openai_event_def
      del: Invoke.simps)

lemma error_event_is_success_witness:
  "\<exists>a. fst (Invoke (echo_net (sse_in [''Hel''] None) (\<lambda>_. Some (VMap [(''type'', VStr ''error''),
         (''error'', VMap [(''type'', VStr ''overloaded_error'')])]))) no_aws
       AnthropicBackend (demo_backend ''anthropic'') 9 stream_request 0) = Inr a"
proof -
  let ?net = "echo_net (sse_in [''Hel''] None) (\<lambda>_. Some (VMap [(''type'', VStr ''error''),
         (''error'', VMap [(''type'', VStr ''overloaded_error'')])]))"
  have "\<exists>a. fst (Invoke ?net no_aws AnthropicBackend (demo_backend ''anthropic'') 9 stream_request 0) = Inr a
      \<and> obj_get (br_output a) ''text'' \<noteq> VStr []"
    by (rule error_event_is_success[where ?x2.0 = "snd (net_now ?net 0) + 5" and d = "''Hel''"
          and detail = "VMap [(''type'', VStr ''overloaded_error'')]" and r = "sse_in [''Hel''] None"])
      (simp_all add: demo_usable stream_request_def sendable_parts sse_in_answer del: usable.simps)
  then show ?thesis by blast
qed

lemma echo_steady: "steady (\<lambda>x. int x * 1000000 - 1000000) (echo_net r p) no_aws"
  by (simp add: steady_def echo_net_def no_aws_def)

lemma answer_timings_witness:
  "\<exists>r tm. fst (Invoke (echo_net (sse_in [] None) (\<lambda>_. None)) no_aws MockBackend (demo_backend ''mock'') 0 zero_request 0) = Inr r
     \<and> br_timing r = Some tm \<and> bt_ttft_ms tm = bt_completion_latency_ms tm \<and> bt_completion_latency_ms tm = 21"
proof -
  let ?net = "echo_net (sse_in [] None) (\<lambda>_. None)"
  obtain r x' where r: "Invoke ?net no_aws MockBackend (demo_backend ''mock'') 0 zero_request 0 = (Inr r, x')"
    by (simp add: mock_invoke_def echo_net_def Let_def)
  moreover have "br_timing r = Some (flat_timing 0 21000000)"
    using r by (auto simp: mock_invoke_def echo_net_def Let_def)
  ultimately show ?thesis
    using answer_timings[OF echo_steady r]
    by (auto simp: flat_timing_def go_time go_div_def simp del: Invoke.simps)
qed

lemma valid_backends_have_adapters_witness:
  "\<exists>k. server_adapters (echo_net (sse_in [] None) (\<lambda>_. None)) no_aws (apply_defaults example_config)
     (b_name (hd (backends (apply_defaults example_config)))) = Some (Invoke (echo_net (sse_in [] None) (\<lambda>_. None)) no_aws k
        (hd (backends (apply_defaults example_config))))"
proof -
  have "validate (apply_defaults example_config) = None" by code_simp
  moreover have "hd (backends (apply_defaults example_config)) \<in> set (backends (apply_defaults example_config))"
    by code_simp
  ultimately show ?thesis using valid_backends_have_adapters by blast
qed

end
