(* ===== verification/Retrieval_Http.thy ===== *)
theory Retrieval_Http
  imports Openai
begin

text \<open>
  The requests of the HTTP retrieval adapters of \<open>internal/retrieval\<close>: the JSON service
  (\<open>http_kb.go\<close>), OpenSearch (\<open>opensearch_kb.go\<close>) and Meilisearch (\<open>meilisearch_kb.go\<close>), with their
  authorisation headers and error answers. The parsing of the answers is in the theory \<open>Retrieval\<close>.
  An endpoint is a URL without query; the text of the status line is a parameter.
\<close>

section \<open>Requests\<close>

definition truncateForErr :: "string \<Rightarrow> nat \<Rightarrow> string" where
  "truncateForErr b n =
     (if length b \<le> n then b else take n b @ [CHR 0xE2, CHR 0x80, CHR 0xA6])"

text \<open>The configured headers, in the order of the map; blank names and values are skipped.\<close>

definition kb_header_list :: "'x net \<Rightarrow> KnowledgeBaseConfig \<Rightarrow> (string \<times> string) list \<Rightarrow> (string \<times> string) list" where
  "kb_header_list net kb hs =
     foldl (\<lambda>hs (k, v). if trim_space k \<noteq> [] \<and> trim_space v \<noteq> [] then header_set k v hs else hs)
       hs (net_iter net (kb_headers kb))"

definition no_authorization :: "(string \<times> string) list \<Rightarrow> bool" where
  "no_authorization hs \<longleftrightarrow> header_get hs ''Authorization'' \<in> {None, Some []}"

definition with_authorization :: "string option \<Rightarrow> (string \<times> string) list \<Rightarrow> (string \<times> string) list" where
  "with_authorization a hs =
     (case a of None \<Rightarrow> hs | Some v \<Rightarrow> if no_authorization hs then header_set ''Authorization'' v hs else hs)"

definition http_client_timeout :: "KnowledgeBaseConfig \<Rightarrow> duration" where
  "http_client_timeout kb = dur_ms (if 0 < kb_http_timeout_ms kb then kb_http_timeout_ms kb else 30000)"

definition http_kb_request :: "'x net \<Rightarrow> KnowledgeBaseConfig \<Rightarrow> string \<Rightarrow> goobj option \<Rightarrow> http_out" where
  "http_kb_request net kb q opts =
     \<lparr>ho_method = ''POST'', ho_url = trim_right_slash (kb_endpoint kb),
      ho_headers = with_authorization
        (if trim_space (kb_api_key kb) = [] then None else Some (''Bearer '' @ trim_space (kb_api_key kb)))
        (kb_header_list net kb (header_set ''Content-Type'' ''application/json'' [])),
      ho_body = Some (VMap [(''query'', VStr q), (''top_k'', VInt (effectiveTopK kb opts 8)),
                            (''kb'', VStr (kb_name kb))])\<rparr>"

definition opensearch_key :: "string \<Rightarrow> string option" where
  "opensearch_key api_key =
     (let k = trim_space api_key
      in if k = [] then None
         else if starts_with ''Basic '' k \<or> starts_with ''Bearer '' k \<or> starts_with ''ApiKey '' k then Some k
         else Some (''ApiKey '' @ k))"

definition opensearch_request ::
  "'x net \<Rightarrow> KnowledgeBaseConfig \<Rightarrow> string list \<Rightarrow> string \<Rightarrow> goobj option \<Rightarrow> http_out" where
  "opensearch_request net kb fs q opts =
     \<lparr>ho_method = ''POST'',
      ho_url = trim_right_slash (trim_space (kb_endpoint kb)) @ ''/'' @ trim_slash (trim_space (kb_index kb))
        @ ''/_search'',
      ho_headers = with_authorization (opensearch_key (kb_api_key kb))
        (kb_header_list net kb (header_set ''Content-Type'' ''application/json'' [])),
      ho_body = Some (VMap [(''size'', VInt (effectiveTopK kb opts 8)),
        (''query'', VMap [(''multi_match'', VMap [(''query'', VStr q), (''fields'', VList (map VStr fs)),
                                                 (''type'', VStr ''best_fields'')])]),
        (''_source'', VBool True)])\<rparr>"

text \<open>\<open>url.PathEscape\<close>.\<close>

definition path_escape :: "string \<Rightarrow> string" where
  "path_escape s = concat (map (\<lambda>c. if c \<in> set ''$&+:=@'' then [c]
     else if c = CHR '' '' then ''%20'' else escape_byte c) s)"

definition meilisearch_request :: "'x net \<Rightarrow> KnowledgeBaseConfig \<Rightarrow> string \<Rightarrow> goobj option \<Rightarrow> http_out" where
  "meilisearch_request net kb q opts =
     \<lparr>ho_method = ''GET'',
      ho_url = trim_right_slash (trim_space (kb_endpoint kb)) @ ''/indexes/''
        @ path_escape (trim_space (kb_index kb)) @ ''/search''
        @ ''?limit='' @ show_int (effectiveTopK kb opts 8) @ ''&q='' @ query_escape q,
      ho_headers = with_authorization (Some (''Bearer '' @ trim_space (kb_api_key kb)))
        (kb_header_list net kb []),
      ho_body = None\<rparr>"

section \<open>Answers\<close>

text \<open>
  Sending, reading the body and checking the status; \<open>failed\<close> is the text of a failed status. The
  JSON of the answer is the document its bytes are, or the error of decoding them.
\<close>

definition kb_exchange ::
  "'x net \<Rightarrow> duration \<Rightarrow> duration \<Rightarrow> http_out \<Rightarrow> (http_in \<Rightarrow> string)
     \<Rightarrow> (goerr + json \<Rightarrow> goerr + RetrievalChunk list) \<Rightarrow> 'x \<Rightarrow> (goerr + RetrievalChunk list) \<times> 'x" where
  "kb_exchange net client budget out failed parse x =
     (case net_url_error net (ho_url out) of
        Some e \<Rightarrow> (Inl e, x)
      | None \<Rightarrow>
          (case net_do net client budget out x of
             (Inl e, x1) \<Rightarrow> (Inl e, x1)
           | (Inr r, x1) \<Rightarrow>
               ((case hi_read_error r of
                   Some e \<Rightarrow> Inl e
                 | None \<Rightarrow>
                     if \<not> ok_status (hi_status r) then Inl (ErrText (failed r @ truncateForErr (hi_text r) 512))
                     else parse (hi_json r)), x1)))"

definition http_kb_retrieve where
  "http_kb_retrieve net budget kb q opts =
     kb_exchange net (http_client_timeout kb) budget (http_kb_request net kb q opts)
       (\<lambda>r. ''http retrieval '' @ kb_name kb @ '': status '' @ show_int (hi_status r) @ '': '') parseHTTPChunksJSON"

definition opensearch_retrieve where
  "opensearch_retrieve net status_line budget kb fs q opts =
     kb_exchange net (http_client_timeout kb) budget (opensearch_request net kb fs q opts)
       (\<lambda>r. ''opensearch '' @ kb_name kb @ '': '' @ status_line r @ '': '') parseOpenSearchHits"

definition meilisearch_retrieve where
  "meilisearch_retrieve net status_line budget kb q opts =
     kb_exchange net (http_client_timeout kb) budget (meilisearch_request net kb q opts)
       (\<lambda>r. ''meilisearch '' @ kb_name kb @ '': '' @ status_line r @ '': '') parseMeilisearchHits"

section \<open>Any adapter\<close>

text \<open>What the file knowledge base needs of the platform: lower case, word runes, the sort.\<close>

record platform =
  pl_lower :: "string \<Rightarrow> string"
  pl_word :: "string \<Rightarrow> bool"
  pl_sort :: "RetrievalChunk list \<Rightarrow> RetrievalChunk list"
  pl_status :: "http_in \<Rightarrow> string"

fun kb_retrieve ::
  "'x net \<Rightarrow> platform \<Rightarrow> duration \<Rightarrow> kb_adapter \<Rightarrow> string \<Rightarrow> 'x \<Rightarrow> (goerr + RetrievalChunk list) \<times> 'x" where
  "kb_retrieve net pl budget (AFile f) q x = (Inr (Retrieve (pl_lower pl) (pl_word pl) (pl_sort pl) f q), x)"
| "kb_retrieve net pl budget (AHTTP kb) q x = http_kb_retrieve net budget kb q None x"
| "kb_retrieve net pl budget (AOpenSearch kb fs) q x = opensearch_retrieve net (pl_status pl) budget kb fs q None x"
| "kb_retrieve net pl budget (AMeilisearch kb) q x = meilisearch_retrieve net (pl_status pl) budget kb q None x"

fun kb_label :: "kb_adapter \<Rightarrow> string" where
  "kb_label (AFile f) = fk_name f"
| "kb_label (AHTTP kb) = kb_name kb"
| "kb_label (AOpenSearch kb _) = kb_name kb"
| "kb_label (AMeilisearch kb) = kb_name kb"

section \<open>Headers\<close>

lemma header_get_set [simp]:
  "header_get (header_set k v hs) k' = (if canonical_key k = canonical_key k' then Some v else header_get hs k')"
  by (simp add: header_get_def header_set_def update_conv)

lemma authorization_wins:
  assumes "\<not> no_authorization hs"
  shows "with_authorization a hs = hs"
  using assms by (simp add: with_authorization_def split: option.split)

lemma authorization_added:
  assumes "no_authorization hs"
  shows "header_get (with_authorization (Some v) hs) ''Authorization'' = Some v"
  using assms by (simp add: with_authorization_def)

text \<open>A failed request reports at most 512 bytes of the answer, and the ellipsis.\<close>

lemma truncateForErr_length: "length (truncateForErr b n) \<le> n + 3"
  by (simp add: truncateForErr_def)

text \<open>Whatever the service answers, the chunks have text.\<close>

lemma chunks_have_text:
  assumes "kb_retrieve net pl budget a q x = (Inr cs, x')" "\<forall>f. a \<noteq> AFile f" "c \<in> set cs"
  shows "chunk_text c \<noteq> [] \<and> trim_space (chunk_text c) = chunk_text c"
proof -
  have "\<exists>b. parseHTTPChunksJSON b = Inr cs \<or> parseOpenSearchHits b = Inr cs \<or> parseMeilisearchHits b = Inr cs"
    using assms(1,2)
    by (cases a) (auto simp: http_kb_retrieve_def opensearch_retrieve_def meilisearch_retrieve_def kb_exchange_def
        split: option.splits prod.splits sum.splits if_splits)
  then obtain b where b: "parseHTTPChunksJSON b = Inr cs \<or> parseOpenSearchHits b = Inr cs
      \<or> parseMeilisearchHits b = Inr cs" ..
  have "some_chunks (Inr cs) = cs" by (simp add: some_chunks_def)
  then have "some_chunks (parseHTTPChunksJSON b) = cs \<or> some_chunks (parseOpenSearchHits b) = cs
      \<or> some_chunks (parseMeilisearchHits b) = cs" using b by metis
  then show ?thesis using assms(3) remote_chunks_have_text[of b] by blast
qed

end
