(* ===== verification/Orchestrator.thy ===== *)
theory Orchestrator
  imports Ledger Routing "HOL-Library.Sublist"
begin

text \<open>
  The inference pipeline, \<open>internal/inferexec\<close>: \<open>Run\<close> takes a normalised request through policy,
  admission, routing, retrieval, the backend call and the ledger. The components it calls are the
  fields of the record \<open>orchestrator\<close>, functions on a world \<open>'w\<close> that holds all their state;
  optional fields are options as they may be nil in the code. The interface the pipeline relies on
  is the locale \<open>infer_pipeline\<close>; the lemmas in it follow one request through the pipeline: its
  admission slot, its ledger status and its recorded steps.
\<close>

section \<open>Step names and plans\<close>

definition StepNormalize :: string where "StepNormalize = ''normalize''"
definition StepAdmission :: string where "StepAdmission = ''admission''"
definition StepRoute :: string where "StepRoute = ''route''"
definition StepRetrieve :: string where "StepRetrieve = ''retrieve''"
definition StepRerank :: string where "StepRerank = ''rerank''"
definition StepBackendCall :: string where "StepBackendCall = ''backend_call''"
definition StepFinalize :: string where "StepFinalize = ''finalize''"
definition StepAgentStub :: string where "StepAgentStub = ''agent_stub''"

definition ExecutionPlanForRequestType :: "string \<Rightarrow> string list" where
  "ExecutionPlanForRequestType t =
     (if t = RequestTypeAgent then [StepNormalize, StepPolicyCheck, StepAgentStub]
      else if t = RequestTypeRAG then
        [StepNormalize, StepPolicyCheck, StepAdmission, StepRoute, StepRetrieve, StepRerank,
         StepBackendCall, StepFinalize]
      else [StepNormalize, StepPolicyCheck, StepAdmission, StepRoute, StepBackendCall, StepFinalize])"

section \<open>Results\<close>

record Failure =
  f_http_status :: int
  f_error_code :: string
  f_message :: string
  f_trace_result :: string
  f_backend :: string

record Success =
  su_policy_decision :: PolicyDecision
  su_primary :: RouteDecision
  su_exec_res :: ExecutionResult
  su_req :: AIRequest
  su_overload_degrade :: bool
  su_exec_start :: gotime

text \<open>\<open>Inl\<close> a failure, \<open>Inr\<close> a success: the two pointers of \<open>Result\<close>, of which one is set.\<close>

type_synonym result = "Failure + Success"

definition mk_failure :: "int \<Rightarrow> string \<Rightarrow> string \<Rightarrow> string \<Rightarrow> string \<Rightarrow> result" where
  "mk_failure st code msg tr b =
     Inl \<lparr>f_http_status = st, f_error_code = code, f_message = msg, f_trace_result = tr, f_backend = b\<rparr>"

definition InferBudgetHTTPStatus :: "goerr option \<Rightarrow> goerr option \<Rightarrow> (int \<times> string) option" where
  "InferBudgetHTTPStatus ctx_err err =
     (case err of
        None \<Rightarrow> None
      | Some e \<Rightarrow>
          if \<not> is_deadline e then None
          else (case ctx_err of
                  None \<Rightarrow> None
                | Some c \<Rightarrow> if is_deadline c then Some (504, ''gateway_timeout'') else None))"

section \<open>The pipeline's components\<close>

record 'w orch_ledger =
  ol_create :: "string \<Rightarrow> string \<Rightarrow> AIRequest \<Rightarrow> gotime \<Rightarrow> 'w \<Rightarrow> 'w"
  ol_fail :: "string \<Rightarrow> 'w \<Rightarrow> 'w"
  ol_policy :: "string \<Rightarrow> json \<Rightarrow> string \<Rightarrow> string \<Rightarrow> 'w \<Rightarrow> 'w"
  ol_success :: "string \<Rightarrow> string \<Rightarrow> string \<Rightarrow> 'w \<Rightarrow> 'w"

text \<open>
  \<open>o_begin\<close> returns \<open>(overloadDegrade, reject)\<close>; \<open>o_release\<close> is the closure it returns when it
  does not reject. \<open>o_rag\<close> runs the retrieval steps with the step writer and returns the request
  with the retrieved text merged in. \<open>o_ctx_err\<close> is \<open>ctx.Err()\<close>, \<open>o_now\<close> reads the clock.
\<close>

record 'w orchestrator =
  o_evaluate :: "AIRequest \<Rightarrow> 'w \<Rightarrow> (goerr + PolicyDecision) \<times> 'w"
  o_route :: "AIRequest \<Rightarrow> RuntimeState \<Rightarrow> 'w \<Rightarrow> (goerr + RouteDecision) \<times> 'w"
  o_execute :: "AIRequest \<Rightarrow> RouteDecision \<Rightarrow> RouteDecision list \<Rightarrow> 'w
     \<Rightarrow> (ExecutionResult \<times> goerr option) \<times> 'w"
  o_slo_start :: "(string \<Rightarrow> 'w \<Rightarrow> 'w) option"
  o_ledger :: "'w orch_ledger option"
  o_cached_health :: "('w \<Rightarrow> health \<times> 'w) option"
  o_inflight :: "'w \<Rightarrow> int"
  o_begin :: "('w \<Rightarrow> (bool \<times> bool) \<times> 'w) option"
  o_release :: "'w \<Rightarrow> 'w"
  o_rag :: "(StepWriter option \<Rightarrow> AIRequest \<Rightarrow> 'w \<Rightarrow> (goerr option \<times> AIRequest) \<times> StepWriter option \<times> 'w) option"
  o_fallback :: "(string \<Rightarrow> health \<Rightarrow> RouteDecision list) option"
  o_note_timeout :: "(goerr \<Rightarrow> 'w \<Rightarrow> 'w) option"
  o_parse_rag :: "(goerr \<Rightarrow> (string \<times> int \<times> string \<times> string) option) option"
  o_ctx_err :: "'w \<Rightarrow> goerr option"
  o_now :: "'w \<Rightarrow> gotime \<times> 'w"
  o_steps :: "'w step_env"

record 'w run_input =
  in_trace_id :: string
  in_request_id :: string
  in_req :: AIRequest
  in_sw :: "StepWriter option"
  in_emit :: "(string \<Rightarrow> string \<Rightarrow> 'w \<Rightarrow> 'w) option"

definition failLedger :: "'w orchestrator \<Rightarrow> string \<Rightarrow> 'w \<Rightarrow> 'w" where
  "failLedger ops i w = (case o_ledger ops of None \<Rightarrow> w | Some l \<Rightarrow> ol_fail l i w)"

definition note_timeout :: "'w orchestrator \<Rightarrow> goerr \<Rightarrow> 'w \<Rightarrow> 'w" where
  "note_timeout ops e w = (case o_note_timeout ops of None \<Rightarrow> w | Some f \<Rightarrow> f e w)"

definition emit_trace :: "'w run_input \<Rightarrow> string \<Rightarrow> string \<Rightarrow> 'w \<Rightarrow> 'w" where
  "emit_trace inp backend res w = (case in_emit inp of None \<Rightarrow> w | Some f \<Rightarrow> f backend res w)"

definition deadline_failure :: "int \<times> string \<Rightarrow> string \<Rightarrow> result" where
  "deadline_failure sc backend =
     mk_failure (fst sc) (snd sc) ''inference request deadline exceeded'' ''gateway_timeout'' backend"

text \<open>A step whose closure only returns an output map and an error.\<close>

definition plain_step ::
  "'w orchestrator \<Rightarrow> string \<Rightarrow> string \<Rightarrow> goobj \<Rightarrow> goobj option \<times> goerr option
     \<Rightarrow> StepWriter option \<Rightarrow> 'w \<Rightarrow> goerr option \<times> StepWriter option \<times> 'w" where
  "plain_step ops stepType backend inp out sw w =
     (case StepRun (o_steps ops) stepType backend inp (\<lambda>w. ((fst out, snd out, ()), w)) sw w of
        ((err, _), sw', w') \<Rightarrow> (err, sw', w'))"

section \<open>Run\<close>

text \<open>The backend call and the end of the pipeline.\<close>

definition run_backend ::
  "'w orchestrator \<Rightarrow> 'w run_input \<Rightarrow> PolicyDecision \<Rightarrow> bool \<Rightarrow> health \<Rightarrow> RouteDecision \<Rightarrow> AIRequest
     \<Rightarrow> StepWriter option \<Rightarrow> 'w \<Rightarrow> result \<times> StepWriter option \<times> 'w" where
  "run_backend ops inp pd degrade health primary req sw w =
     (let i = in_request_id inp;
          fallback = (case o_fallback ops of None \<Rightarrow> [] | Some f \<Rightarrow> f (backend_name primary) health);
          (start, w1) = o_now ops w;
          w2 = (case o_slo_start ops of None \<Rightarrow> w1 | Some f \<Rightarrow> f i w1);
          ((err, execRes), sw1, w3) =
            StepRun (o_steps ops) StepBackendCall (backend_name primary)
              [(''primary'', VStr (backend_name primary))]
              (\<lambda>w. case o_execute ops req primary fallback w of
                 ((res, Some e), w') \<Rightarrow> ((Some [(''status'', VStr (ex_status res))], Some e, res), w')
               | ((res, None), w') \<Rightarrow>
                   ((Some [(''status'', VStr (ex_status res)), (''backend'', VStr (ex_backend_name res))],
                     None, res), w'))
              sw w2
      in case err of
           Some e \<Rightarrow>
             (let w4 = failLedger ops i (note_timeout ops e w3)
              in case InferBudgetHTTPStatus (o_ctx_err ops w4) (Some e) of
                   Some sc \<Rightarrow>
                     (deadline_failure sc (backend_name primary), sw1,
                      emit_trace inp (backend_name primary) ''gateway_timeout'' w4)
                 | None \<Rightarrow>
                     (mk_failure 502 ''execution_failed'' (err_text e) ''execution_failed'' (backend_name primary),
                      sw1, emit_trace inp (backend_name primary) ''execution_failed'' w4))
         | None \<Rightarrow>
             (let (_, sw2, w4) = plain_step ops StepFinalize (ex_backend_name execRes)
                    [(''status'', VStr (ex_status execRes))] (Some [(''ok'', VBool True)], None) sw1 w3;
                  w5 = (case o_ledger ops of None \<Rightarrow> w4
                        | Some l \<Rightarrow> ol_success l i (ex_backend_name execRes) (reason primary) w4)
              in (Inr \<lparr>su_policy_decision = pd, su_primary = primary, su_exec_res = execRes, su_req = req,
                       su_overload_degrade = degrade, su_exec_start = start\<rparr>, sw2, w5)))"

text \<open>Retrieval, for a RAG request, and its failures.\<close>

definition run_retrieval ::
  "'w orchestrator \<Rightarrow> 'w run_input \<Rightarrow> PolicyDecision \<Rightarrow> bool \<Rightarrow> health \<Rightarrow> RouteDecision \<Rightarrow> AIRequest
     \<Rightarrow> StepWriter option \<Rightarrow> 'w \<Rightarrow> result \<times> StepWriter option \<times> 'w" where
  "run_retrieval ops inp pd degrade health primary req sw w =
     (case (if request_type req = RequestTypeRAG then o_rag ops else None) of
        None \<Rightarrow> run_backend ops inp pd degrade health primary req sw w
      | Some rag \<Rightarrow>
          (case rag sw req w of
             ((None, req'), sw1, w1) \<Rightarrow> run_backend ops inp pd degrade health primary req' sw1 w1
           | ((Some e, _), sw1, w1) \<Rightarrow>
               (let w2 = failLedger ops (in_request_id inp) w1
                in case (case o_parse_rag ops of None \<Rightarrow> None | Some p \<Rightarrow> p e) of
                     Some (trace, st, code, msg) \<Rightarrow>
                       (mk_failure st code msg trace [], sw1, emit_trace inp [] trace w2)
                   | None \<Rightarrow>
                       (mk_failure 502 ''execution_failed'' (err_text e) ''execution_failed'' [], sw1,
                        emit_trace inp [] ''execution_failed'' w2))))"

text \<open>From the admission step to the recorded route.\<close>

definition run_admitted ::
  "'w orchestrator \<Rightarrow> 'w run_input \<Rightarrow> ('w \<Rightarrow> health \<times> 'w) \<Rightarrow> PolicyDecision \<Rightarrow> bool \<Rightarrow> AIRequest
     \<Rightarrow> StepWriter option \<Rightarrow> 'w \<Rightarrow> result \<times> StepWriter option \<times> 'w" where
  "run_admitted ops inp cached pd degrade req sw w =
     (let i = in_request_id inp;
          (_, sw1, w1) = plain_step ops StepAdmission [] [(''queue_depth'', VInt (o_inflight ops w))]
             (Some [(''overload_degrade'', VBool degrade)], None) sw w;
          (health, w2) = cached w1
      in case o_route ops req \<lparr>queue_depth = o_inflight ops w2, backend_health = health,
                recent_timeout_spike = False, overload_degrade = degrade\<rparr> w2 of
           (Inl e, w3) \<Rightarrow>
             (let w4 = failLedger ops i w3
              in case InferBudgetHTTPStatus (o_ctx_err ops w4) (Some e) of
                   Some sc \<Rightarrow>
                     (deadline_failure sc [], sw1, emit_trace inp [] ''gateway_timeout'' (note_timeout ops e w4))
                 | None \<Rightarrow>
                     (mk_failure 500 ''route_error'' (err_text e) ''route_error'' [], sw1,
                      emit_trace inp [] ''route_error'' w4))
         | (Inr primary, w3) \<Rightarrow>
             (let (_, sw2, w4) = plain_step ops StepRoute (backend_name primary)
                    [(''reason'', VStr (reason primary))]
                    (Some [(''backend'', VStr (backend_name primary)),
                           (''estimated_cost'', VFloat (estimated_cost primary))], None) sw1 w3;
                  snap = snapshot_json
                    \<lparr>ps_policy_reason = pd_reason pd, ps_primary_backend = backend_name primary,
                     ps_primary_route_reason = reason primary, ps_estimated_cost = estimated_cost primary,
                     ps_overload_degrade = degrade, ps_queue_depth = o_inflight ops w4\<rparr>;
                  w5 = (case o_ledger ops of None \<Rightarrow> w4
                        | Some l \<Rightarrow> ol_policy l i snap (reason primary) (backend_name primary) w4)
              in run_retrieval ops inp pd degrade health primary req sw2 w5))"

text \<open>Admission, with the slot given back when the pipeline returns.\<close>

definition run_allowed ::
  "'w orchestrator \<Rightarrow> 'w run_input \<Rightarrow> PolicyDecision \<Rightarrow> AIRequest \<Rightarrow> StepWriter option \<Rightarrow> 'w
     \<Rightarrow> result \<times> StepWriter option \<times> 'w" where
  "run_allowed ops inp pd req sw w =
     (if request_type req = RequestTypeAgent then
        (let (_, sw1, w1) = plain_step ops StepAgentStub [] [(''pipeline'', VStr (pipeline_ref req))]
               (None, Some (ErrText ''agent execution not implemented'')) sw w;
             w2 = failLedger ops (in_request_id inp) w1
         in (mk_failure 501 ''agent_not_implemented'' ''agent execution is not implemented in this release''
               ''agent_not_implemented'' [], sw1, emit_trace inp [] ''agent_not_implemented'' w2))
      else case (o_begin ops, o_cached_health ops, o_fallback ops) of
        (Some begin_load, Some cached, Some _) \<Rightarrow>
          (case begin_load w of
             ((degrade, True), w1) \<Rightarrow>
               (mk_failure 503 ''overload'' ''inference concurrency limit exceeded'' ''overload'' [], sw,
                emit_trace inp [] ''overload'' (failLedger ops (in_request_id inp) w1))
           | ((degrade, False), w1) \<Rightarrow>
               (case run_admitted ops inp cached pd degrade req sw w1 of
                  (res, sw1, w2) \<Rightarrow> (res, sw1, o_release ops w2)))
      | _ \<Rightarrow> (mk_failure 500 ''route_error'' ''orchestrator misconfigured'' ''route_error'' [], sw, w))"

definition Run :: "'w orchestrator \<Rightarrow> 'w run_input \<Rightarrow> 'w \<Rightarrow> result \<times> StepWriter option \<times> 'w" where
  "Run ops inp w =
     (let i = in_request_id inp; req = in_req inp;
          (ledgerAt, w1) = o_now ops w;
          w2 = (case o_ledger ops of None \<Rightarrow> w1 | Some l \<Rightarrow> ol_create l (in_trace_id inp) i req ledgerAt w1);
          (_, sw1, w3) = plain_step ops StepNormalize []
             [(''request_type'', VStr (request_type req)), (''pipeline_ref'', VStr (pipeline_ref req))]
             (Some [(''ok'', VBool True)], None) (in_sw inp) w2
      in case o_evaluate ops req w3 of
           (Inl e, w4) \<Rightarrow>
             (let w5 = failLedger ops i w4
              in case InferBudgetHTTPStatus (o_ctx_err ops w5) (Some e) of
                   Some sc \<Rightarrow>
                     (deadline_failure sc [], sw1, emit_trace inp [] ''gateway_timeout'' (note_timeout ops e w5))
                 | None \<Rightarrow>
                     (mk_failure 500 ''policy_error'' (err_text e) ''policy_error'' [], sw1,
                      emit_trace inp [] ''policy_error'' w5))
         | (Inr pd, w4) \<Rightarrow>
             (let (err, sw2, w5) = plain_step ops StepPolicyCheck [] [(''tenant_id'', VStr (tenant_id req))]
                    (if \<not> allowed pd
                     then (Some [(''allowed'', VBool False), (''reason'', VStr (pd_reason pd))],
                           Some (ErrText (''policy rejected: '' @ pd_reason pd)))
                     else (Some [(''allowed'', VBool True), (''reason'', VStr (pd_reason pd))], None)) sw1 w4
              in case err of
                   Some _ \<Rightarrow>
                     (mk_failure 429 ''policy_rejected'' (pd_reason pd) ''policy_rejected'' [], sw2,
                      emit_trace inp [] ''policy_rejected'' (failLedger ops i w5))
                 | None \<Rightarrow> run_allowed ops inp pd (normalized pd) sw2 w5))"

section \<open>The contract of the components\<close>

text \<open>
  What is observed of a world for one request: the admission slots in use, the status of the
  request's ledger row, its recorded steps.
\<close>

record observation =
  ob_slots :: "32 word"
  ob_status :: "string option"
  ob_steps :: "StepRow list"

text \<open>
  Where the pipeline stands: the slots, and, when there is a ledger (\<open>stored\<close>), the status of the
  row, the types of the steps so far, with consecutive indices from 0, and the writer's next index.
\<close>

definition stands ::
  "bool \<Rightarrow> string \<Rightarrow> observation \<Rightarrow> StepWriter option \<Rightarrow> 32 word \<Rightarrow> string \<Rightarrow> string list \<Rightarrow> bool" where
  "stands stored i ob sw n status types \<longleftrightarrow>
     ob_slots ob = n \<and> (\<exists>s. sw = Some s \<and> sw_request_id s = i
       \<and> (stored \<longrightarrow> ob_status ob = Some status \<and> map st_step_type (ob_steps ob) = types
            \<and> map st_step_index (ob_steps ob) = map int [0..<length types]
            \<and> sw_next s = int (length types)))"

text \<open>
  How the pipeline ends for a request of type \<open>ty\<close>: a success has recorded the whole plan and
  marked the row; a failure has recorded a prefix of the plan and marked the row failed.
\<close>

definition ends :: "bool \<Rightarrow> string \<Rightarrow> string \<Rightarrow> 32 word \<Rightarrow> result \<Rightarrow> StepWriter option \<Rightarrow> observation \<Rightarrow> bool" where
  "ends stored i ty n res sw ob \<longleftrightarrow>
     (case res of
        Inr su \<Rightarrow> request_type (su_req su) = ty \<and> ty \<noteq> RequestTypeAgent
          \<and> stands stored i ob sw n ''success'' (ExecutionPlanForRequestType ty)
      | Inl f \<Rightarrow> (\<exists>k. stands stored i ob sw n ''failed'' (take k (ExecutionPlanForRequestType ty))))"

lemma ends_failure:
  "stands stored i ob sw n ''failed'' types \<Longrightarrow> prefix types (ExecutionPlanForRequestType ty) \<Longrightarrow>
     ends stored i ty n (Inl f) sw ob"
  unfolding ends_def prefix_def by (auto intro: exI[of _ "length types"])

definition configured :: "'v orchestrator \<Rightarrow> bool" where
  "configured o1 \<longleftrightarrow> o_begin o1 \<noteq> None \<and> o_cached_health o1 \<noteq> None \<and> o_fallback o1 \<noteq> None \<and> o_rag o1 \<noteq> None"

lemma step_result_cases:
  obtains a b c d where "x = ((a, b), c, d)"
  by (cases x) auto

lemma plain_step_err: "plain_step ops ty be m out sw w = (err, sw', w') \<Longrightarrow> err = snd out"
  by (auto simp: plain_step_def StepRun_def Let_def split: prod.splits option.splits)

locale step_log =
  fixes env :: "'w step_env" and rid :: string and obs :: "'w \<Rightarrow> observation"
  assumes store_appends: "env_store env = Some wr \<Longrightarrow> st_request_id row = rid \<Longrightarrow>
      ob_status (obs w) \<noteq> None \<Longrightarrow> obs (snd (wr row w)) = (obs w)\<lparr>ob_steps := ob_steps (obs w) @ [row]\<rparr>"
    and tick_keeps: "obs (snd (env_tick env w)) = obs w"
    and hook_keeps: "env_onstep env = Some hk \<Longrightarrow> obs (hk a b c t lat w) = obs w"
begin

abbreviation stored :: bool where
  "stored \<equiv> env_store env \<noteq> None"

abbreviation pos :: "StepWriter option \<Rightarrow> 'w \<Rightarrow> 32 word \<Rightarrow> string \<Rightarrow> string list \<Rightarrow> bool" where
  "pos sw w n status types \<equiv> stands stored rid (obs w) sw n status types"

text \<open>A step appends its row and nothing else.\<close>

lemma step_stands:
  assumes "StepRun env ty be m fn sw w = ((err, r), sw', w')" "pos sw w n s types"
    and "\<And>v out e q v'. fn v = ((out, e, q), v') \<Longrightarrow> obs v' = obs v"
  shows "pos sw' w' n s (types @ [ty])"
proof -
  obtain sw0 where sw: "sw = Some sw0" "sw_request_id sw0 = rid"
    using assms(2) by (auto simp: stands_def)
  obtain t0 w1 where t0: "env_tick env w = (t0, w1)" by (cases "env_tick env w")
  obtain out e q w2 where f: "fn w1 = ((out, e, q), w2)" by (metis surj_pair)
  obtain t1 w3 where t1: "env_tick env w2 = (t1, w3)" by (cases "env_tick env w2")
  define lat where "lat = millis (time_sub t1 t0)"
  define w4 where "w4 = (case env_onstep env of None \<Rightarrow> w3
      | Some hook \<Rightarrow> hook ty be (if e = None then ''success'' else ''failed'') t0 lat w3)"
  have "obs w1 = obs w" "obs w3 = obs w2"
    using tick_keeps[of w] tick_keeps[of w2] t0 t1 by auto
  then have o4: "obs w4 = obs w"
    using assms(3)[OF f] hook_keeps by (auto simp: w4_def split: option.split)
  show ?thesis
  proof (cases "env_store env")
    case None
    then have "sw' = sw \<and> w' = w4"
      using assms(1)
      by (auto simp: StepRun_def sw t0 f t1 Let_def lat_def w4_def split: option.splits)
    then show ?thesis using None assms(2) o4 by (simp add: stands_def)
  next
    case (Some wr)
    let ?row = "step_row sw0 ty be m out e lat"
    have r: "sw' = Some (sw0\<lparr>sw_next := sw_next sw0 + 1\<rparr>)" "w' = snd (wr ?row w4)"
      using assms(1) Some
      by (auto simp: StepRun_def sw t0 f t1 Let_def lat_def w4_def split: prod.splits option.splits)
    have "ob_status (obs w4) \<noteq> None" using assms(2) o4 Some by (auto simp: stands_def)
    then have "obs w' = (obs w)\<lparr>ob_steps := ob_steps (obs w) @ [?row]\<rparr>"
      using store_appends[OF Some, of ?row w4] sw o4 r(2) by (simp add: step_row_def)
    then show ?thesis
      using assms(2) sw r(1) Some by (auto simp: stands_def step_row_def)
  qed
qed

end

locale infer_pipeline = step_log "o_steps ops" "in_request_id inp" obs
  for ops :: "'w orchestrator" and inp :: "'w run_input" and obs :: "'w \<Rightarrow> observation" +
  assumes evaluate_keeps: "obs (snd (o_evaluate ops r w)) = obs w"
    and evaluate_type: "fst (o_evaluate ops r w) = Inr pd \<Longrightarrow> allowed pd \<Longrightarrow>
      request_type (normalized pd) = request_type (NormalizeAIRequest r)"
    and route_keeps: "obs (snd (o_route ops r st w)) = obs w"
    and execute_keeps: "obs (snd (o_execute ops r p fb w)) = obs w"
    and now_keeps: "obs (snd (o_now ops w)) = obs w"
    and slo_keeps: "o_slo_start ops = Some f \<Longrightarrow> obs (f (in_request_id inp) w) = obs w"
    and health_keeps: "o_cached_health ops = Some h \<Longrightarrow> obs (snd (h w)) = obs w"
    and note_keeps: "o_note_timeout ops = Some nt \<Longrightarrow> obs (nt e w) = obs w"
    and emit_keeps: "in_emit inp = Some em \<Longrightarrow> obs (em b res w) = obs w"
    and begin_takes: "o_begin ops = Some beg \<Longrightarrow>
      obs (snd (beg w)) = (if snd (fst (beg w)) then obs w else (obs w)\<lparr>ob_slots := ob_slots (obs w) + 1\<rparr>)"
    and release_gives: "obs (o_release ops w) = (obs w)\<lparr>ob_slots := ob_slots (obs w) - 1\<rparr>"
    and ledger_creates: "o_ledger ops = Some l \<Longrightarrow> ob_status (obs w) = None \<Longrightarrow>
      obs (ol_create l tr (in_request_id inp) r t w) = (obs w)\<lparr>ob_status := Some ''running'', ob_steps := []\<rparr>"
    and ledger_fails: "o_ledger ops = Some l \<Longrightarrow> ob_status (obs w) \<noteq> None \<Longrightarrow>
      obs (ol_fail l (in_request_id inp) w) = (obs w)\<lparr>ob_status := Some ''failed''\<rparr>"
    and ledger_policy: "o_ledger ops = Some l \<Longrightarrow>
      obs (ol_policy l (in_request_id inp) snap rr be w) = obs w"
    and ledger_succeeds: "o_ledger ops = Some l \<Longrightarrow> ob_status (obs w) \<noteq> None \<Longrightarrow>
      obs (ol_success l (in_request_id inp) be rr w) = (obs w)\<lparr>ob_status := Some ''success''\<rparr>"
    and store_iff_ledger: "env_store (o_steps ops) = None \<longleftrightarrow> o_ledger ops = None"
    and rag_steps: "o_rag ops = Some rag \<Longrightarrow>
      stands (env_store (o_steps ops) \<noteq> None) (in_request_id inp) (obs w) sw n ''running'' types \<Longrightarrow>
      rag sw r w = ((err, r'), sw', w') \<Longrightarrow>
      request_type r' = request_type r \<and>
      (\<exists>k. stands (env_store (o_steps ops) \<noteq> None) (in_request_id inp) (obs w') sw' n ''running''
              (types @ take k [StepRetrieve, StepRerank]) \<and> (err = None \<longrightarrow> k = 2))"
begin

lemma pair_keeps:
  "o_evaluate ops r w = (d, w') \<Longrightarrow> obs w' = obs w"
  "o_route ops r st w = (rt, w') \<Longrightarrow> obs w' = obs w"
  "o_execute ops r p fb w = (ex, w') \<Longrightarrow> obs w' = obs w"
  "o_now ops w = (t, w') \<Longrightarrow> obs w' = obs w"
  using evaluate_keeps[of r w] route_keeps[of r st w] execute_keeps[of r p fb w] now_keeps[of w]
  by auto

lemma optional_keeps:
  "obs (note_timeout ops e w) = obs w" "obs (emit_trace inp b res w) = obs w"
  using note_keeps[of _ e w] emit_keeps[of _ b res w]
  by (auto simp: note_timeout_def emit_trace_def split: option.split)

lemma fail_stands: "pos sw w n s types \<Longrightarrow> pos sw (failLedger ops (in_request_id inp) w) n ''failed'' types"
  using ledger_fails[of _ w] by (auto simp: failLedger_def stands_def store_iff_ledger split: option.split)

lemma plain_step_stands:
  assumes "plain_step ops ty be m out sw w = (err, sw', w')" "pos sw w n s types"
  shows "pos sw' w' n s (types @ [ty])"
proof -
  obtain u where "StepRun (o_steps ops) ty be m (\<lambda>w. ((fst out, snd out, ()), w)) sw w = ((err, u), sw', w')"
    using assms(1) by (auto simp: plain_step_def split: prod.splits)
  from step_stands[OF this assms(2)] show ?thesis by simp
qed

abbreviation fin :: "string \<Rightarrow> 32 word \<Rightarrow> result \<Rightarrow> StepWriter option \<Rightarrow> 'w \<Rightarrow> bool" where
  "fin ty n res sw w \<equiv> ends stored (in_request_id inp) ty n res sw (obs w)"

lemma run_backend_ends:
  assumes "run_backend ops inp pd degrade health primary req sw w = (res, sw', w')"
    and "pos sw w n ''running'' types" "request_type req \<noteq> RequestTypeAgent"
    and "ExecutionPlanForRequestType (request_type req) = types @ [StepBackendCall, StepFinalize]"
  shows "fin (request_type req) n res sw' w'"
proof -
  define fb where "fb = (case o_fallback ops of None \<Rightarrow> [] | Some f \<Rightarrow> f (backend_name primary) health)"
  obtain start w1 where w1: "o_now ops w = (start, w1)" by (cases "o_now ops w")
  define w2 where "w2 = (case o_slo_start ops of None \<Rightarrow> w1 | Some f \<Rightarrow> f (in_request_id inp) w1)"
  let ?fn = "\<lambda>w. case o_execute ops req primary fb w of
      ((res, Some e), w') \<Rightarrow> ((Some [(''status'', VStr (ex_status res))], Some e, res), w')
    | ((res, None), w') \<Rightarrow>
        ((Some [(''status'', VStr (ex_status res)), (''backend'', VStr (ex_backend_name res))], None, res), w')"
  obtain err ex sw1 w3 where st: "StepRun (o_steps ops) StepBackendCall (backend_name primary)
      [(''primary'', VStr (backend_name primary))] ?fn sw w2 = ((err, ex), sw1, w3)"
    by (rule step_result_cases)
  have "obs w2 = obs w" using pair_keeps(4)[OF w1] slo_keeps by (auto simp: w2_def split: option.split)
  then have "pos sw w2 n ''running'' types" using assms(2) by simp
  then have p3: "pos sw1 w3 n ''running'' (types @ [StepBackendCall])"
    by (rule step_stands[OF st]) (auto split: prod.splits option.splits dest: pair_keeps(3))
  have pre: "prefix (types @ [StepBackendCall]) (ExecutionPlanForRequestType (request_type req))"
    unfolding assms(4) by simp
  note run = assms(1)[unfolded run_backend_def Let_def, folded fb_def, unfolded w1 prod.case,
      folded w2_def, unfolded st prod.case]
  show ?thesis
  proof (cases err)
    case (Some e)
    then have "\<exists>f. res = Inl f" "sw' = sw1"
      "obs w' = obs (failLedger ops (in_request_id inp) (note_timeout ops e w3))"
      using run by (auto simp: deadline_failure_def mk_failure_def optional_keeps split: option.splits)
    moreover have "pos sw1 (failLedger ops (in_request_id inp) (note_timeout ops e w3)) n ''failed''
        (types @ [StepBackendCall])"
      using p3 by (intro fail_stands) (simp add: optional_keeps)
    ultimately show ?thesis using pre by (auto intro: ends_failure)
  next
    case None
    obtain err2 sw2 w4 where fn: "plain_step ops StepFinalize (ex_backend_name ex)
        [(''status'', VStr (ex_status ex))] (Some [(''ok'', VBool True)], None) sw1 w3 = (err2, sw2, w4)"
      by (rule prod_cases3)
    have p4: "pos sw2 w4 n ''running'' (types @ [StepBackendCall, StepFinalize])"
      using plain_step_stands[OF fn p3] by simp
    have r: "sw' = sw2" "w' = (case o_ledger ops of None \<Rightarrow> w4
        | Some l \<Rightarrow> ol_success l (in_request_id inp) (ex_backend_name ex) (reason primary) w4)"
      "\<exists>su. res = Inr su \<and> su_req su = req"
      using run None fn by auto
    have "pos sw2 w' n ''success'' (types @ [StepBackendCall, StepFinalize])"
      using p4 ledger_succeeds unfolding r(2) by (auto simp: stands_def store_iff_ledger split: option.split)
    then show ?thesis using r(1,3) assms(3,4) by (auto simp: ends_def)
  qed
qed

lemma plan_parts:
  "prefix [StepNormalize] (ExecutionPlanForRequestType ty)"
  "prefix [StepNormalize, StepPolicyCheck] (ExecutionPlanForRequestType ty)"
  "ty \<noteq> RequestTypeAgent \<Longrightarrow>
     prefix [StepNormalize, StepPolicyCheck, StepAdmission] (ExecutionPlanForRequestType ty)"
  "ty \<noteq> RequestTypeAgent \<Longrightarrow>
     prefix [StepNormalize, StepPolicyCheck, StepAdmission, StepRoute] (ExecutionPlanForRequestType ty)"
  by (simp_all add: ExecutionPlanForRequestType_def)

abbreviation routed :: "string list" where
  "routed \<equiv> [StepNormalize, StepPolicyCheck, StepAdmission, StepRoute]"

lemma run_retrieval_ends:
  assumes "run_retrieval ops inp pd degrade health primary req sw w = (res, sw', w')"
    and "pos sw w n ''running'' routed" "request_type req \<noteq> RequestTypeAgent"
    and "o_rag ops \<noteq> None"
  shows "fin (request_type req) n res sw' w'"
proof (cases "request_type req = RequestTypeRAG")
  case False
  then have "run_backend ops inp pd degrade health primary req sw w = (res, sw', w')"
    using assms(1) by (simp add: run_retrieval_def)
  moreover have "ExecutionPlanForRequestType (request_type req) = routed @ [StepBackendCall, StepFinalize]"
    using False assms(3) by (simp add: ExecutionPlanForRequestType_def)
  ultimately show ?thesis using run_backend_ends assms(2,3) by blast
next
  case True
  obtain rag where rag: "o_rag ops = Some rag" using assms(4) by auto
  obtain err req' sw1 w1 where r: "rag sw req w = ((err, req'), sw1, w1)" by (rule step_result_cases)
  have plan: "ExecutionPlanForRequestType (request_type req)
      = (routed @ [StepRetrieve, StepRerank]) @ [StepBackendCall, StepFinalize]"
    using True by (simp add: ExecutionPlanForRequestType_def RequestTypeRAG_def RequestTypeAgent_def)
  from rag_steps[OF rag assms(2) r] obtain k where
    k: "request_type req' = request_type req"
      "pos sw1 w1 n ''running'' (routed @ take k [StepRetrieve, StepRerank])" "err = None \<longrightarrow> k = 2"
    by blast
  note run = assms(1)[unfolded run_retrieval_def, unfolded rag True, simplified, unfolded r prod.case]
  show ?thesis
  proof (cases err)
    case None
    then have "run_backend ops inp pd degrade health primary req' sw1 w1 = (res, sw', w')"
      using run by simp
    moreover have "pos sw1 w1 n ''running'' (routed @ [StepRetrieve, StepRerank])"
      using k None by simp
    ultimately show ?thesis
      using run_backend_ends[of pd degrade health primary req' sw1 w1 res sw' w'] plan k(1) assms(3) by simp
  next
    case (Some e)
    then have "\<exists>f. res = Inl f" "sw' = sw1" "obs w' = obs (failLedger ops (in_request_id inp) w1)"
      using run by (auto simp: mk_failure_def optional_keeps Let_def split: option.splits)
    moreover have "pos sw1 (failLedger ops (in_request_id inp) w1) n ''failed''
        (routed @ take k [StepRetrieve, StepRerank])"
      using k(2) by (rule fail_stands)
    moreover have "prefix (routed @ take k [StepRetrieve, StepRerank]) (ExecutionPlanForRequestType (request_type req))"
      unfolding plan by (cases k; cases "k - 1") auto
    ultimately show ?thesis by (auto intro: ends_failure)
  qed
qed

lemma run_admitted_ends:
  assumes "run_admitted ops inp cached pd degrade req sw w = (res, sw', w')"
    and "pos sw w n ''running'' [StepNormalize, StepPolicyCheck]" "request_type req \<noteq> RequestTypeAgent"
    and "o_rag ops \<noteq> None" "o_cached_health ops = Some cached"
  shows "fin (request_type req) n res sw' w'"
proof -
  obtain e1 sw1 w1 where a: "plain_step ops StepAdmission [] [(''queue_depth'', VInt (o_inflight ops w))]
      (Some [(''overload_degrade'', VBool degrade)], None) sw w = (e1, sw1, w1)" by (rule prod_cases3)
  obtain health w2 where h: "cached w1 = (health, w2)" by (cases "cached w1")
  let ?st = "\<lparr>queue_depth = o_inflight ops w2, backend_health = health,
      recent_timeout_spike = False, overload_degrade = degrade\<rparr>"
  obtain route w3 where r: "o_route ops req ?st w2 = (route, w3)" by (cases "o_route ops req ?st w2")
  have "obs w3 = obs w1" using pair_keeps(2)[OF r] health_keeps[OF assms(5), of w1] h by simp
  then have p3: "pos sw1 w3 n ''running'' [StepNormalize, StepPolicyCheck, StepAdmission]"
    using plain_step_stands[OF a assms(2)] by simp
  note run = assms(1)[unfolded run_admitted_def Let_def, unfolded a prod.case, unfolded h prod.case,
      unfolded r prod.case]
  show ?thesis
  proof (cases route)
    case (Inl e)
    then have "\<exists>f. res = Inl f" "sw' = sw1" "obs w' = obs (failLedger ops (in_request_id inp) w3)"
      using run by (auto simp: deadline_failure_def mk_failure_def optional_keeps split: option.splits)
    moreover note fail_stands[OF p3] plan_parts(3)[OF assms(3)]
    ultimately show ?thesis by (auto intro: ends_failure)
  next
    case (Inr primary)
    obtain e4 sw2 w4 where s: "plain_step ops StepRoute (backend_name primary)
        [(''reason'', VStr (reason primary))]
        (Some [(''backend'', VStr (backend_name primary)), (''estimated_cost'', VFloat (estimated_cost primary))],
          None) sw1 w3 = (e4, sw2, w4)" by (rule prod_cases3)
    have p4: "pos sw2 w4 n ''running'' routed" using plain_step_stands[OF s p3] by simp
    obtain w5 where w5: "run_retrieval ops inp pd degrade health primary req sw2 w5 = (res, sw', w')"
      "obs w5 = obs w4"
      using run ledger_policy[of _ _ _ _ w4] unfolding Inr sum.case s prod.case
      by (auto split: option.splits)
    with run_retrieval_ends[OF w5(1)] p4 assms(3,4) show ?thesis by simp
  qed
qed

lemma stands_slots: "stands st i (ob\<lparr>ob_slots := m\<rparr>) sw m s types \<longleftrightarrow> stands st i ob sw (ob_slots ob) s types"
  by (simp add: stands_def)

lemma release_ends: "fin ty (n + 1) res sw w \<Longrightarrow> fin ty n res sw (o_release ops w)"
  by (auto simp: ends_def release_gives stands_def split: sum.splits)

lemma run_allowed_ends:
  assumes "run_allowed ops inp pd req sw w = (res, sw', w')"
    and "pos sw w n ''running'' [StepNormalize, StepPolicyCheck]" "configured ops"
  shows "fin (request_type req) n res sw' w'"
proof (cases "request_type req = RequestTypeAgent")
  case True
  obtain e1 sw1 w1 where a: "plain_step ops StepAgentStub [] [(''pipeline'', VStr (pipeline_ref req))]
      (None, Some (ErrText ''agent execution not implemented'')) sw w = (e1, sw1, w1)" by (rule prod_cases3)
  have p1: "pos sw1 w1 n ''running'' (ExecutionPlanForRequestType (request_type req))"
    using plain_step_stands[OF a assms(2)] True by (simp add: ExecutionPlanForRequestType_def)
  have "\<exists>f. res = Inl f" "sw' = sw1" "obs w' = obs (failLedger ops (in_request_id inp) w1)"
    using assms(1)[unfolded run_allowed_def, unfolded a] True
    by (auto simp: mk_failure_def optional_keeps Let_def)
  with fail_stands[OF p1] show ?thesis by (auto intro: ends_failure)
next
  case False
  obtain beg cached fb where c: "o_begin ops = Some beg" "o_cached_health ops = Some cached"
    "o_fallback ops = Some fb" "o_rag ops \<noteq> None" using assms(3) by (auto simp: configured_def)
  obtain degrade rej w1 where b: "beg w = ((degrade, rej), w1)" by (metis surj_pair)
  note run = assms(1)[unfolded run_allowed_def, unfolded c, simplified False if_False, simplified, unfolded b]
  show ?thesis
  proof (cases rej)
    case True
    then have p1: "pos sw w1 n ''running'' [StepNormalize, StepPolicyCheck]"
      using begin_takes[OF c(1), of w] b assms(2) by simp
    have "\<exists>f. res = Inl f" "sw' = sw" "obs w' = obs (failLedger ops (in_request_id inp) w1)"
      using run True by (auto simp: mk_failure_def optional_keeps)
    with fail_stands[OF p1] plan_parts(2) show ?thesis by (auto intro: ends_failure)
  next
    case rej: False
    then have p1: "pos sw w1 (n + 1) ''running'' [StepNormalize, StepPolicyCheck]"
      using begin_takes[OF c(1), of w] b assms(2) by (simp add: stands_def)
    obtain w2 where "run_admitted ops inp cached pd degrade req sw w1 = (res, sw', w2)" "w' = o_release ops w2"
      using run rej by (auto split: prod.splits)
    with run_admitted_ends[OF this(1) p1 False c(4,2)] release_ends show ?thesis by simp
  qed
qed

text \<open>The whole pipeline, started for a request that has no row yet and with a fresh writer.\<close>

lemma Run_ends:
  assumes "Run ops inp w = (res, sw', w')" "configured ops"
    and "in_sw inp = Some \<lparr>sw_request_id = in_request_id inp, sw_tenant_id = t, sw_next = 0\<rparr>"
    and "stored \<longrightarrow> ob_status (obs w) = None"
  shows "fin (request_type (NormalizeAIRequest (in_req inp))) (ob_slots (obs w)) res sw' w'"
proof -
  let ?req = "in_req inp" and ?n = "ob_slots (obs w)"
  obtain ledgerAt w1 where n: "o_now ops w = (ledgerAt, w1)" by (cases "o_now ops w")
  define w2 where "w2 = (case o_ledger ops of None \<Rightarrow> w1
      | Some l \<Rightarrow> ol_create l (in_trace_id inp) (in_request_id inp) ?req ledgerAt w1)"
  have p2: "pos (in_sw inp) w2 ?n ''running'' []"
    using assms(3,4) pair_keeps(4)[OF n] ledger_creates[of _ w1]
    by (auto simp: w2_def stands_def store_iff_ledger split: option.split)
  obtain e1 sw1 w3 where s: "plain_step ops StepNormalize []
      [(''request_type'', VStr (request_type ?req)), (''pipeline_ref'', VStr (pipeline_ref ?req))]
      (Some [(''ok'', VBool True)], None) (in_sw inp) w2 = (e1, sw1, w3)" by (rule prod_cases3)
  have p3: "pos sw1 w3 ?n ''running'' [StepNormalize]" using plain_step_stands[OF s p2] by simp
  obtain d w4 where d: "o_evaluate ops ?req w3 = (d, w4)" by (cases "o_evaluate ops ?req w3")
  have p4: "pos sw1 w4 ?n ''running'' [StepNormalize]" using p3 pair_keeps(1)[OF d] by simp
  note run = assms(1)[unfolded Run_def Let_def, unfolded n prod.case, folded w2_def,
      unfolded s prod.case, unfolded d prod.case]
  show ?thesis
  proof (cases d)
    case (Inl e)
    then have "\<exists>f. res = Inl f" "sw' = sw1" "obs w' = obs (failLedger ops (in_request_id inp) w4)"
      using run by (auto simp: deadline_failure_def mk_failure_def optional_keeps split: option.splits)
    with fail_stands[OF p4] plan_parts(1) show ?thesis by (auto intro: ends_failure)
  next
    case (Inr pd)
    let ?out = "if \<not> allowed pd
        then (Some [(''allowed'', VBool False), (''reason'', VStr (pd_reason pd))],
              Some (ErrText (''policy rejected: '' @ pd_reason pd)))
        else (Some [(''allowed'', VBool True), (''reason'', VStr (pd_reason pd))], None)"
    obtain err sw2 w5 where q: "plain_step ops StepPolicyCheck [] [(''tenant_id'', VStr (tenant_id ?req))]
        ?out sw1 w4 = (err, sw2, w5)" by (rule prod_cases3)
    have p5: "pos sw2 w5 ?n ''running'' [StepNormalize, StepPolicyCheck]"
      using plain_step_stands[OF q p4] by simp
    note run2 = run[unfolded Inr sum.case, unfolded q prod.case]
    show ?thesis
    proof (cases err)
      case None
      then have "run_allowed ops inp pd (normalized pd) sw2 w5 = (res, sw', w')" using run2 by simp
      moreover have "allowed pd" using plain_step_err[OF q] None by (auto split: if_splits)
      moreover note run_allowed_ends[OF calculation(1) p5 assms(2)]
      ultimately show ?thesis using evaluate_type[of ?req w3 pd] d Inr by simp
    next
      case (Some e)
      then have "\<exists>f. res = Inl f" "sw' = sw2" "obs w' = obs (failLedger ops (in_request_id inp) w5)"
        using run2 by (auto simp: mk_failure_def optional_keeps)
      with fail_stands[OF p5] plan_parts(2) show ?thesis by (auto intro: ends_failure)
    qed
  qed
qed

end

section \<open>Status codes\<close>

definition pipeline_codes :: "(int \<times> string) set" where
  "pipeline_codes =
     {(429, ''policy_rejected''), (500, ''policy_error''), (500, ''route_error''),
      (501, ''agent_not_implemented''), (502, ''execution_failed''), (503, ''overload''),
      (504, ''gateway_timeout'')}"

text \<open>
  A failure the pipeline makes itself, with 504 only for a context past its deadline, or the one it
  reads from an error that the retrieval pipeline returned.
\<close>

definition rag_failure :: "'w orchestrator \<Rightarrow> Failure \<Rightarrow> bool" where
  "rag_failure ops f \<longleftrightarrow>
     (\<exists>rag parse sw r w e. o_rag ops = Some rag \<and> o_parse_rag ops = Some parse
        \<and> fst (fst (rag sw r w)) = Some e
        \<and> parse e = Some (f_trace_result f, f_http_status f, f_error_code f, f_message f))"

definition coded :: "'w orchestrator \<Rightarrow> result \<Rightarrow> bool" where
  "coded ops res \<longleftrightarrow>
     (case res of
        Inr _ \<Rightarrow> True
      | Inl f \<Rightarrow>
          rag_failure ops f
          \<or> (f_http_status f, f_error_code f) \<in> pipeline_codes
             \<and> (f_http_status f = 504 \<longrightarrow> (\<exists>w c. o_ctx_err ops w = Some c \<and> is_deadline c)))"

lemma coded_Inr [simp]: "coded ops (Inr s)"
  by (simp add: coded_def)

lemma coded_failure:
  "(st, code) \<in> pipeline_codes \<Longrightarrow> st \<noteq> 504 \<Longrightarrow> coded ops (mk_failure st code msg tr b)"
  by (simp add: coded_def mk_failure_def)

lemma coded_parsed:
  "o_rag ops = Some rag \<Longrightarrow> rag sw r w = ((Some e, r'), sw', w') \<Longrightarrow> o_parse_rag ops = Some p \<Longrightarrow>
     p e = Some (tr, st, code, msg) \<Longrightarrow> coded ops (mk_failure st code msg tr b)"
  unfolding coded_def mk_failure_def rag_failure_def by (simp, metis fst_conv)

lemma coded_deadline:
  assumes "InferBudgetHTTPStatus (o_ctx_err ops w) (Some e) = Some sc"
  shows "coded ops (deadline_failure sc b)"
proof -
  obtain c where "o_ctx_err ops w = Some c" "is_deadline c" "sc = (504, ''gateway_timeout'')"
    using assms by (auto simp: InferBudgetHTTPStatus_def split: if_splits option.splits)
  then show ?thesis by (auto simp: coded_def deadline_failure_def mk_failure_def pipeline_codes_def)
qed

lemmas coded_here = coded_failure[unfolded pipeline_codes_def]

lemma run_backend_coded: "coded ops (fst (run_backend ops inp pd degrade health primary req sw w))"
  by (auto simp: run_backend_def Let_def coded_here coded_deadline split: prod.split option.split)

lemma run_retrieval_coded: "coded ops (fst (run_retrieval ops inp pd degrade health primary req sw w))"
  by (auto simp: run_retrieval_def Let_def coded_here run_backend_coded
      split: prod.split option.split if_splits intro: coded_parsed)

lemma run_admitted_coded: "coded ops (fst (run_admitted ops inp cached pd degrade req sw w))"
  by (auto simp: run_admitted_def Let_def coded_here coded_deadline run_retrieval_coded
      split: prod.split option.split sum.split)

lemma run_allowed_coded: "coded ops (fst (run_allowed ops inp pd req sw w))"
  using run_admitted_coded[of ops]
  by (auto simp: run_allowed_def Let_def coded_here split: prod.split option.split bool.split)
     (metis fst_conv)+

lemma Run_coded: "coded ops (fst (Run ops inp w))"
  by (auto simp: Run_def Let_def coded_here coded_deadline run_allowed_coded
      split: prod.split option.split sum.split)

section \<open>Properties\<close>

text \<open>
  Every failure of the pipeline has one of seven status/code pairs (or the pair of the RAG
  error it reports), and 504 is answered only when the inference context is past its deadline.
\<close>

lemma pipeline_status_codes:
  "coded ops (fst (Run ops inp w))"
  by (rule Run_coded)

text \<open>
  C40. When a backend adapter reports its timeout as an upstream error (as the HTTP adapters do),
  the answer is 502 \<open>execution_failed\<close>, also when it was the inference budget that ran out.
\<close>

theorem upstream_timeout_is_502:
  assumes "\<And>w. snd (fst (o_execute ops req primary
      (case o_fallback ops of None \<Rightarrow> [] | Some f \<Rightarrow> f (backend_name primary) health) w)) = Some e"
    and "as_upstream e \<noteq> None"
  shows "\<exists>f. fst (run_backend ops inp pd degrade health primary req sw w) = Inl f
     \<and> f_http_status f = 502 \<and> f_error_code f = ''execution_failed''"
proof -
  define fb where "fb = (case o_fallback ops of None \<Rightarrow> [] | Some f \<Rightarrow> f (backend_name primary) health)"
  have nd: "\<not> is_deadline e" using assms(2) upstream_not_deadline by auto
  let ?fn = "\<lambda>w. case o_execute ops req primary fb w of
      ((res, Some e), w') \<Rightarrow> ((Some [(''status'', VStr (ex_status res))], Some e, res), w')
    | ((res, None), w') \<Rightarrow>
        ((Some [(''status'', VStr (ex_status res)), (''backend'', VStr (ex_backend_name res))], None, res), w')"
  have fn: "\<exists>out q w'. ?fn v = ((out, Some e, q), w')" for v
    using assms(1)[of v, folded fb_def] by (cases "o_execute ops req primary fb v") auto
  have st: "fst (fst (StepRun (o_steps ops) ty b m ?fn sw v)) = Some e" for ty b m v
  proof (cases sw)
    case None
    then show ?thesis using fn[of v] by (auto simp: StepRun_def)
  next
    case (Some s)
    obtain t0 v1 where "env_tick (o_steps ops) v = (t0, v1)" by (cases "env_tick (o_steps ops) v")
    then show ?thesis using Some fn[of v1]
      by (auto simp: StepRun_def Let_def split: prod.split option.split)
  qed
  obtain start w1 where w1: "o_now ops w = (start, w1)" by (cases "o_now ops w")
  define w2 where "w2 = (case o_slo_start ops of None \<Rightarrow> w1 | Some f \<Rightarrow> f (in_request_id inp) w1)"
  obtain ex sw1 w3 where step: "StepRun (o_steps ops) StepBackendCall (backend_name primary)
      [(''primary'', VStr (backend_name primary))] ?fn sw w2 = ((Some e, ex), sw1, w3)"
    using st[of StepBackendCall "backend_name primary" "[(''primary'', VStr (backend_name primary))]" w2]
    by (cases rule: step_result_cases[of "StepRun (o_steps ops) StepBackendCall (backend_name primary)
      [(''primary'', VStr (backend_name primary))] ?fn sw w2"]) auto
  have "InferBudgetHTTPStatus c (Some e) = None" for c
    using nd by (simp add: InferBudgetHTTPStatus_def)
  then show ?thesis
    unfolding run_backend_def Let_def fb_def[symmetric] w1 prod.case w2_def[symmetric] step
    by (simp add: mk_failure_def)
qed

text \<open>
  A ledger that refuses writes under a context past its deadline (as a \<open>database/sql\<close> store
  does, since \<open>Fail\<close> is called with the inference context) never learns of a deadline failure: the
  backend stage then leaves the world as it would without any ledger, the row still running.
\<close>

lemma deadline_failure_not_recorded:
  assumes "o_ledger ops = Some l" "\<And>w. o_ctx_err ops w \<noteq> None \<Longrightarrow> ol_fail l (in_request_id inp) w = w"
    and "\<And>w. o_ctx_err ops w = Some ErrDeadlineExceeded"
    and "run_backend ops inp pd degrade health primary req sw w = (Inl f, sw', w')"
  shows "run_backend (ops\<lparr>o_ledger := None\<rparr>) inp pd degrade health primary req sw w = (Inl f, sw', w')"
proof -
  have "failLedger ops (in_request_id inp) v = v" for v
    using assms(1-3) by (simp add: failLedger_def)
  moreover have "failLedger (ops\<lparr>o_ledger := None\<rparr>) i v = v" for i v by (simp add: failLedger_def)
  moreover have "note_timeout (ops\<lparr>o_ledger := None\<rparr>) e v = note_timeout ops e v" for e v
    by (simp add: note_timeout_def)
  ultimately show ?thesis
    using assms(4) by (auto simp: run_backend_def Let_def split: prod.splits option.splits)
qed

section \<open>Witnesses\<close>

text \<open>A pipeline whose backend fails with \<open>e\<close>, its context in the state \<open>ctx\<close>.\<close>

definition failing_orchestrator :: "goerr \<Rightarrow> goerr option \<Rightarrow> nat orchestrator" where
  "failing_orchestrator e ctx =
     \<lparr>o_evaluate = (\<lambda>r w. (Inr \<lparr>allowed = True, pd_reason = [], normalized = r\<rparr>, w)),
      o_route = (\<lambda>r st w. (Inr no_engine_route, w)),
      o_execute = (\<lambda>r p fb w. ((\<lparr>ex_status = ''error'', ex_backend_name = backend_name p, ex_output = None,
         ex_used_fallback = False, ex_error = Some e, ex_timing = None\<rparr>, Some e), w + 1)),
      o_slo_start = None,
      o_ledger = Some \<lparr>ol_create = (\<lambda>t i r now w. w), ol_fail = (\<lambda>i w. w), ol_policy = (\<lambda>i s r b w. w),
         ol_success = (\<lambda>i b r w. w)\<rparr>,
      o_cached_health = Some (\<lambda>w. (None, w)), o_inflight = (\<lambda>w. 0),
      o_begin = Some (\<lambda>w. ((False, False), w)), o_release = id, o_rag = None,
      o_fallback = Some (\<lambda>b h. []), o_note_timeout = None, o_parse_rag = None,
      o_ctx_err = (\<lambda>w. ctx), o_now = (\<lambda>w. (0, w)),
      o_steps = \<lparr>env_store = None, env_onstep = None, env_tick = (\<lambda>w. (0, w))\<rparr>\<rparr>"

definition bare_input :: "nat run_input" where
  "bare_input = \<lparr>in_trace_id = ''t'', in_request_id = ''r'', in_req = zero_request, in_sw = None, in_emit = None\<rparr>"

definition bare_decision :: PolicyDecision where
  "bare_decision = \<lparr>allowed = True, pd_reason = [], normalized = zero_request\<rparr>"

theorem upstream_timeout_is_502_witness:
  "\<exists>f. fst (run_backend (failing_orchestrator (ErrUpstream KindTimeout ''slow'') (Some ErrDeadlineExceeded))
       bare_input bare_decision False None no_engine_route zero_request None 0) = Inl f
     \<and> f_http_status f = 502 \<and> f_error_code f = ''execution_failed''"
  by (rule upstream_timeout_is_502[where e = "ErrUpstream KindTimeout ''slow''"])
     (simp_all add: failing_orchestrator_def)

lemma deadline_failure_not_recorded_witness:
  "\<exists>f sw' w'. run_backend ((failing_orchestrator ErrDeadlineExceeded (Some ErrDeadlineExceeded))\<lparr>o_ledger := None\<rparr>)
       bare_input bare_decision False None no_engine_route zero_request None 0 = (Inl f, sw', w')
     \<and> f_http_status f = 504"
proof -
  let ?ops = "failing_orchestrator ErrDeadlineExceeded (Some ErrDeadlineExceeded)"
  obtain f sw' w' where r: "run_backend ?ops bare_input bare_decision False None no_engine_route zero_request None 0
      = (Inl f, sw', w')" "f_http_status f = 504"
    by (simp add: run_backend_def failing_orchestrator_def bare_input_def StepRun_def failLedger_def note_timeout_def
        InferBudgetHTTPStatus_def deadline_failure_def mk_failure_def emit_trace_def Let_def)
  have "o_ledger ?ops = Some (the (o_ledger ?ops))" by (simp add: failing_orchestrator_def)
  from deadline_failure_not_recorded[OF this _ _ r(1)] r(2) show ?thesis
    by (auto simp: failing_orchestrator_def)
qed

end
