(* ===== verification/Policy.thy ===== *)
theory Policy
  imports Config_Check
begin

text \<open>
  The policy engine, \<open>internal/policy/basic_engine.go\<close>: tenant lookup, agent limits, budget and
  the per-tenant rate limit of one-second windows. State: \<open>BasicEngine\<close>. The reading of
  \<open>time.Now().Unix()\<close> is the argument \<open>now\<close>. The interface of a windowed rate limiter is the
  locale \<open>rate_limiter\<close>; the engine's limiter interprets it.
\<close>

section \<open>The interface of a windowed rate limiter\<close>

text \<open>
  \<open>allow now k limit s\<close> asks for one unit of key \<open>k\<close> in second \<open>now\<close>; \<open>used s sec k\<close> is what
  the state has counted for \<open>k\<close> in second \<open>sec\<close>, \<open>clock s\<close> the latest second counted.
\<close>

locale rate_limiter =
  fixes allow :: "int \<Rightarrow> 'k \<Rightarrow> int \<Rightarrow> 's \<Rightarrow> bool \<times> 's"
    and used :: "'s \<Rightarrow> int \<Rightarrow> 'k \<Rightarrow> int"
    and clock :: "'s \<Rightarrow> int"
  assumes unlimited: "limit \<le> 0 \<Longrightarrow> allow now k limit s = (True, s)"
    and grant_iff: "0 < limit \<Longrightarrow> fst (allow now k limit s) \<longleftrightarrow> used s now k < limit"
    and grant_counts: "0 < limit \<Longrightarrow> fst (allow now k limit s) \<Longrightarrow>
      used (snd (allow now k limit s)) now k' = used s now k' + (if k' = k then 1 else 0)"
    and refuse_keeps: "0 < limit \<Longrightarrow> \<not> fst (allow now k limit s) \<Longrightarrow> snd (allow now k limit s) = s"
    and used_future: "clock s < sec \<Longrightarrow> used s sec k = 0"
    and clock_allow: "clock s \<le> now \<Longrightarrow> clock (snd (allow now k limit s)) \<le> now"

text \<open>
  A run of a client: each event is a second, a key and whether the client gets as far as asking
  the limiter. The result lists the seconds and keys of the grants.
\<close>

fun run_limiter ::
  "(int \<Rightarrow> 'k \<Rightarrow> int \<Rightarrow> 's \<Rightarrow> bool \<times> 's) \<Rightarrow> ('k \<Rightarrow> int) \<Rightarrow> (int \<times> 'k \<times> bool) list \<Rightarrow> 's
     \<Rightarrow> (int \<times> 'k) list" where
  "run_limiter allow quota [] s = []"
| "run_limiter allow quota ((now, k, asks) # evs) s =
     (if asks then
        (let (ok, s') = allow now k (quota k) s
         in (if ok then [(now, k)] else []) @ run_limiter allow quota evs s')
      else run_limiter allow quota evs s)"

context rate_limiter begin

lemma allow_other_key:
  "0 < limit \<Longrightarrow> k' \<noteq> k \<Longrightarrow> used (snd (allow now k limit s)) now k' = used s now k'"
  using grant_counts[of limit now k s k'] refuse_keeps[of limit now k s]
  by (cases "fst (allow now k limit s)") auto

lemma first_granted: "clock s < now \<Longrightarrow> fst (allow now k limit s)"
  using unlimited[of limit now k s] grant_iff[of limit now k s] used_future[of s now k]
  by (cases "0 < limit") auto

text \<open>Along a run with a monotone clock, the grants of a key in one second stay in its limit.\<close>

lemma used_step_same:
  "used (snd (allow now k limit s)) now k'
     = used s now k' + (if 0 < limit \<and> fst (allow now k limit s) \<and> k' = k then 1 else 0)"
  using unlimited[of limit now k s] grant_counts[of limit now k s k'] refuse_keeps[of limit now k s]
  by (cases "0 < limit"; cases "fst (allow now k limit s)") auto

lemma run_times: "(sec, k) \<in> set (run_limiter allow quota evs s) \<Longrightarrow> \<exists>ev \<in> set evs. fst ev = sec"
  by (induction allow quota evs s rule: run_limiter.induct) (auto split: if_splits prod.splits)

lemma grants_plus_used:
  assumes "sorted (map fst evs)" "\<forall>ev \<in> set evs. clock s \<le> fst ev" "0 < quota k"
    "used s sec k \<le> quota k"
  shows "int (count_list (run_limiter allow quota evs s) (sec, k)) + used s sec k \<le> quota k"
  using assms
proof (induction evs arbitrary: s)
  case (Cons ev evs)
  obtain now k0 asks where ev: "ev = (now, k0, asks)" by (cases ev)
  have rest: "sorted (map fst evs)" "clock s \<le> now" "\<forall>e \<in> set evs. now \<le> fst e"
    using Cons.prems(1,2) ev by auto
  show ?case
  proof (cases "sec < now")
    case True
    have "\<forall>e \<in> set (ev # evs). sec < fst e" using True rest(3) ev by auto
    then have "(sec, k) \<notin> set (run_limiter allow quota (ev # evs) s)"
      using run_times[of sec k quota "ev # evs" s] by blast
    then have "count_list (run_limiter allow quota (ev # evs) s) (sec, k) = 0"
      by (simp add: count_list_0_iff)
    with Cons.prems(4) show ?thesis by simp
  next
    case False
    define s' where "s' = (if asks then snd (allow now k0 (quota k0) s) else s)"
    define g where "g = (asks \<and> fst (allow now k0 (quota k0) s) \<and> now = sec \<and> k0 = k)"
    have run: "count_list (run_limiter allow quota (ev # evs) s) (sec, k)
        = (if g then 1 else 0) + count_list (run_limiter allow quota evs s') (sec, k)"
      unfolding ev s'_def g_def by (auto simp: Let_def split: prod.splits)
    have "clock s' \<le> now" using clock_allow[OF rest(2)] rest(2) by (simp add: s'_def)
    then have clk: "\<forall>e \<in> set evs. clock s' \<le> fst e" using rest(3) by force
    have used': "used s' sec k = used s sec k + (if g then 1 else 0)"
    proof (cases "now = sec")
      case True
      then show ?thesis
        using used_step_same[of now k0 "quota k0" s k] Cons.prems(3) by (auto simp: s'_def g_def)
    next
      case False
      with \<open>\<not> sec < now\<close> have lt: "now < sec" by simp
      have "clock s' \<le> now" using clock_allow[OF rest(2)] rest(2) by (simp add: s'_def)
      then have "used s' sec k = 0" "used s sec k = 0"
        using used_future lt rest(2) by auto
      with False show ?thesis by (simp add: g_def)
    qed
    have "used s' sec k \<le> quota k"
    proof (cases g)
      case True
      then have "used s sec k < quota k"
        using grant_iff[of "quota k0" now k0 s] Cons.prems(3) by (auto simp: g_def)
      with used' True show ?thesis by simp
    qed (use used' Cons.prems(4) in simp)
    from Cons.IH[OF rest(1) clk Cons.prems(3) this] run used' show ?thesis by auto
  qed
qed simp

lemma grants_bounded:
  assumes "sorted (map fst evs)" "\<forall>ev \<in> set evs. clock s \<le> fst ev" "0 < quota k"
    "0 \<le> used s sec k" "used s sec k \<le> quota k"
  shows "int (count_list (run_limiter allow quota evs s) (sec, k)) \<le> quota k"
  using grants_plus_used[of evs s quota k sec, OF assms(1-3,5)] assms(4) by simp

end

section \<open>The engine\<close>

record BasicEngine =
  windowSecond :: int
  tenantCounts :: "(string \<times> int) list"

definition NewBasicEngine :: BasicEngine where
  "NewBasicEngine = \<lparr>windowSecond = 0, tenantCounts = []\<rparr>"

definition tenant_count :: "BasicEngine \<Rightarrow> string \<Rightarrow> int" where
  "tenant_count e t = (case map_of (tenantCounts e) t of None \<Rightarrow> 0 | Some n \<Rightarrow> n)"

definition allowByRateLimit :: "int \<Rightarrow> string \<Rightarrow> int \<Rightarrow> BasicEngine \<Rightarrow> bool \<times> BasicEngine" where
  "allowByRateLimit now tenant limit e =
     (if limit \<le> 0 then (True, e)
      else (let e1 = (if windowSecond e \<noteq> now
                      then e\<lparr>windowSecond := now, tenantCounts := []\<rparr> else e);
                current = tenant_count e1 tenant
            in if current \<ge> limit then (False, e1)
               else (True, e1\<lparr>tenantCounts := AList.update tenant (current + 1) (tenantCounts e1)\<rparr>)))"

text \<open>\<open>int(t)\<close> and \<open>float64(t)\<close> conversions of a context value; \<open>None\<close> is \<open>ok = false\<close>.\<close>

definition toInt :: "goval \<Rightarrow> int option" where
  "toInt v = (case v of VFloat x \<Rightarrow> Some (f_to_int x) | VInt n \<Rightarrow> Some n | VInt64 n \<Rightarrow> Some n
              | _ \<Rightarrow> None)"

definition toFloat :: "goval \<Rightarrow> rat option" where
  "toFloat v = (case v of VFloat x \<Rightarrow> Some x | VInt n \<Rightarrow> Some (f_of_int n) | _ \<Rightarrow> None)"

definition is_agent :: "AIRequest \<Rightarrow> bool" where
  "is_agent req \<longleftrightarrow> equal_fold (trim_space (request_type req)) RequestTypeAgent"

definition over_int :: "goval \<Rightarrow> int \<Rightarrow> int option" where
  "over_int v limit =
     (if 0 < limit then (case toInt v of Some n \<Rightarrow> if limit < n then Some n else None | None \<Rightarrow> None)
      else None)"

definition over_float :: "goval \<Rightarrow> rat \<Rightarrow> rat option" where
  "over_float v limit =
     (if 0 < limit then (case toFloat v of Some x \<Rightarrow> if limit < x then Some x else None | None \<Rightarrow> None)
      else None)"

text \<open>The first tool of the list that is not allowed; a non-string counts as the empty name.\<close>

definition bad_tool :: "string list \<Rightarrow> goval list \<Rightarrow> string option" where
  "bad_tool allowed_tools raw =
     map_option (\<lambda>v. trim_space (string_or_empty v))
       (find (\<lambda>v. trim_space (string_or_empty v) \<noteq> []
                \<and> trim_space (string_or_empty v) \<notin> set (map trim_space allowed_tools)) raw)"

definition validateAgentTenantLimits :: "AIRequest \<Rightarrow> TenantConfig \<Rightarrow> string option" where
  "validateAgentTenantLimits req t =
     (if \<not> is_agent req \<or> req_context req = None then None
      else (let ctx = obj_get (req_context req) in
        case over_int (ctx ''max_steps'') (t_max_steps t) of
          Some v \<Rightarrow> Some (''agent max_steps '' @ show_int v @ '' exceeds tenant limit ''
                          @ show_int (t_max_steps t))
        | None \<Rightarrow>
        (case over_int (ctx ''max_tool_calls'') (t_max_tool_calls t) of
          Some v \<Rightarrow> Some (''agent max_tool_calls '' @ show_int v @ '' exceeds tenant limit ''
                          @ show_int (t_max_tool_calls t))
        | None \<Rightarrow>
        (case over_float (ctx ''estimated_agent_cost'') (t_max_agent_cost t) of
          Some x \<Rightarrow> Some (''estimated agent cost '' @ show_2f x @ '' exceeds tenant limit ''
                          @ show_2f (t_max_agent_cost t))
        | None \<Rightarrow>
        (case (if t_allowed_tools t = [] then None
               else (case as_list (ctx ''tools'') of
                       Some raw \<Rightarrow> bad_tool (t_allowed_tools t) raw | None \<Rightarrow> None)) of
          Some s \<Rightarrow> Some (''tool '' @ quote s @ '' is not in tenant allowed_tools'')
        | None \<Rightarrow>
        (case over_int (ctx ''agent_timeout_ms'') (t_agent_timeout_ms t) of
          Some v \<Rightarrow> Some (''agent_timeout_ms '' @ show_int v @ '' exceeds tenant limit ''
                          @ show_int (t_agent_timeout_ms t))
        | None \<Rightarrow> None))))))"

definition estimateBudgetConsumption :: "AIRequest \<Rightarrow> rat" where
  "estimateBudgetConsumption req =
     (let maxTokens = (if opt_max_tokens (options req) \<le> 0 then 256 else opt_max_tokens (options req))
      in f_add 1 (f_div (f_of_int maxTokens) 256))"

text \<open>The request as the engine normalises it: the tenant's priority where none is given.\<close>

definition effective_request :: "TenantConfig \<Rightarrow> AIRequest \<Rightarrow> AIRequest" where
  "effective_request t req =
     NormalizeAIRequest (if priority req = [] then req\<lparr>priority := t_priority t\<rparr> else req)"

definition rejected :: "string \<Rightarrow> AIRequest \<Rightarrow> PolicyDecision" where
  "rejected msg req = \<lparr>allowed = False, pd_reason = msg, normalized = req\<rparr>"

definition agents_disabled_msg :: string where
  "agents_disabled_msg =
     ''agent requests are disabled (set features.agent_enabled=true to allow policy checks)''"

definition Evaluate ::
  "Config \<Rightarrow> int \<Rightarrow> AIRequest \<Rightarrow> BasicEngine \<Rightarrow> (goerr + PolicyDecision) \<times> BasicEngine" where
  "Evaluate cfg now req e =
     (case TenantByID cfg (tenant_id req) of
        None \<Rightarrow> (Inr (rejected ''unknown tenant'' zero_request), e)
      | Some t \<Rightarrow>
          (let n = effective_request t req in
           if is_agent n \<and> \<not> agent_enabled cfg then (Inr (rejected agents_disabled_msg n), e)
           else (case validateAgentTenantLimits n t of
             Some msg \<Rightarrow> (Inr (rejected msg n), e)
           | None \<Rightarrow>
             (let estimated = estimateBudgetConsumption n in
              if 0 < t_budget_per_request t \<and> t_budget_per_request t < estimated
              then (Inr (rejected (''budget exceeded: estimated='' @ show_2f estimated
                                   @ '' budget='' @ show_2f (t_budget_per_request t)) n), e)
              else (let (ok, e') = allowByRateLimit now (t_id t) (t_rate_limit_rps t) e
                    in if \<not> ok then (Inr (rejected ''rate limit exceeded'' n), e')
                       else (Inr \<lparr>allowed = True, pd_reason = ''allowed'', normalized = n\<rparr>, e'))))))"

section \<open>The engine's limiter meets the interface\<close>

definition window_used :: "BasicEngine \<Rightarrow> int \<Rightarrow> string \<Rightarrow> int" where
  "window_used e sec t = (if windowSecond e = sec then tenant_count e t else 0)"

lemma tenant_count_update:
  "tenant_count (e\<lparr>tenantCounts := AList.update k n (tenantCounts e)\<rparr>) k'
     = (if k' = k then n else tenant_count e k')"
  by (simp add: tenant_count_def update_conv)

lemma tenant_count_reset [simp]: "tenant_count (e\<lparr>windowSecond := w, tenantCounts := []\<rparr>) k = 0"
  by (simp add: tenant_count_def)

lemmas limiter_simps = allowByRateLimit_def window_used_def Let_def tenant_count_update

interpretation limiter: rate_limiter allowByRateLimit window_used windowSecond
proof unfold_locales
  fix limit now k s k'
  assume l: "(0 :: int) < limit" and g: "fst (allowByRateLimit now k limit s)"
  show "window_used (snd (allowByRateLimit now k limit s)) now k'
      = window_used s now k' + (if k' = k then 1 else 0)"
    using l g
    by (auto simp: limiter_simps tenant_count_def update_conv split: if_splits)
qed (auto simp: limiter_simps split: if_splits)

section \<open>The checks before the limiter\<close>

definition policy_guards :: "Config \<Rightarrow> AIRequest \<Rightarrow> bool" where
  "policy_guards cfg req =
     (case TenantByID cfg (tenant_id req) of
        None \<Rightarrow> False
      | Some t \<Rightarrow>
          (let n = effective_request t req in
             \<not> (is_agent n \<and> \<not> agent_enabled cfg)
             \<and> validateAgentTenantLimits n t = None
             \<and> \<not> (0 < t_budget_per_request t \<and> t_budget_per_request t < estimateBudgetConsumption n)))"

definition rate_quota :: "Config \<Rightarrow> string \<Rightarrow> int" where
  "rate_quota cfg i = (case TenantByID cfg i of None \<Rightarrow> 0 | Some t \<Rightarrow> t_rate_limit_rps t)"

definition is_allowed :: "goerr + PolicyDecision \<Rightarrow> bool" where
  "is_allowed r = (case r of Inr d \<Rightarrow> allowed d | Inl _ \<Rightarrow> False)"

lemma Evaluate_allowed_iff:
  "is_allowed (fst (Evaluate cfg now req e)) \<longleftrightarrow>
     policy_guards cfg req
     \<and> fst (allowByRateLimit now (tenant_id req) (rate_quota cfg (tenant_id req)) e)"
  using TenantByID_Some[of cfg "tenant_id req"]
  by (auto simp: Evaluate_def policy_guards_def rate_quota_def is_allowed_def rejected_def Let_def
      split: option.splits prod.splits if_splits)

lemma Evaluate_state:
  "snd (Evaluate cfg now req e) =
     (if policy_guards cfg req
      then snd (allowByRateLimit now (tenant_id req) (rate_quota cfg (tenant_id req)) e) else e)"
  using TenantByID_Some[of cfg "tenant_id req"]
  by (auto simp: Evaluate_def policy_guards_def rate_quota_def rejected_def Let_def
      split: option.splits prod.splits if_splits)

lemma Evaluate_Inr: "\<exists>d. fst (Evaluate cfg now req e) = Inr d"
  by (auto simp: Evaluate_def Let_def split: option.splits prod.splits if_splits)

text \<open>A run of evaluations: the second, the tenant and whether the request was allowed.\<close>

fun run_policy :: "Config \<Rightarrow> (int \<times> AIRequest) list \<Rightarrow> BasicEngine \<Rightarrow> (int \<times> string \<times> bool) list" where
  "run_policy cfg [] e = []"
| "run_policy cfg ((now, req) # xs) e =
     (let (d, e') = Evaluate cfg now req e
      in (now, tenant_id req, is_allowed d) # run_policy cfg xs e')"

definition allowed_in :: "(int \<times> string \<times> bool) list \<Rightarrow> int \<Rightarrow> string \<Rightarrow> nat" where
  "allowed_in rs sec i = length (filter (\<lambda>r. r = (sec, i, True)) rs)"

lemma allowed_in_run:
  "allowed_in (run_policy cfg xs e) sec i =
     count_list (run_limiter allowByRateLimit (rate_quota cfg)
        (map (\<lambda>(now, req). (now, tenant_id req, policy_guards cfg req)) xs) e) (sec, i)"
proof (induction xs arbitrary: e)
  case (Cons x xs)
  obtain now req where x: "x = (now, req)" by (cases x)
  obtain d e' where ev: "Evaluate cfg now req e = (d, e')" by (cases "Evaluate cfg now req e")
  obtain ok e2 where al: "allowByRateLimit now (tenant_id req) (rate_quota cfg (tenant_id req)) e = (ok, e2)"
    by (cases "allowByRateLimit now (tenant_id req) (rate_quota cfg (tenant_id req)) e")
  have "is_allowed d \<longleftrightarrow> policy_guards cfg req \<and> ok" "e' = (if policy_guards cfg req then e2 else e)"
    using Evaluate_allowed_iff[of cfg now req e] Evaluate_state[of cfg now req e] ev al by auto
  then show ?case using Cons.IH[of e'] x ev al by (auto simp: allowed_in_def)
qed (simp add: allowed_in_def)

section \<open>Properties\<close>

lemma engine_limit:
  assumes "sorted (map fst xs)" "\<forall>x \<in> set xs. 0 \<le> fst x"
    and "TenantByID cfg i = Some t" "0 < t_rate_limit_rps t"
  shows "int (allowed_in (run_policy cfg xs NewBasicEngine) sec i) \<le> t_rate_limit_rps t"
proof -
  let ?evs = "map (\<lambda>(now, req). (now, tenant_id req, policy_guards cfg req)) xs"
  have times: "map fst ?evs = map fst xs" by (simp add: case_prod_beta)
  have s: "sorted (map fst ?evs)" unfolding times by (rule assms(1))
  have c: "\<forall>ev \<in> set ?evs. windowSecond NewBasicEngine \<le> fst ev"
    using assms(2) by (auto simp: NewBasicEngine_def)
  have q: "rate_quota cfg i = t_rate_limit_rps t" using assms(3) by (simp add: rate_quota_def)
  have u: "window_used NewBasicEngine sec i = 0"
    by (simp add: window_used_def tenant_count_def NewBasicEngine_def)
  show ?thesis
    using limiter.grants_bounded[OF s c, of "rate_quota cfg" i sec] assms(4) u
    by (simp add: allowed_in_run q)
qed


text \<open>
  A rejected request costs nothing: it leaves the window and every counter as they were.
\<close>

lemma rejected_keeps_state:
  assumes "\<not> is_allowed (fst (Evaluate cfg now req e))"
  shows "snd (Evaluate cfg now req e) = e"
proof (cases "policy_guards cfg req")
  case True
  let ?q = "rate_quota cfg (tenant_id req)"
  have no: "\<not> fst (allowByRateLimit now (tenant_id req) ?q e)"
    using assms True by (simp add: Evaluate_allowed_iff)
  then have "0 < ?q" using limiter.unlimited[of ?q now "tenant_id req" e] by force
  from limiter.refuse_keeps[OF this no] True show ?thesis by (simp add: Evaluate_state)
qed (simp add: Evaluate_state)

text \<open>
  Tenants are isolated: evaluating a request of one tenant does not change whether a request
  of another tenant is allowed in the same second.
\<close>

lemma tenants_isolated:
  assumes "tenant_id other \<noteq> tenant_id req"
  shows "is_allowed (fst (Evaluate cfg now other (snd (Evaluate cfg now req e))))
           = is_allowed (fst (Evaluate cfg now other e))"
proof -
  let ?e' = "snd (Evaluate cfg now req e)" and ?k = "tenant_id other"
  have "window_used ?e' now ?k = window_used e now ?k"
    using limiter.used_step_same[of now "tenant_id req" "rate_quota cfg (tenant_id req)" e ?k] assms
    by (simp add: Evaluate_state)
  then have "fst (allowByRateLimit now ?k (rate_quota cfg ?k) ?e')
      = fst (allowByRateLimit now ?k (rate_quota cfg ?k) e)"
    using limiter.grant_iff[of "rate_quota cfg ?k" now ?k] limiter.unlimited[of "rate_quota cfg ?k" now ?k]
    by (cases "0 < rate_quota cfg ?k") auto
  then show ?thesis by (simp add: Evaluate_allowed_iff)
qed

section \<open>Witnesses\<close>

definition example_request :: AIRequest where
  "example_request = zero_request\<lparr>tenant_id := ''t1'', request_type := ''inference''\<rparr>"

lemma example_tenant:
  "TenantByID example_config ''t1'' = Some (zero_tenant\<lparr>t_id := ''t1'', t_rate_limit_rps := 2\<rparr>)"
  by (simp add: TenantByID_def example_config_def)


lemma rejected_keeps_state_witness:
  "snd (Evaluate example_config 5 (example_request\<lparr>tenant_id := ''x''\<rparr>) NewBasicEngine)
     = NewBasicEngine"
proof (rule rejected_keeps_state)
  show "\<not> is_allowed (fst (Evaluate example_config 5 (example_request\<lparr>tenant_id := ''x''\<rparr>)
      NewBasicEngine))"
    by (simp add: Evaluate_def TenantByID_def example_config_def example_request_def rejected_def
        is_allowed_def)
qed

lemma tenants_isolated_witness:
  "is_allowed (fst (Evaluate example_config 5 (example_request\<lparr>tenant_id := ''t2''\<rparr>)
      (snd (Evaluate example_config 5 example_request NewBasicEngine))))
   = is_allowed (fst (Evaluate example_config 5 (example_request\<lparr>tenant_id := ''t2''\<rparr>) NewBasicEngine))"
  using tenants_isolated[of "example_request\<lparr>tenant_id := ''t2''\<rparr>" example_request
      example_config 5 NewBasicEngine]
  by (simp add: example_request_def)

end
