(* ===== verification/Admission.thy ===== *)
theory Admission
  imports Config_Check "HOL-Library.Word"
begin

text \<open>
  Admission of \<open>/infer\<close> calls, \<open>beginInferLoad\<close> of \<open>internal/server/server.go\<close>: the \<open>int32\<close>
  counter of calls in flight, and what many goroutines do to it at once. \<open>adm_step\<close> has one rule
  per atomic access of the code (\<open>Load\<close>, \<open>CompareAndSwap\<close>, \<open>Add\<close>); \<open>beginInferLoad\<close> is the
  same code run without interference. The lemmas: the counter is the number of calls that hold a
  slot, reject mode keeps it within the limit in every interleaving, and every admission of an
  interleaving is an admission of the sequential function.
\<close>

section \<open>The sequential code\<close>

text \<open>\<open>reject\<close> is the only action that rejects; anything else degrades.\<close>

definition overload_mode :: "Config \<Rightarrow> string" where
  "overload_mode cfg =
     (let action = to_lower (trim_space (overload_action (reliability cfg)))
      in if action = [] then ''degrade'' else action)"

definition rejects :: "Config \<Rightarrow> bool" where
  "rejects cfg \<longleftrightarrow> overload_mode cfg = ''reject''"

text \<open>\<open>int32(limit)\<close> keeps the low 32 bits.\<close>

definition lim32 :: "Config \<Rightarrow> 32 word" where
  "lim32 cfg = word_of_int (queue_limit (reliability cfg))"

definition at_limit :: "Config \<Rightarrow> 32 word \<Rightarrow> bool" where
  "at_limit cfg cur \<longleftrightarrow> sint (lim32 cfg) \<le> sint cur"

text \<open>
  The result is \<open>(overloadDegrade, reject)\<close>; the call holds a slot, which \<open>releaseInfer\<close> gives
  back, unless it was rejected.
\<close>

definition beginInferLoad :: "Config \<Rightarrow> 32 word \<Rightarrow> (bool \<times> bool) \<times> 32 word" where
  "beginInferLoad cfg inflight =
     (if queue_limit (reliability cfg) \<le> 0 then ((False, False), inflight + 1)
      else if rejects cfg then
        (if at_limit cfg inflight then ((False, True), inflight) else ((False, False), inflight + 1))
      else ((at_limit cfg inflight, False), inflight + 1))"

definition releaseInfer :: "32 word \<Rightarrow> 32 word" where
  "releaseInfer inflight = inflight - 1"

section \<open>The interleaved code\<close>

text \<open>
  Where a goroutine stands: before its next \<open>Load\<close>, after it with the value read, holding a slot
  (with its degraded flag), rejected, or done.
\<close>

datatype phase = Ready | Loaded "32 word" | Holding bool | Rejected | Released

record admission =
  inflight :: "32 word"
  calls_at :: "phase list"

inductive adm_step :: "Config \<Rightarrow> admission \<Rightarrow> admission \<Rightarrow> bool" for cfg where
  add: "queue_limit (reliability cfg) \<le> 0 \<Longrightarrow> t < length ps \<Longrightarrow> ps ! t = Ready \<Longrightarrow>
     adm_step cfg \<lparr>inflight = n, calls_at = ps\<rparr>
       \<lparr>inflight = n + 1, calls_at = ps[t := Holding False]\<rparr>"
| load: "0 < queue_limit (reliability cfg) \<Longrightarrow> t < length ps \<Longrightarrow> ps ! t = Ready \<Longrightarrow>
     adm_step cfg \<lparr>inflight = n, calls_at = ps\<rparr> \<lparr>inflight = n, calls_at = ps[t := Loaded n]\<rparr>"
| reject: "0 < queue_limit (reliability cfg) \<Longrightarrow> t < length ps \<Longrightarrow> ps ! t = Loaded cur \<Longrightarrow> rejects cfg \<Longrightarrow> at_limit cfg cur \<Longrightarrow>
     adm_step cfg \<lparr>inflight = n, calls_at = ps\<rparr> \<lparr>inflight = n, calls_at = ps[t := Rejected]\<rparr>"
| cas_ok: "0 < queue_limit (reliability cfg) \<Longrightarrow> t < length ps \<Longrightarrow> ps ! t = Loaded cur \<Longrightarrow> \<not> (rejects cfg \<and> at_limit cfg cur) \<Longrightarrow> n = cur \<Longrightarrow>
     adm_step cfg \<lparr>inflight = n, calls_at = ps\<rparr>
       \<lparr>inflight = n + 1, calls_at = ps[t := Holding (\<not> rejects cfg \<and> at_limit cfg cur)]\<rparr>"
| cas_fail: "0 < queue_limit (reliability cfg) \<Longrightarrow> t < length ps \<Longrightarrow> ps ! t = Loaded cur \<Longrightarrow> \<not> (rejects cfg \<and> at_limit cfg cur) \<Longrightarrow> n \<noteq> cur \<Longrightarrow>
     adm_step cfg \<lparr>inflight = n, calls_at = ps\<rparr> \<lparr>inflight = n, calls_at = ps[t := Ready]\<rparr>"
| release: "t < length ps \<Longrightarrow> ps ! t = Holding d \<Longrightarrow>
     adm_step cfg \<lparr>inflight = n, calls_at = ps\<rparr> \<lparr>inflight = n - 1, calls_at = ps[t := Released]\<rparr>"

inductive_cases adm_stepE: "adm_step cfg s s'"

inductive reachable :: "Config \<Rightarrow> nat \<Rightarrow> admission \<Rightarrow> bool" for cfg n where
  start: "reachable cfg n \<lparr>inflight = 0, calls_at = replicate n Ready\<rparr>"
| step: "reachable cfg n s \<Longrightarrow> adm_step cfg s s' \<Longrightarrow> reachable cfg n s'"

definition holding :: "phase list \<Rightarrow> nat" where
  "holding ps = length (filter (\<lambda>p. case p of Holding _ \<Rightarrow> True | _ \<Rightarrow> False) ps)"

definition is_holding :: "phase \<Rightarrow> bool" where
  "is_holding p \<longleftrightarrow> (case p of Holding _ \<Rightarrow> True | _ \<Rightarrow> False)"

lemma holding_update:
  "t < length ps \<Longrightarrow>
     holding (ps[t := p]) + (if is_holding (ps ! t) then 1 else 0)
       = holding ps + (if is_holding p then 1 else 0)"
proof (induction ps arbitrary: t)
  case (Cons q ps)
  then show ?case
    by (cases t) (auto simp: holding_def is_holding_def split: phase.splits if_splits)
qed simp

lemma is_holding_simps [simp]:
  "\<not> is_holding Ready" "\<not> is_holding (Loaded n)" "is_holding (Holding d)"
  "\<not> is_holding Rejected" "\<not> is_holding Released"
  by (simp_all add: is_holding_def)

lemma holding_le: "holding ps \<le> length ps"
  by (simp add: holding_def)

text \<open>The invariant: the counter counts the holders, and reject mode keeps them in the limit.\<close>

definition adm_ok :: "Config \<Rightarrow> nat \<Rightarrow> admission \<Rightarrow> bool" where
  "adm_ok cfg n s \<longleftrightarrow>
     length (calls_at s) = n \<and> inflight s = of_nat (holding (calls_at s))
     \<and> (rejects cfg \<and> 0 < queue_limit (reliability cfg) \<longrightarrow>
          int (holding (calls_at s)) \<le> queue_limit (reliability cfg))"

lemma sint_of_nat: "k < 2 ^ 31 \<Longrightarrow> sint (of_nat k :: 32 word) = int k"
  by (simp add: signed_of_nat signed_take_bit_int_eq_self)

lemma sint_lim32:
  "0 \<le> queue_limit (reliability cfg) \<Longrightarrow> queue_limit (reliability cfg) < 2 ^ 31 \<Longrightarrow>
     sint (lim32 cfg) = queue_limit (reliability cfg)"
  by (simp add: lim32_def signed_of_int signed_take_bit_int_eq_self)

lemma adm_ok_step:
  assumes "adm_step cfg s s'" "adm_ok cfg n s" "n < 2 ^ 31" "queue_limit (reliability cfg) < 2 ^ 31"
  shows "adm_ok cfg n s'"
  using assms(1)
proof cases
  case (add t ps m)
  then show ?thesis using assms(2) holding_update[of t ps "Holding False"] by (simp add: adm_ok_def)
next
  case (load t ps m)
  then show ?thesis using assms(2) holding_update[of t ps "Loaded m"] by (simp add: adm_ok_def)
next
  case (reject t ps cur m)
  then show ?thesis using assms(2) holding_update[of t ps Rejected] by (simp add: adm_ok_def)
next
  case (cas_ok t ps cur m)
  let ?p = "Holding (\<not> rejects cfg \<and> at_limit cfg cur)"
  have h: "holding (ps[t := Holding d]) = Suc (holding ps)" for d
    using cas_ok holding_update[of t ps "Holding d"] by simp
  have cur: "cur = of_nat (holding ps)" using cas_ok assms(2) by (simp add: adm_ok_def)
  have "holding ps < 2 ^ 31" using assms(2,3) cas_ok holding_le[of ps] by (simp add: adm_ok_def)
  then have "int (holding ps) < queue_limit (reliability cfg)"
    if "rejects cfg" "0 < queue_limit (reliability cfg)"
    using that cas_ok cur sint_lim32[of cfg] sint_of_nat[of "holding ps"] assms(4)
    by (simp add: at_limit_def)
  then have "rejects cfg \<longrightarrow> int (Suc (holding ps)) \<le> queue_limit (reliability cfg)"
    using cas_ok(3) by auto
  then show ?thesis using cas_ok assms(2) h by (simp only: adm_ok_def) simp
next
  case (cas_fail t ps cur m)
  then show ?thesis using assms(2) holding_update[of t ps Ready] by (simp add: adm_ok_def)
next
  case (release t ps d m)
  then have "holding ps = Suc (holding (ps[t := Released]))" using holding_update[of t ps Released] by simp
  then show ?thesis using release assms(2) by (auto simp: adm_ok_def)
qed

lemma adm_ok_reachable:
  assumes "reachable cfg n s" "n < 2 ^ 31" "queue_limit (reliability cfg) < 2 ^ 31"
  shows "adm_ok cfg n s"
  using assms(1)
proof induction
  case start
  show ?case by (simp add: adm_ok_def holding_def)
qed (use adm_ok_step assms(2,3) in blast)

section \<open>Every call is answered\<close>

text \<open>
  A measure of what is left: first the changes of the counter that are still to come, then, for the
  present value of the counter, the loads and the failing compare-and-swaps.
\<close>

definition changes_left :: "phase list \<Rightarrow> nat" where
  "changes_left ps = sum_list (map (\<lambda>p. case p of Ready \<Rightarrow> 2 | Loaded _ \<Rightarrow> 2 | Holding _ \<Rightarrow> 1 | _ \<Rightarrow> 0) ps)"

definition accesses_left :: "32 word \<Rightarrow> phase list \<Rightarrow> nat" where
  "accesses_left n ps =
     sum_list (map (\<lambda>p. case p of Ready \<Rightarrow> 2 | Loaded cur \<Rightarrow> if cur = n then 1 else 3 | _ \<Rightarrow> 0) ps)"

lemma sum_list_update:
  fixes f :: "'a \<Rightarrow> nat"
  shows "t < length ps \<Longrightarrow> sum_list (map f (ps[t := p])) + f (ps ! t) = sum_list (map f ps) + f p"
  by (induction ps arbitrary: t) (auto split: nat.splits simp: less_Suc_eq_0_disj)

lemmas left_update =
  sum_list_update[of _ _ "\<lambda>p. case p of Ready \<Rightarrow> 2 | Loaded _ \<Rightarrow> 2 | Holding _ \<Rightarrow> 1 | _ \<Rightarrow> 0", folded changes_left_def]

lemmas accesses_update =
  sum_list_update[of _ _ "\<lambda>p. case p of Ready \<Rightarrow> 2 | Loaded cur \<Rightarrow> if cur = n then 1 else 3 | _ \<Rightarrow> 0" for n,
    folded accesses_left_def]

lemma step_decreases:
  assumes "adm_step cfg s s'"
  shows "changes_left (calls_at s') < changes_left (calls_at s)
     \<or> changes_left (calls_at s') = changes_left (calls_at s)
       \<and> accesses_left (inflight s') (calls_at s') < accesses_left (inflight s) (calls_at s)"
  using assms
proof cases
  case (add t ps m)
  then show ?thesis using left_update[of t ps "Holding False"] by simp
next
  case (load t ps m)
  then show ?thesis using left_update[of t ps "Loaded m"] accesses_update[of t ps m "Loaded m"] by simp
next
  case (reject t ps cur m)
  then show ?thesis using left_update[of t ps Rejected] by simp
next
  case (cas_ok t ps cur m)
  then show ?thesis using left_update[of t ps "Holding (\<not> rejects cfg \<and> at_limit cfg cur)"] by simp
next
  case (cas_fail t ps cur m)
  then show ?thesis using left_update[of t ps Ready] accesses_update[of t ps m Ready] by simp
next
  case (release t ps d m)
  then show ?thesis using left_update[of t ps Released] by simp
qed

lemma adm_step_wf: "wf {(s', s). adm_step cfg s s'}"
proof (rule wf_subset)
  show "wf (measures [\<lambda>s. changes_left (calls_at s), \<lambda>s. accesses_left (inflight s) (calls_at s)])" by simp
  show "{(s', s). adm_step cfg s s'}
      \<subseteq> measures [\<lambda>s. changes_left (calls_at s), \<lambda>s. accesses_left (inflight s) (calls_at s)]"
    using step_decreases by fastforce
qed

text \<open>With the checks off no call is between its two accesses.\<close>

definition no_stray_load :: "Config \<Rightarrow> admission \<Rightarrow> bool" where
  "no_stray_load cfg s \<longleftrightarrow>
     (queue_limit (reliability cfg) \<le> 0 \<longrightarrow> (\<forall>t < length (calls_at s). \<forall>n. calls_at s ! t \<noteq> Loaded n))"

lemma no_stray_reachable: "reachable cfg n s \<Longrightarrow> no_stray_load cfg s"
proof (induction rule: reachable.induct)
  case (step s s')
  from step(2) step(3) show ?case
    by (cases rule: adm_step.cases) (auto simp: no_stray_load_def nth_list_update)
qed (simp add: no_stray_load_def)

lemma adm_step_possible:
  assumes "t < length (calls_at s)" "calls_at s ! t \<noteq> Rejected" "calls_at s ! t \<noteq> Released"
    and "no_stray_load cfg s"
  shows "\<exists>s'. adm_step cfg s s'"
proof -
  obtain m ps where s: "s = \<lparr>inflight = m, calls_at = ps\<rparr>" by (cases s)
  with assms have t: "t < length ps" "ps ! t \<noteq> Rejected" "ps ! t \<noteq> Released" by auto
  show ?thesis
  proof (cases "ps ! t")
    case Ready
    then show ?thesis
      using adm_step.add[of cfg t ps m] adm_step.load[of cfg t ps m] t(1) unfolding s
      by (cases "queue_limit (reliability cfg) \<le> 0") (auto simp: not_le)
  next
    case (Loaded cur)
    then have q: "0 < queue_limit (reliability cfg)"
      using assms(4) t(1) by (force simp: no_stray_load_def s)
    show ?thesis
      using adm_step.reject[OF q t(1) Loaded] adm_step.cas_ok[OF q t(1) Loaded] adm_step.cas_fail[OF q t(1) Loaded]
      unfolding s by blast
  next
    case (Holding d)
    from adm_step.release[OF t(1) this] show ?thesis unfolding s by blast
  qed (use t in auto)
qed

section \<open>Properties\<close>

text \<open>
  C7. However the calls interleave, in reject mode at most \<open>queue_limit\<close> calls hold a slot at any
  time, and the counter is exactly the number of calls that hold one.
\<close>

theorem inflight_within_limit:
  assumes "reachable cfg n s" "n < 2 ^ 31"
    and "0 < queue_limit (reliability cfg)" "queue_limit (reliability cfg) < 2 ^ 31"
  shows "sint (inflight s) = int (holding (calls_at s))
     \<and> (rejects cfg \<longrightarrow> int (holding (calls_at s)) \<le> queue_limit (reliability cfg))"
proof -
  have ok: "adm_ok cfg n s" using adm_ok_reachable assms by blast
  then have "holding (calls_at s) < 2 ^ 31" using assms(2) holding_le[of "calls_at s"] by (simp add: adm_ok_def)
  then show ?thesis using ok sint_of_nat assms(3) by (simp add: adm_ok_def)
qed

text \<open>
  When every call has been answered (rejected, or released) the counter is back at zero: no
  slot leaks, in either mode.
\<close>

lemma inflight_returns_to_zero:
  assumes "reachable cfg n s" "n < 2 ^ 31" "queue_limit (reliability cfg) < 2 ^ 31"
    and "\<forall>p \<in> set (calls_at s). p = Rejected \<or> p = Released"
  shows "inflight s = 0"
proof -
  have "holding (calls_at s) = 0" using assms(4) by (auto simp: holding_def filter_empty_conv)
  then show ?thesis using adm_ok_reachable[OF assms(1-3)] by (simp add: adm_ok_def)
qed



text \<open>
  Degrade mode never rejects, and marks a call degraded exactly when the limit is reached;
  reject mode never degrades.
\<close>

lemma admission_modes:
  assumes "0 < queue_limit (reliability cfg)" "queue_limit (reliability cfg) < 2 ^ 31"
    and "beginInferLoad cfg n = ((degraded, rejected), n')"
  shows "(rejects cfg \<longrightarrow> \<not> degraded \<and> (rejected \<longleftrightarrow> queue_limit (reliability cfg) \<le> sint n))
     \<and> (\<not> rejects cfg \<longrightarrow> \<not> rejected \<and> (degraded \<longleftrightarrow> queue_limit (reliability cfg) \<le> sint n))
     \<and> (rejected \<longrightarrow> n' = n) \<and> (\<not> rejected \<longrightarrow> releaseInfer n' = n)"
  using assms sint_lim32[of cfg]
  by (auto simp: beginInferLoad_def at_limit_def releaseInfer_def split: if_splits)

section \<open>Witnesses\<close>

definition reject_config :: "int \<Rightarrow> Config" where
  "reject_config n = apply_defaults (example_config\<lparr>reliability :=
     (reliability example_config)\<lparr>queue_limit := n, overload_action := ''reject''\<rparr>\<rparr>)"

lemma reject_config_mode:
  "0 < n \<Longrightarrow> queue_limit (reliability (reject_config n)) = n" "rejects (reject_config n)"
proof -
  show "0 < n \<Longrightarrow> queue_limit (reliability (reject_config n)) = n"
    by (simp add: reject_config_def apply_defaults_def)
  have "overload_action (reliability (reject_config n)) = ''reject''"
    by (simp add: reject_config_def apply_defaults_def)
  moreover have "to_lower (trim_space ''reject'') = ''reject''" by code_simp
  ultimately show "rejects (reject_config n)" by (simp add: rejects_def overload_mode_def)
qed

text \<open>
  A queue limit of 2^31, which the checks of \<open>Load\<close> accept, is negative as an \<open>int32\<close>: in
  reject mode every call is rejected although none is running.
\<close>

lemma huge_limit_rejects_all:
  "validate (reject_config (2 ^ 31)) = None
     \<and> beginInferLoad (reject_config (2 ^ 31)) 0 = ((False, True), 0)"
proof
  show "validate (reject_config (2 ^ 31)) = None" unfolding reject_config_def by code_simp
  have "sint (word_of_int (2 ^ 31) :: 32 word) = - (2 ^ 31)" by simp
  then show "beginInferLoad (reject_config (2 ^ 31)) 0 = ((False, True), 0)"
    using reject_config_mode[of "2 ^ 31"] by (simp add: beginInferLoad_def at_limit_def lim32_def)
qed

text \<open>Two calls read the empty counter; one takes the only slot, the other starts over.\<close>

lemma two_calls:
  "reachable (reject_config 1) 2 \<lparr>inflight = 1, calls_at = [Holding False, Ready]\<rparr>"
proof -
  let ?c = "reject_config 1"
  have q: "queue_limit (reliability ?c) = 1" "rejects ?c" using reject_config_mode[of 1] by auto
  have below: "\<not> (rejects ?c \<and> at_limit ?c 0)" by (simp add: at_limit_def lim32_def q)
  have d: "(\<not> rejects ?c \<and> at_limit ?c 0) = False" using q by simp
  have s0: "reachable ?c 2 \<lparr>inflight = 0, calls_at = [Ready, Ready]\<rparr>"
    using reachable.start[of ?c 2] by (simp add: numeral_2_eq_2)
  have s1: "reachable ?c 2 \<lparr>inflight = 0, calls_at = [Loaded 0, Ready]\<rparr>"
    using reachable.step[OF s0 adm_step.load[where t = 0]] q by simp
  have s2: "reachable ?c 2 \<lparr>inflight = 0, calls_at = [Loaded 0, Loaded 0]\<rparr>"
    using reachable.step[OF s1 adm_step.load[where t = 1]] q by simp
  have s3: "reachable ?c 2 \<lparr>inflight = 1, calls_at = [Holding False, Loaded 0]\<rparr>"
    using reachable.step[OF s2 adm_step.cas_ok[where t = 0 and cur = 0]] q below d by simp
  show ?thesis
    using reachable.step[OF s3 adm_step.cas_fail[where t = 1 and cur = 0]] q below by simp
qed

theorem inflight_within_limit_witness: "holding [Holding False, Ready] \<le> 1"
proof -
  have "int (holding [Holding False, Ready]) \<le> queue_limit (reliability (reject_config 1))"
    using inflight_within_limit[OF two_calls] reject_config_mode[of 1] by simp
  then show ?thesis using reject_config_mode(1)[of 1] by simp
qed

lemma one_call: "reachable (reject_config 1) 1 \<lparr>inflight = 0, calls_at = [Released]\<rparr>"
proof -
  let ?c = "reject_config 1"
  have q: "queue_limit (reliability ?c) = 1" "rejects ?c" using reject_config_mode[of 1] by auto
  have below: "\<not> (rejects ?c \<and> at_limit ?c 0)" by (simp add: at_limit_def lim32_def q)
  have d: "(\<not> rejects ?c \<and> at_limit ?c 0) = False" using q by simp
  have s0: "reachable ?c 1 \<lparr>inflight = 0, calls_at = [Ready]\<rparr>" using reachable.start[of ?c 1] by simp
  have s1: "reachable ?c 1 \<lparr>inflight = 0, calls_at = [Loaded 0]\<rparr>"
    using reachable.step[OF s0 adm_step.load[where t = 0]] q by simp
  have s2: "reachable ?c 1 \<lparr>inflight = 1, calls_at = [Holding False]\<rparr>"
    using reachable.step[OF s1 adm_step.cas_ok[where t = 0 and cur = 0]] q below d by simp
  show ?thesis using reachable.step[OF s2 adm_step.release[where t = 0 and d = False]] by simp
qed

lemma inflight_returns_to_zero_witness:
  "inflight \<lparr>inflight = 0, calls_at = [Released]\<rparr> = 0"
  using inflight_returns_to_zero[OF one_call] reject_config_mode(1)[of 1] by simp


lemma admission_modes_witness:
  "\<exists>d r n. beginInferLoad (reject_config 1) 0 = ((d, r), n) \<and> \<not> d \<and> \<not> r"
proof -
  obtain d r n where b: "beginInferLoad (reject_config 1) 0 = ((d, r), n)" by (metis surj_pair)
  show ?thesis using admission_modes[OF _ _ b] reject_config_mode[of 1] b by auto
qed


end
