(* ===== verification/Slo.thy ===== *)
theory Slo
  imports Config_Model
begin

text \<open>
  The SLO engine, \<open>internal/slo/memory_engine.go\<close>: per-request timings with eviction by age and by
  count, the snapshot of a request and the rolling aggregates. State: \<open>MemoryEngine\<close>; each method
  runs under the mutex, so it is one step. The readings of the clock are arguments. The order in
  which Go ranges over the map is the argument \<open>iter\<close>, and \<open>sort.Slice\<close> is the argument \<open>sorter\<close>;
  the properties hold for every permutation and for every sort. The loop that evicts the oldest
  record is an option-valued partial function: \<open>None\<close> says that it does not return.
\<close>

section \<open>State\<close>

record requestTiming =
  rt_insertedAt :: gotime
  rt_startTime :: gotime
  rt_firstTokenTime :: gotime
  rt_endTime :: gotime
  rt_fallback :: bool

type_synonym timings = "(string \<times> requestTiming) list"

record MemoryEngine =
  me_records :: timings
  maxRecords :: int
  maxAge :: duration

definition NewMemoryEngineFromConfig :: "int \<Rightarrow> int \<Rightarrow> MemoryEngine" where
  "NewMemoryEngineFromConfig max_records max_age_ms =
     \<lparr>me_records = [],
      maxRecords = (if max_records \<le> 0 then 10000 else max_records),
      maxAge = (if dur_ms max_age_ms \<le> 0 then 10 * minute else dur_ms max_age_ms)\<rparr>"

definition new_timing :: "gotime \<Rightarrow> requestTiming" where
  "new_timing t = \<lparr>rt_insertedAt = t, rt_startTime = 0, rt_firstTokenTime = 0, rt_endTime = 0,
     rt_fallback = False\<rparr>"

definition ensureRecord :: "gotime \<Rightarrow> string \<Rightarrow> timings \<Rightarrow> timings" where
  "ensureRecord now i m = (case map_of m i of None \<Rightarrow> (i, new_timing now) # m | Some _ \<Rightarrow> m)"

section \<open>Eviction\<close>

definition shouldEvictRecord :: "duration \<Rightarrow> gotime \<Rightarrow> requestTiming \<Rightarrow> bool" where
  "shouldEvictRecord age now r =
     (if \<not> is_zero_time (rt_endTime r) then age < time_sub now (rt_endTime r)
      else age < time_sub now (rt_insertedAt r))"

text \<open>The time by which \<open>evictOneOldestLocked\<close> ranks a record, and its scan for the first least.\<close>

definition age_key :: "requestTiming \<Rightarrow> gotime" where
  "age_key r = (if is_zero_time (rt_endTime r) then rt_insertedAt r else rt_endTime r)"

fun pick_oldest :: "timings \<Rightarrow> (string \<times> gotime) option \<Rightarrow> (string \<times> gotime) option" where
  "pick_oldest [] best = best"
| "pick_oldest ((i, r) # m) best =
     pick_oldest m
       (case best of
          None \<Rightarrow> Some (i, age_key r)
        | Some (oldestID, oldest) \<Rightarrow>
            if before (age_key r) oldest then Some (i, age_key r) else Some (oldestID, oldest))"

definition evictOneOldestLocked :: "(timings \<Rightarrow> timings) \<Rightarrow> timings \<Rightarrow> timings" where
  "evictOneOldestLocked iter m =
     (case pick_oldest (iter m) None of
        None \<Rightarrow> m
      | Some (oldestID, _) \<Rightarrow> if oldestID \<noteq> [] then AList.delete oldestID m else m)"

partial_function (option) evict_loop :: "(timings \<Rightarrow> timings) \<Rightarrow> int \<Rightarrow> timings \<Rightarrow> timings option" where
  "evict_loop iter maxr m =
     (if maxr < int (length m) then evict_loop iter maxr (evictOneOldestLocked iter m) else Some m)"

declare evict_loop.simps [code]

definition evictLocked :: "(timings \<Rightarrow> timings) \<Rightarrow> gotime \<Rightarrow> MemoryEngine \<Rightarrow> MemoryEngine option" where
  "evictLocked iter now e =
     map_option (\<lambda>m. e\<lparr>me_records := m\<rparr>)
       (evict_loop iter (maxRecords e)
          (filter (\<lambda>(i, r). \<not> shouldEvictRecord (maxAge e) now r) (me_records e)))"

section \<open>Recording\<close>

definition with_record ::
  "gotime \<Rightarrow> string \<Rightarrow> (requestTiming \<Rightarrow> requestTiming) \<Rightarrow> MemoryEngine \<Rightarrow> MemoryEngine" where
  "with_record now i f e =
     (let m = ensureRecord now i (me_records e)
      in case map_of m i of
           None \<Rightarrow> e\<lparr>me_records := m\<rparr>
         | Some r \<Rightarrow> e\<lparr>me_records := AList.update i (f r) m\<rparr>)"

text \<open>
  The three readings of the clock: when the record is inserted, the start itself, and the reading
  of the eviction.
\<close>

definition RecordStart ::
  "(timings \<Rightarrow> timings) \<Rightarrow> gotime \<Rightarrow> gotime \<Rightarrow> gotime \<Rightarrow> string \<Rightarrow> MemoryEngine \<Rightarrow> MemoryEngine option" where
  "RecordStart iter t_ins t_start t_evict i e =
     evictLocked iter t_evict (with_record t_ins i (\<lambda>r. r\<lparr>rt_startTime := t_start\<rparr>) e)"

definition RecordFirstToken ::
  "(timings \<Rightarrow> timings) \<Rightarrow> gotime \<Rightarrow> gotime \<Rightarrow> gotime \<Rightarrow> string \<Rightarrow> MemoryEngine \<Rightarrow> MemoryEngine option" where
  "RecordFirstToken iter t_ins ts t_evict i e =
     evictLocked iter t_evict (with_record t_ins i (\<lambda>r. r\<lparr>rt_firstTokenTime := ts\<rparr>) e)"

definition RecordCompletion ::
  "(timings \<Rightarrow> timings) \<Rightarrow> gotime \<Rightarrow> gotime \<Rightarrow> gotime \<Rightarrow> string \<Rightarrow> MemoryEngine \<Rightarrow> MemoryEngine option" where
  "RecordCompletion iter t_ins ts t_evict i e =
     evictLocked iter t_evict (with_record t_ins i (\<lambda>r. r\<lparr>rt_endTime := ts\<rparr>) e)"

definition RecordFallback ::
  "(timings \<Rightarrow> timings) \<Rightarrow> gotime \<Rightarrow> gotime \<Rightarrow> string \<Rightarrow> MemoryEngine \<Rightarrow> MemoryEngine option" where
  "RecordFallback iter t_ins t_evict i e =
     evictLocked iter t_evict (with_record t_ins i (\<lambda>r. r\<lparr>rt_fallback := True\<rparr>) e)"

section \<open>Snapshot\<close>

definition span_ms :: "gotime \<Rightarrow> gotime \<Rightarrow> int" where
  "span_ms a b =
     (if \<not> is_zero_time a \<and> \<not> is_zero_time b
      then (if millis (time_sub b a) < 0 then 0 else millis (time_sub b a)) else 0)"

definition timing_snapshot :: "requestTiming \<Rightarrow> SLOSnapshot" where
  "timing_snapshot r =
     \<lparr>ttft_ms = span_ms (rt_startTime r) (rt_firstTokenTime r),
      tpot_ms =
        (if \<not> is_zero_time (rt_firstTokenTime r) \<and> \<not> is_zero_time (rt_endTime r) then
           (let post = millis (time_sub (rt_endTime r) (rt_firstTokenTime r))
            in if 0 < post then (if go_div post 32 \<le> 0 then 1 else go_div post 32) else 0)
         else 0),
      completion_latency_ms = span_ms (rt_startTime r) (rt_endTime r),
      fallback_triggered = rt_fallback r\<rparr>"

definition Snapshot :: "string \<Rightarrow> MemoryEngine \<Rightarrow> SLOSnapshot" where
  "Snapshot i e =
     (case map_of (me_records e) i of
        None \<Rightarrow> \<lparr>ttft_ms = 0, tpot_ms = 0, completion_latency_ms = 0, fallback_triggered = False\<rparr>
      | Some r \<Rightarrow> timing_snapshot r)"

section \<open>Aggregates\<close>

record sample =
  s_end :: gotime
  s_ttftMs :: int
  s_fallback :: bool

definition timing_sample :: "requestTiming \<Rightarrow> sample option" where
  "timing_sample r =
     (if is_zero_time (rt_endTime r) \<or> is_zero_time (rt_startTime r) then None
      else (let ttft = (if \<not> is_zero_time (rt_firstTokenTime r)
                        then millis (time_sub (rt_firstTokenTime r) (rt_startTime r))
                        else millis (time_sub (rt_endTime r) (rt_startTime r)))
            in Some \<lparr>s_end = rt_endTime r, s_ttftMs = (if ttft < 0 then 0 else ttft),
                     s_fallback = rt_fallback r\<rparr>))"

definition sum64 :: "int list \<Rightarrow> int" where
  "sum64 xs = foldl (\<lambda>s x. wrap64 (s + x)) 0 xs"

definition ScalingAggregates ::
  "(timings \<Rightarrow> timings) \<Rightarrow> (sample list \<Rightarrow> sample list) \<Rightarrow> MemoryEngine \<Rightarrow> rat \<times> rat" where
  "ScalingAggregates iter sorter e =
     (let samples = List.map_filter (\<lambda>(i, r). timing_sample r) (iter (me_records e))
      in if length samples < 4 then (1, 0)
         else (let srt = sorter samples;
                   mid = length samples div 2;
                   older = take mid srt; newer = drop mid srt;
                   oldC = mid; newC = length samples - mid
               in if oldC = 0 \<or> newC = 0 then (1, 0)
                  else (let oldAvg0 = f_div (f_of_int (sum64 (map s_ttftMs older))) (f_of_int (int oldC));
                            newAvg = f_div (f_of_int (sum64 (map s_ttftMs newer))) (f_of_int (int newC));
                            oldAvg = (if oldAvg0 < 1 then 1 else oldAvg0);
                            fbRecent = length (filter s_fallback newer)
                        in (f_div newAvg oldAvg, f_div (f_of_int (int fbRecent)) (f_of_int (int newC))))))"

section \<open>Eviction: termination and what is kept\<close>

definition keys :: "timings \<Rightarrow> string list" where
  "keys m = map fst m"

definition permutes_map :: "(timings \<Rightarrow> timings) \<Rightarrow> bool" where
  "permutes_map iter \<longleftrightarrow> (\<forall>m. mset (iter m) = mset m)"

lemma iter_set: "permutes_map iter \<Longrightarrow> set (iter m) = set m"
  by (metis permutes_map_def set_mset_mset)

lemma pick_oldest_Some:
  "pick_oldest m (Some b) \<noteq> None"
  by (induction m "Some b" arbitrary: b rule: pick_oldest.induct) (auto split: prod.splits)

lemma pick_oldest_min:
  assumes "pick_oldest m best = Some (i, t)"
    and "case best of None \<Rightarrow> True | Some (j, u) \<Rightarrow> \<exists>r. (j, r) \<in> S \<and> u = age_key r"
    and "set m \<subseteq> S"
  shows "(\<exists>r. (i, r) \<in> S \<and> t = age_key r) \<and> (\<forall>x \<in> set m. t \<le> age_key (snd x))
     \<and> (case best of None \<Rightarrow> True | Some (j, u) \<Rightarrow> t \<le> u)"
  using assms
proof (induction m best rule: pick_oldest.induct)
  case (2 j r m best)
  let ?b = "case best of None \<Rightarrow> Some (j, age_key r) | Some (oldestID, oldest) \<Rightarrow>
      if before (age_key r) oldest then Some (j, age_key r) else Some (oldestID, oldest)"
  have "case ?b of None \<Rightarrow> True | Some (k, u) \<Rightarrow> \<exists>r'. (k, r') \<in> S \<and> u = age_key r'"
    using 2(3,4) by (auto split: option.splits)
  moreover have "pick_oldest m ?b = Some (i, t)" using 2(2) by simp
  ultimately have "(\<exists>r. (i, r) \<in> S \<and> t = age_key r) \<and> (\<forall>x \<in> set m. t \<le> age_key (snd x))
     \<and> (case ?b of None \<Rightarrow> True | Some (j, u) \<Rightarrow> t \<le> u)" using 2(1,4) by auto
  then show ?case by (auto simp: before_def split: option.splits if_splits)
qed (auto split: option.splits)

lemma evict_one:
  assumes "permutes_map iter" "m \<noteq> []" "[] \<notin> set (keys m)"
  obtains i r where "(i, r) \<in> set m" "evictOneOldestLocked iter m = AList.delete i m"
    "\<forall>x \<in> set m. age_key r \<le> age_key (snd x)"
proof -
  have set: "set (iter m) = set m" by (rule iter_set[OF assms(1)])
  obtain i t where pick: "pick_oldest (iter m) None = Some (i, t)"
  proof (cases "iter m")
    case Nil
    then show ?thesis using set assms(2) by simp
  next
    case (Cons x xs)
    have "pick_oldest (iter m) None \<noteq> None"
      using Cons pick_oldest_Some[of xs "(fst x, age_key (snd x))"] by (cases x) simp
    then show ?thesis using that by fast
  qed
  from pick_oldest_min[OF pick, of "set m"] set obtain r
    where r: "(i, r) \<in> set m" "t = age_key r" "\<forall>x \<in> set m. t \<le> age_key (snd x)" by auto
  have "i \<noteq> []" using r(1) assms(3) by (force simp: keys_def)
  then show ?thesis using that r pick by (simp add: evictOneOldestLocked_def)
qed

lemma delete_in: "x \<in> set (AList.delete i m) \<longleftrightarrow> x \<in> set m \<and> fst x \<noteq> i"
  by (auto simp: AList.delete_eq)

lemma delete_length:
  "distinct (keys m) \<Longrightarrow> (i, r) \<in> set m \<Longrightarrow> Suc (length (AList.delete i m)) = length m"
proof (induction m)
  case (Cons x m)
  show ?case
  proof (cases "fst x = i")
    case True
    then have "i \<notin> fst ` set m" using Cons.prems(1) by (auto simp: keys_def)
    then have "AList.delete i m = m" by (simp add: delete_id)
    with True show ?thesis by simp
  qed (use Cons in \<open>auto simp: keys_def\<close>)
qed simp

lemma delete_distinct: "distinct (keys m) \<Longrightarrow> distinct (keys (AList.delete i m))"
  by (simp add: keys_def distinct_delete)

text \<open>
  What eviction by count leaves: as many records as the bound allows, and none that it removed is
  younger than one it kept.
\<close>

definition evicted_to :: "int \<Rightarrow> timings \<Rightarrow> timings \<Rightarrow> bool" where
  "evicted_to maxr m m' \<longleftrightarrow>
     set m' \<subseteq> set m \<and> distinct (keys m') \<and> int (length m') = min maxr (int (length m))
     \<and> (\<forall>x \<in> set m - set m'. \<forall>y \<in> set m'. age_key (snd x) \<le> age_key (snd y))"

lemma evict_loop_returns:
  assumes "permutes_map iter" "[] \<notin> set (keys m)" "distinct (keys m)" "0 \<le> maxr"
  shows "\<exists>m'. evict_loop iter maxr m = Some m' \<and> evicted_to maxr m m'"
  using assms
proof (induction "length m" arbitrary: m)
  case 0
  then show ?case by (simp add: evict_loop.simps evicted_to_def)
next
  case (Suc n)
  show ?case
  proof (cases "maxr < int (length m)")
    case False
    then show ?thesis using Suc.prems by (simp add: evict_loop.simps evicted_to_def)
  next
    case True
    have "m \<noteq> []" using Suc.hyps(2) by auto
    from evict_one[OF Suc.prems(1) this Suc.prems(2)] obtain i r where ir: "(i, r) \<in> set m"
      "evictOneOldestLocked iter m = AList.delete i m" "\<forall>x \<in> set m. age_key r \<le> age_key (snd x)"
      by blast
    let ?d = "AList.delete i m"
    have len: "Suc (length ?d) = length m" by (rule delete_length[OF Suc.prems(3) ir(1)])
    have "[] \<notin> set (keys ?d)" using Suc.prems(2) by (auto simp: keys_def delete_in)
    then obtain m' where m': "evict_loop iter maxr ?d = Some m'" "evicted_to maxr ?d m'"
      using Suc.hyps(1)[of ?d] Suc.hyps(2) Suc.prems delete_distinct len by auto
    have eq: "evict_loop iter maxr m = Some m'" using True ir(2) m'(1) by (simp add: evict_loop.simps)
    have old: "age_key (snd x) \<le> age_key (snd y)" if "x \<in> set m - set m'" "y \<in> set m'" for x y
    proof (cases "fst x = i")
      case True
      have "map_of m (fst x) = Some (snd x)" "map_of m i = Some r"
        using that(1) ir(1) Suc.prems(3) by (auto simp: keys_def map_of_eq_Some_iff)
      then have "snd x = r" using True by simp
      moreover have "y \<in> set m" using that(2) m'(2) by (auto simp: evicted_to_def delete_in)
      ultimately show ?thesis using ir(3) by simp
    next
      case False
      then show ?thesis using that m'(2) by (auto simp: evicted_to_def delete_in)
    qed
    have "evicted_to maxr m m'"
      using m'(2) old len True unfolding evicted_to_def by (auto simp: delete_in)
    with eq show ?thesis by blast
  qed
qed

definition live :: "MemoryEngine \<Rightarrow> gotime \<Rightarrow> timings" where
  "live e now = filter (\<lambda>(i, r). \<not> shouldEvictRecord (maxAge e) now r) (me_records e)"

definition slo_ok :: "MemoryEngine \<Rightarrow> bool" where
  "slo_ok e \<longleftrightarrow> distinct (keys (me_records e)) \<and> [] \<notin> set (keys (me_records e)) \<and> 0 \<le> maxRecords e"

lemma evictLocked_returns:
  assumes "permutes_map iter" "slo_ok e"
  shows "\<exists>e'. evictLocked iter now e = Some e' \<and> slo_ok e' \<and> maxRecords e' = maxRecords e
     \<and> maxAge e' = maxAge e \<and> evicted_to (maxRecords e) (live e now) (me_records e')"
proof -
  have d: "distinct (keys (live e now))" "[] \<notin> set (keys (live e now))"
    using assms(2) by (auto simp: slo_ok_def live_def keys_def distinct_map_filter)
  from evict_loop_returns[OF assms(1) d(2,1), of "maxRecords e"] assms(2) obtain m' where
    m': "evict_loop iter (maxRecords e) (live e now) = Some m'" "evicted_to (maxRecords e) (live e now) m'"
    by (auto simp: slo_ok_def)
  have "[] \<notin> set (keys m')" using m'(2) d(2) by (auto simp: evicted_to_def keys_def)
  then show ?thesis
    using m' assms(2) by (auto simp: evictLocked_def live_def[symmetric] slo_ok_def evicted_to_def)
qed

section \<open>Runs of the engine\<close>

datatype slo_op =
    OpStart gotime gotime gotime string
  | OpFirstToken gotime gotime gotime string
  | OpCompletion gotime gotime gotime string
  | OpFallback gotime gotime string

fun op_id :: "slo_op \<Rightarrow> string" where
  "op_id (OpStart _ _ _ i) = i"
| "op_id (OpFirstToken _ _ _ i) = i"
| "op_id (OpCompletion _ _ _ i) = i"
| "op_id (OpFallback _ _ i) = i"

fun slo_step :: "(timings \<Rightarrow> timings) \<Rightarrow> slo_op \<Rightarrow> MemoryEngine \<Rightarrow> MemoryEngine option" where
  "slo_step iter (OpStart a b c i) e = RecordStart iter a b c i e"
| "slo_step iter (OpFirstToken a b c i) e = RecordFirstToken iter a b c i e"
| "slo_step iter (OpCompletion a b c i) e = RecordCompletion iter a b c i e"
| "slo_step iter (OpFallback a c i) e = RecordFallback iter a c i e"

fun run_slo :: "(slo_op \<times> (timings \<Rightarrow> timings)) list \<Rightarrow> MemoryEngine \<Rightarrow> MemoryEngine option" where
  "run_slo [] e = Some e"
| "run_slo ((oper, iter) # ops) e =
     (case slo_step iter oper e of None \<Rightarrow> None | Some e' \<Rightarrow> run_slo ops e')"

lemma keys_ensure: "set (keys (ensureRecord now i m)) = insert i (set (keys m))"
  by (force simp: ensureRecord_def keys_def split: option.splits dest: map_of_SomeD)

lemma distinct_ensure: "distinct (keys m) \<Longrightarrow> distinct (keys (ensureRecord now i m))"
  by (auto simp: ensureRecord_def keys_def map_of_eq_None_iff split: option.splits)

lemma keys_update_in: "i \<in> set (keys m) \<Longrightarrow> keys (AList.update i r m) = keys m"
  by (simp add: keys_def update_keys)

lemma with_record_keys: "keys (me_records (with_record now i f e)) = keys (ensureRecord now i (me_records e))"
  using keys_ensure[of now i "me_records e"]
  by (auto simp: with_record_def Let_def keys_update_in split: option.splits)

lemma with_record_limits [simp]:
  "maxRecords (with_record now i f e) = maxRecords e" "maxAge (with_record now i f e) = maxAge e"
  by (auto simp: with_record_def Let_def split: option.splits)

lemma with_record_ok: "slo_ok e \<Longrightarrow> i \<noteq> [] \<Longrightarrow> slo_ok (with_record now i f e)"
  using keys_ensure[of now i "me_records e"] distinct_ensure[of "me_records e" now i]
  by (simp add: slo_ok_def with_record_keys)

lemma slo_step_returns:
  assumes "permutes_map iter" "slo_ok e" "op_id oper \<noteq> []"
  shows "\<exists>e'. slo_step iter oper e = Some e' \<and> slo_ok e' \<and> maxRecords e' = maxRecords e
     \<and> int (length (me_records e')) \<le> maxRecords e"
  using evictLocked_returns[OF assms(1) with_record_ok[OF assms(2,3)]]
  by (cases oper)
     (fastforce simp: RecordStart_def RecordFirstToken_def RecordCompletion_def RecordFallback_def
        evicted_to_def)+

lemma run_slo_returns:
  assumes "\<forall>x \<in> set ops. permutes_map (snd x) \<and> op_id (fst x) \<noteq> []" "slo_ok e"
    "int (length (me_records e)) \<le> maxRecords e"
  shows "\<exists>e'. run_slo ops e = Some e' \<and> slo_ok e' \<and> maxRecords e' = maxRecords e
     \<and> int (length (me_records e')) \<le> maxRecords e"
  using assms
proof (induction ops arbitrary: e)
  case (Cons x ops)
  obtain oper iter where x: "x = (oper, iter)" by (cases x)
  from slo_step_returns[of iter e oper] Cons.prems x obtain e1 where
    e1: "slo_step iter oper e = Some e1" "slo_ok e1" "maxRecords e1 = maxRecords e"
    "int (length (me_records e1)) \<le> maxRecords e" by auto
  from Cons.IH[OF _ e1(2)] Cons.prems(1) e1 x show ?case by auto
qed simp

lemma evict_loop_stuck:
  assumes "evictOneOldestLocked iter m = m" "maxr < int (length m)"
  shows "evict_loop iter maxr m = None"
proof -
  have "iter' = iter \<longrightarrow> maxr' = maxr \<longrightarrow> m' = m \<longrightarrow> False"
    if "evict_loop iter' maxr' m' = Some y" for iter' maxr' m' y
    using that
  proof (induction rule: evict_loop.raw_induct[rotated, consumes 1])
    case (1 ev iter' maxr' m' y)
    then show ?case using assms by (auto simp only: split: if_splits)
  qed
  then show ?thesis by (cases "evict_loop iter maxr m") auto
qed

lemma mset_pair:
  assumes "mset xs = {#a, b#}"
  shows "xs = [a, b] \<or> xs = [b, a]"
proof -
  have "length xs = 2" using assms by (metis size_mset size_add_mset size_empty numeral_2_eq_2)
  then obtain x y where "xs = [x, y]" by (auto simp: numeral_2_eq_2 length_Suc_conv)
  with assms show ?thesis by (auto simp: add_eq_conv_ex)
qed

lemma with_record_room:
  assumes "map_of (me_records e) i = Some r"
  shows "with_record now i f e = e\<lparr>me_records := AList.update i (f r) (me_records e)\<rparr>"
  using assms by (simp add: with_record_def ensureRecord_def)

text \<open>A record that is not too old survives an eviction that has room.\<close>

lemma evictLocked_room:
  assumes "int (length (me_records e)) \<le> maxRecords e"
  shows "evictLocked iter now e = Some (e\<lparr>me_records := live e now\<rparr>)"
proof -
  have "int (length (live e now)) \<le> maxRecords e"
    using assms le_trans[OF length_filter_le] by (auto simp: live_def intro: order_trans[rotated])
  then show ?thesis by (simp add: evictLocked_def live_def[symmetric] evict_loop.simps)
qed

lemma map_of_filter_keep:
  "map_of m i = Some r \<Longrightarrow> P r \<Longrightarrow> map_of (filter (\<lambda>(i, r). P r) m) i = Some r"
  by (induction m) (auto split: if_splits)

lemma length_update_present:
  "i \<in> set (keys m) \<Longrightarrow> length (AList.update i r m) = length m"
  using keys_update_in[of i m r] by (metis keys_def length_map)

definition holds_timing :: "MemoryEngine \<Rightarrow> string \<Rightarrow> requestTiming \<Rightarrow> bool" where
  "holds_timing e i r \<longleftrightarrow> map_of (me_records e) i = Some r
     \<and> int (length (me_records e)) \<le> maxRecords e"

lemma record_keeps:
  assumes "holds_timing e i r" "\<not> shouldEvictRecord (maxAge e) now (f r)"
  shows "\<exists>e'. evictLocked iter now (with_record t i f e) = Some e' \<and> holds_timing e' i (f r)
     \<and> maxAge e' = maxAge e \<and> maxRecords e' = maxRecords e"
proof -
  let ?m = "AList.update i (f r) (me_records e)"
  have w: "with_record t i f e = e\<lparr>me_records := ?m\<rparr>"
    using assms(1) by (intro with_record_room) (simp add: holds_timing_def)
  have "i \<in> set (keys (me_records e))"
    using assms(1) by (auto simp: holds_timing_def keys_def rev_image_eqI dest!: map_of_SomeD)
  then have "length ?m = length (me_records e)" by (rule length_update_present)
  then have room: "int (length (me_records (e\<lparr>me_records := ?m\<rparr>))) \<le> maxRecords (e\<lparr>me_records := ?m\<rparr>)"
    using assms(1) by (simp add: holds_timing_def)
  let ?l = "live (e\<lparr>me_records := ?m\<rparr>) now"
  have "map_of ?l i = Some (f r)"
    using assms(2) by (simp add: live_def map_of_filter_keep update_conv)
  moreover have "length ?l \<le> length ?m" by (simp add: live_def)
  ultimately show ?thesis
    using evictLocked_room[OF room] room by (simp add: w holds_timing_def)
qed

lemma record_first:
  assumes "map_of (me_records e) i = None" "int (length (me_records e)) < maxRecords e"
    "\<not> shouldEvictRecord (maxAge e) now (f (new_timing t))"
  shows "\<exists>e'. evictLocked iter now (with_record t i f e) = Some e' \<and> holds_timing e' i (f (new_timing t))
     \<and> maxAge e' = maxAge e \<and> maxRecords e' = maxRecords e"
proof -
  let ?e = "e\<lparr>me_records := (i, new_timing t) # me_records e\<rparr>"
  have "with_record t i f e = with_record t i f ?e"
    using assms(1) by (simp add: with_record_def ensureRecord_def)
  moreover have "holds_timing ?e i (new_timing t)" using assms(2) by (simp add: holds_timing_def)
  ultimately show ?thesis using record_keeps[of ?e i "new_timing t" now f iter t] assms(3) by simp
qed

lemma sum64_exact:
  assumes "\<forall>x \<in> set xs. 0 \<le> x \<and> x \<le> B" "0 \<le> s" "s + B * int (length xs) < 2 ^ 63"
  shows "foldl (\<lambda>s x. wrap64 (s + x)) s xs = s + sum_list xs"
  using assms
proof (induction xs arbitrary: s)
  case (Cons x xs)
  have x: "0 \<le> x" "x \<le> B" using Cons.prems(1) by auto
  have "s + x + B * int (length xs) < 2 ^ 63" using Cons.prems(3) x by (simp add: algebra_simps)
  moreover have "0 \<le> B * int (length xs)" using x by simp
  ultimately have "s + x < 2 ^ 63" by linarith
  then have w: "wrap64 (s + x) = s + x" using x Cons.prems(2) by (intro wrap64_id) auto
  show ?case using Cons.IH[of "s + x"] Cons.prems x \<open>s + x + B * int (length xs) < 2 ^ 63\<close> w by simp
qed simp

lemma sample_range:
  assumes "timing_sample r = Some sm"
  shows "0 \<le> s_ttftMs sm \<and> s_ttftMs sm \<le> 9223372036854"
proof -
  have "go_div d 1000000 \<le> 9223372036854" if "d \<le> 9223372036854775807" for d :: int
  proof (cases "0 \<le> d")
    case True
    then have "d div 1000000 \<le> 9223372036854775807 div 1000000" using that by (intro zdiv_mono1) auto
    with True show ?thesis by (simp add: go_div_nonneg)
  next
    case False
    then have "go_div d 1000000 \<le> 0" by (simp add: go_div_def)
    then show ?thesis by simp
  qed
  then show ?thesis using assms by (auto simp: timing_sample_def Let_def millis_def time_sub_def split: if_splits)
qed

definition completed :: "timings \<Rightarrow> sample list" where
  "completed m = List.map_filter (\<lambda>(i, r). timing_sample r) m"

lemma mset_map_filter: "mset xs = mset ys \<Longrightarrow> mset (List.map_filter f xs) = mset (List.map_filter f ys)"
  by (simp add: List.map_filter_def)

lemma completed_iter: "permutes_map iter \<Longrightarrow> mset (completed (iter m)) = mset (completed m)"
  unfolding completed_def permutes_map_def by (rule mset_map_filter) simp

lemma length_completed: "length (completed m) \<le> length m"
  by (simp add: completed_def List.map_filter_def)

lemma completed_range:
  assumes "sm \<in> set (completed m)"
  shows "0 \<le> s_ttftMs sm \<and> s_ttftMs sm \<le> 9223372036854"
proof -
  obtain r where "timing_sample r = Some sm"
    using assms by (auto simp: completed_def List.map_filter_def)
  then show ?thesis by (rule sample_range)
qed

lemma f_ratio_unit:
  assumes "0 \<le> a" "a \<le> b"
  shows "0 \<le> f_div (f_of_int a) (f_of_int b) \<and> f_div (f_of_int a) (f_of_int b) \<le> 1"
proof -
  have le: "f_of_int a \<le> f_of_int b" using assms(2) by (simp add: f_of_int_def fl_mono)
  have nn: "0 \<le> f_of_int a" by (rule f_of_int_nonneg[OF assms(1)])
  then have "f_of_int a / f_of_int b \<le> 1" using le by (cases "f_of_int b = 0") (auto simp: divide_le_eq)
  then have "f_div (f_of_int a) (f_of_int b) \<le> fl 1" unfolding f_div_def by (rule fl_mono)
  moreover have "fl 1 = 1" using fl_of_int[of 1] by simp
  ultimately show ?thesis using nn le by (simp add: f_div_def fl_nonneg)
qed

lemma f_avg_nonneg:
  assumes "\<forall>sm \<in> set sms. 0 \<le> s_ttftMs sm \<and> s_ttftMs sm \<le> 9223372036854" "length sms \<le> 1000000"
  shows "0 \<le> f_div (f_of_int (sum64 (map s_ttftMs sms))) (f_of_int (int n))"
proof -
  have "9223372036854 * int (length sms) < 2 ^ 63" using assms(2) by simp
  then have "sum64 (map s_ttftMs sms) = sum_list (map s_ttftMs sms)"
    using sum64_exact[of "map s_ttftMs sms" 9223372036854 0] assms(1) by (simp add: sum64_def)
  moreover have "0 \<le> sum_list (map s_ttftMs sms)" using assms(1) by (intro sum_list_nonneg) auto
  ultimately show ?thesis by (simp add: f_div_def fl_nonneg f_of_int_nonneg)
qed

text \<open>The two aggregates over sorted samples.\<close>

definition aggregate :: "sample list \<Rightarrow> rat \<times> rat" where
  "aggregate srt =
     (let mid = length srt div 2; older = take mid srt; newer = drop mid srt;
          oldAvg = max 1 (f_div (f_of_int (sum64 (map s_ttftMs older))) (f_of_int (int (length older))));
          newAvg = f_div (f_of_int (sum64 (map s_ttftMs newer))) (f_of_int (int (length newer)))
      in (f_div newAvg oldAvg,
          f_div (f_of_int (int (length (filter s_fallback newer)))) (f_of_int (int (length newer)))))"

lemma ScalingAggregates_eq:
  assumes "\<And>xs. mset (sorter xs) = mset xs"
  shows "ScalingAggregates iter sorter e =
     (if length (completed (iter (me_records e))) < 4 then (1, 0)
      else aggregate (sorter (completed (iter (me_records e)))))"
proof -
  have len: "length (sorter xs) = length xs" for xs :: "sample list" by (metis assms size_mset)
  have avg: "(if x < 1 then 1 else x) = max 1 x" for x :: rat by simp
  let ?s = "completed (iter (me_records e))"
  show ?thesis
  proof (cases "length ?s < 4")
    case False
    then have c: "(length ?s < 4) = False" "(length ?s div 2 = 0 \<or> length ?s - length ?s div 2 = 0) = False"
      "min (length ?s) (length ?s div 2) = length ?s div 2" by auto
    show ?thesis
      unfolding ScalingAggregates_def completed_def[symmetric] Let_def aggregate_def avg
      by (simp only: c if_False len length_take length_drop)
  qed (simp add: ScalingAggregates_def completed_def[symmetric])
qed

lemma snapshot_facts:
  "0 \<le> ttft_ms (Snapshot i e) \<and> 0 \<le> tpot_ms (Snapshot i e) \<and> 0 \<le> completion_latency_ms (Snapshot i e)
   \<and> (\<forall>r. map_of (me_records e) i = Some r \<and> rt_endTime r \<noteq> 0 \<and> rt_firstTokenTime r \<noteq> 0 \<longrightarrow>
        (rt_firstTokenTime r \<le> rt_endTime r \<longrightarrow> ttft_ms (Snapshot i e) \<le> completion_latency_ms (Snapshot i e))
        \<and> (let post = millis (time_sub (rt_endTime r) (rt_firstTokenTime r))
           in tpot_ms (Snapshot i e) = (if post \<le> 0 then 0 else max 1 (post div 32))))"
proof -
  have span: "0 \<le> span_ms a b" for a b by (simp add: span_ms_def)
  have div: "0 < p \<Longrightarrow> go_div p 32 = p div 32" for p by (simp add: go_div_nonneg)
  have mono: "span_ms a b \<le> span_ms a c" if "b \<le> c" "b \<noteq> 0" "c \<noteq> 0" for a b c
  proof (cases "0 \<le> b - a")
    case True
    then have "millis (time_sub b a) \<le> millis (time_sub c a)"
      using that by (intro millis_mono) (auto simp: time_sub_def)
    then show ?thesis using that by (auto simp: span_ms_def is_zero_time_def)
  next
    case False
    then have "millis (time_sub b a) \<le> 0" by (auto simp: millis_def time_sub_def go_div_def)
    then show ?thesis using span[of a c] by (auto simp: span_ms_def)
  qed
  show ?thesis
  proof (cases "map_of (me_records e) i")
    case (Some r)
    have "0 \<le> tpot_ms (timing_snapshot r)" by (simp add: timing_snapshot_def Let_def)
    moreover have "tpot_ms (timing_snapshot r)
        = (let post = millis (time_sub (rt_endTime r) (rt_firstTokenTime r))
           in if post \<le> 0 then 0 else max 1 (post div 32))"
      if "rt_endTime r \<noteq> 0" "rt_firstTokenTime r \<noteq> 0"
      using that div by (auto simp: timing_snapshot_def Let_def is_zero_time_def)
    ultimately show ?thesis
      using Some span mono[of "rt_firstTokenTime r" "rt_endTime r" "rt_startTime r"]
      by (simp add: Snapshot_def) (simp add: timing_snapshot_def)
  qed (simp add: Snapshot_def)
qed

section \<open>Properties\<close>

text \<open>
  C28. The SLO store is bounded and never hangs on non-empty request ids: any sequence of recordings
  returns, whatever order the map is ranged in, and leaves at most \<open>max_records\<close> records.
\<close>

theorem slo_store_bounded:
  assumes "\<forall>x \<in> set ops. permutes_map (snd x) \<and> op_id (fst x) \<noteq> []" "0 < n"
  shows "\<exists>e. run_slo ops (NewMemoryEngineFromConfig n age) = Some e
     \<and> int (length (me_records e)) \<le> n \<and> distinct (keys (me_records e))"
  using run_slo_returns[OF assms(1), of "NewMemoryEngineFromConfig n age"] assms(2)
  by (auto simp: NewMemoryEngineFromConfig_def slo_ok_def keys_def)

text \<open>
  C31. Eviction: what is kept is exactly as many of the records that are not too old as fit, and no
  record evicted for space is younger (by completion, or insertion while it runs) than a kept one.
\<close>

theorem eviction_keeps_youngest:
  assumes "permutes_map iter" "slo_ok e"
  shows "\<exists>e'. evictLocked iter now e = Some e'
     \<and> evicted_to (maxRecords e) (live e now) (me_records e')"
  using evictLocked_returns[OF assms] by blast

text \<open>
  A record with the empty request id makes the engine hang: when it is the oldest of too many
  records, the eviction loop never removes anything and the method never returns (with the lock
  held).
\<close>

lemma empty_id_hangs:
  assumes "permutes_map iter"
  shows "\<exists>e1. RecordStart iter 1 1 1 [] (NewMemoryEngineFromConfig 1 1000) = Some e1
     \<and> RecordStart iter 2 2 2 (CHR ''a'' # rest) e1 = None"
proof -
  let ?e = "NewMemoryEngineFromConfig 1 1000" and ?r = "(new_timing 1)\<lparr>rt_startTime := 1\<rparr>"
  let ?e1 = "?e\<lparr>me_records := [([], ?r)]\<rparr>"
  let ?q = "(new_timing 2)\<lparr>rt_startTime := 2\<rparr>"
  let ?m = "[(CHR ''a'' # rest, ?q), ([], ?r)]"
  have age: "maxAge ?e = 1000000000" "maxRecords ?e = 1" "me_records ?e = []"
    by (simp_all add: NewMemoryEngineFromConfig_def dur_ms_def wrap64_def)
  have "RecordStart iter 1 1 1 [] ?e = Some ?e1"
    by (simp add: RecordStart_def evictLocked_def with_record_def ensureRecord_def new_timing_def age
        shouldEvictRecord_def go_time evict_loop.simps)
  moreover have "RecordStart iter 2 2 2 (CHR ''a'' # rest) ?e1
      = map_option (\<lambda>m. ?e1\<lparr>me_records := m\<rparr>) (evict_loop iter 1 ?m)"
    by (simp add: RecordStart_def evictLocked_def with_record_def ensureRecord_def new_timing_def age
        shouldEvictRecord_def go_time)
  moreover have "evictOneOldestLocked iter ?m = ?m"
  proof -
    have "mset (iter ?m) = mset ?m" using assms by (simp add: permutes_map_def)
    then have "iter ?m = [(CHR ''a'' # rest, ?q), ([], ?r)] \<or> iter ?m = [([], ?r), (CHR ''a'' # rest, ?q)]"
      by (intro mset_pair) simp
    then show ?thesis
      by (auto simp: evictOneOldestLocked_def age_key_def before_def new_timing_def go_time)
  qed
  ultimately show ?thesis using evict_loop_stuck[of iter ?m 1] by simp
qed

text \<open>
  A request's timings: when the store has room and no recording comes later than the retention
  after the times it records, the snapshot after start, first token and completion is computed
  from exactly those three times; other requests do not disturb it.
\<close>

lemma recorded_timings:
  assumes "map_of (me_records e) i = None" "int (length (me_records e)) < maxRecords e"
    and "RecordStart iter1 ins start ev1 i e = Some e1"
    and "RecordFirstToken iter2 x2 first ev2 i e1 = Some e2"
    and "RecordCompletion iter3 x3 done ev3 i e2 = Some e3"
    and "time_sub ev1 ins \<le> maxAge e" "time_sub ev2 ins \<le> maxAge e" "time_sub ev3 done \<le> maxAge e"
    and "done \<noteq> 0"
  shows "Snapshot i e3 = timing_snapshot \<lparr>rt_insertedAt = ins, rt_startTime = start,
     rt_firstTokenTime = first, rt_endTime = done, rt_fallback = False\<rparr>"
proof -
  let ?r1 = "(new_timing ins)\<lparr>rt_startTime := start\<rparr>"
  let ?r2 = "?r1\<lparr>rt_firstTokenTime := first\<rparr>" and ?r3 = "?r1\<lparr>rt_firstTokenTime := first, rt_endTime := done\<rparr>"
  have "\<not> shouldEvictRecord (maxAge e) ev1 ?r1"
    using assms(6) by (simp add: shouldEvictRecord_def new_timing_def is_zero_time_def)
  from record_first[where f = "\<lambda>r. r\<lparr>rt_startTime := start\<rparr>" and iter = iter1, OF assms(1,2) this] assms(3)
  have e1: "holds_timing e1 i ?r1" "maxAge e1 = maxAge e" by (auto simp: RecordStart_def)
  have "\<not> shouldEvictRecord (maxAge e1) ev2 ?r2"
    using assms(7) e1(2) by (simp add: shouldEvictRecord_def new_timing_def is_zero_time_def)
  from record_keeps[where f = "\<lambda>r. r\<lparr>rt_firstTokenTime := first\<rparr>" and iter = iter2 and t = x2, OF e1(1) this]
    assms(4) have e2: "holds_timing e2 i ?r2" "maxAge e2 = maxAge e"
    using e1(2) by (auto simp: RecordFirstToken_def)
  have "\<not> shouldEvictRecord (maxAge e2) ev3 ?r3"
    using assms(8,9) e2(2) by (simp add: shouldEvictRecord_def is_zero_time_def)
  from record_keeps[where f = "\<lambda>r. r\<lparr>rt_endTime := done\<rparr>" and iter = iter3 and t = x3, OF e2(1) this]
    assms(5) have "holds_timing e3 i ?r3" by (auto simp: RecordCompletion_def)
  then show ?thesis by (simp add: Snapshot_def holds_timing_def new_timing_def)
qed

text \<open>
  A snapshot is well formed: no metric is negative, the time to first token is at most the
  completion latency when the first token is not after the end, and the time per output token is
  an estimate of 1/32 of the time after the first token, at least 1 whenever that is positive.
\<close>

lemma snapshot_well_formed:
  "0 \<le> ttft_ms (Snapshot i e) \<and> 0 \<le> tpot_ms (Snapshot i e) \<and> 0 \<le> completion_latency_ms (Snapshot i e)
   \<and> (\<forall>r. map_of (me_records e) i = Some r \<and> rt_endTime r \<noteq> 0 \<and> rt_firstTokenTime r \<noteq> 0 \<longrightarrow>
        (rt_firstTokenTime r \<le> rt_endTime r \<longrightarrow> ttft_ms (Snapshot i e) \<le> completion_latency_ms (Snapshot i e))
        \<and> (let post = millis (time_sub (rt_endTime r) (rt_firstTokenTime r))
           in tpot_ms (Snapshot i e) = (if post \<le> 0 then 0 else max 1 (post div 32))))"
  by (rule snapshot_facts)

text \<open>
  The scaling aggregates, for a store of at most a million records, any order of the map and
  any sort: the ratio is not negative, the fallback rate lies in [0,1] and is 0 when no completed
  request fell back, and with fewer than four completed requests the neutral (1, 0) is returned.
\<close>

lemma aggregates_bounds:
  assumes "permutes_map iter" "\<And>xs. mset (sorter xs) = mset xs"
    and "length (me_records e) \<le> 1000000"
    and "ScalingAggregates iter sorter e = (ratio, rate)"
  shows "0 \<le> ratio \<and> 0 \<le> rate \<and> rate \<le> 1
     \<and> (length (completed (me_records e)) < 4 \<longrightarrow> ratio = 1 \<and> rate = 0)
     \<and> ((\<forall>sm \<in> set (completed (me_records e)). \<not> s_fallback sm) \<longrightarrow> rate = 0)"
proof -
  let ?s = "sorter (completed (iter (me_records e)))"
  have ms: "mset ?s = mset (completed (me_records e))"
    using assms(2) completed_iter[OF assms(1)] by simp
  then have len: "length ?s = length (completed (me_records e))"
    "length (completed (iter (me_records e))) = length (completed (me_records e))"
    and set: "set ?s = set (completed (me_records e))"
    using completed_iter[OF assms(1)] by (metis size_mset, metis size_mset, metis set_mset_mset)
  show ?thesis
  proof (cases "length (completed (me_records e)) < 4")
    case True
    then show ?thesis using assms(4) by (simp add: ScalingAggregates_eq[OF assms(2)] len)
  next
    case False
    define newer where "newer = drop (length ?s div 2) ?s"
    have new: "set newer \<subseteq> set (completed (me_records e))" "length newer \<le> 1000000"
      using set assms(3) length_completed[of "me_records e"] len
      by (auto simp: newer_def dest: in_set_dropD)
    have agg: "aggregate ?s = (ratio, rate)"
      using False assms(4) by (simp add: ScalingAggregates_eq[OF assms(2)] len)
    then have rate: "rate = f_div (f_of_int (int (length (filter s_fallback newer))))
        (f_of_int (int (length newer)))"
      by (simp add: aggregate_def Let_def newer_def)
    have "0 \<le> f_div (f_of_int (sum64 (map s_ttftMs newer))) (f_of_int (int (length newer)))"
      using new completed_range by (intro f_avg_nonneg) auto
    moreover obtain old where "1 \<le> old"
      "ratio = f_div (f_div (f_of_int (sum64 (map s_ttftMs newer))) (f_of_int (int (length newer)))) old"
      using agg unfolding aggregate_def Let_def newer_def[symmetric] by (metis max.cobounded1 prod.inject)
    ultimately have "0 \<le> ratio" by (simp add: f_div_def fl_nonneg)
    moreover have "0 \<le> rate \<and> rate \<le> 1" unfolding rate by (rule f_ratio_unit) auto
    moreover have "rate = 0" if "\<forall>sm \<in> set (completed (me_records e)). \<not> s_fallback sm"
    proof -
      have "filter s_fallback newer = []" using that new(1) by (auto simp: filter_empty_conv)
      then show ?thesis unfolding rate by (simp add: f_of_int_def f_div_def)
    qed
    ultimately show ?thesis using False by auto
  qed
qed

section \<open>Witnesses\<close>

theorem slo_store_bounded_witness:
  "\<exists>e. run_slo [(OpStart 1 1 1 ''a'', id), (OpStart 2 2 2 ''b'', rev)] (NewMemoryEngineFromConfig 1 1000) = Some e
     \<and> int (length (me_records e)) \<le> 1"
proof -
  have "\<forall>x \<in> set [(OpStart 1 1 1 ''a'', id), (OpStart 2 2 2 ''b'', rev)].
      permutes_map (snd x) \<and> op_id (fst x) \<noteq> []" by (simp add: permutes_map_def)
  from slo_store_bounded[OF this, of 1 1000] show ?thesis by (auto simp del: run_slo.simps)
qed

theorem eviction_keeps_youngest_witness:
  "\<exists>e'. evictLocked rev 5 (NewMemoryEngineFromConfig 2 1000) = Some e'"
  using eviction_keeps_youngest[of rev "NewMemoryEngineFromConfig 2 1000" 5]
  by (auto simp: permutes_map_def slo_ok_def NewMemoryEngineFromConfig_def keys_def)

lemma empty_id_hangs_witness:
  "\<exists>e1. RecordStart rev 1 1 1 [] (NewMemoryEngineFromConfig 1 1000) = Some e1
     \<and> RecordStart rev 2 2 2 ''a'' e1 = None"
  using empty_id_hangs[of rev "[]"] by (simp add: permutes_map_def)

lemma recorded_timings_witness:
  "\<exists>e1 e2 e3. RecordStart id 1 1 1 ''a'' (NewMemoryEngineFromConfig 2 1000) = Some e1
     \<and> RecordFirstToken id 2 3000001 3000002 ''a'' e1 = Some e2
     \<and> RecordCompletion id 4 9000001 9000002 ''a'' e2 = Some e3
     \<and> ttft_ms (Snapshot ''a'' e3) = 3 \<and> completion_latency_ms (Snapshot ''a'' e3) = 9"
proof -
  let ?e = "NewMemoryEngineFromConfig 2 1000"
  have e: "me_records ?e = []" "maxRecords ?e = 2" "maxAge ?e = 1000000000"
    by (simp_all add: NewMemoryEngineFromConfig_def dur_ms_def wrap64_def)
  have ok: "permutes_map id" "slo_ok ?e" by (auto simp: permutes_map_def slo_ok_def e keys_def)
  obtain e1 where e1: "RecordStart id 1 1 1 ''a'' ?e = Some e1" "slo_ok e1"
    using slo_step_returns[OF ok, of "OpStart 1 1 1 ''a''"] by auto
  obtain e2 where e2: "RecordFirstToken id 2 3000001 3000002 ''a'' e1 = Some e2" "slo_ok e2"
    using slo_step_returns[OF ok(1) e1(2), of "OpFirstToken 2 3000001 3000002 ''a''"] by auto
  obtain e3 where e3: "RecordCompletion id 4 9000001 9000002 ''a'' e2 = Some e3"
    using slo_step_returns[OF ok(1) e2(2), of "OpCompletion 4 9000001 9000002 ''a''"] by auto
  have "Snapshot ''a'' e3 = timing_snapshot \<lparr>rt_insertedAt = 1, rt_startTime = 1,
     rt_firstTokenTime = 3000001, rt_endTime = 9000001, rt_fallback = False\<rparr>"
    by (rule recorded_timings[OF _ _ e1(1) e2(1) e3]) (simp_all add: e time_sub_def)
  with e1(1) e2(1) e3 show ?thesis
    by (simp add: timing_snapshot_def span_ms_def is_zero_time_def time_sub_def millis_def go_div_def)
qed

lemma aggregates_bounds_witness:
  "\<exists>ratio rate. ScalingAggregates id (\<lambda>xs. xs) (NewMemoryEngineFromConfig 2 1000) = (ratio, rate)
     \<and> rate \<le> 1"
  using aggregates_bounds[of id "\<lambda>xs. xs" "NewMemoryEngineFromConfig 2 1000"]
  by (cases "ScalingAggregates id (\<lambda>xs. xs) (NewMemoryEngineFromConfig 2 1000)")
     (simp add: permutes_map_def NewMemoryEngineFromConfig_def)

end
