(* ===== verification/Runtime_State.thy ===== *)
theory Runtime_State
  imports Admission Slo Routing
begin

text \<open>
  The runtime state that \<open>internal/server/server.go\<close> keeps beside the admission counter: the cached
  backend health with its TTL, the window of timeouts, the timeouts of the HTTP server and of an
  inference, and the scaling signals read from all of them. Readings of the clock are arguments.
  The lemmas: a health map covers exactly the configured backends and is probed again only when
  the cache is stale; what an active timeout spike says about the last minute.
\<close>

section \<open>Backend health\<close>

record HealthCache =
  hc_snapshot :: "(string \<times> bool) list option"
  hc_at :: gotime

definition empty_cache :: HealthCache where
  "empty_cache = \<lparr>hc_snapshot = None, hc_at = 0\<rparr>"

definition health_ttl :: "Config \<Rightarrow> duration" where
  "health_ttl cfg =
     (let ttl = dur_ms (health_cache_ttl_ms (server cfg)) in if ttl \<le> 0 then 2 * second else ttl)"

definition health_per_check :: "Config \<Rightarrow> duration" where
  "health_per_check cfg =
     (let d = dur_ms (health_check_per_ms (server cfg)) in if d \<le> 0 then dur_ms 1500 else d)"

definition peekFreshHealthSnapshot :: "duration \<Rightarrow> gotime \<Rightarrow> HealthCache \<Rightarrow> (string \<times> bool) list option" where
  "peekFreshHealthSnapshot ttl now c =
     (case hc_snapshot c of
        None \<Rightarrow> None
      | Some m \<Rightarrow> if time_sub now (hc_at c) < ttl then Some m else None)"

text \<open>
  The probe of all backends, in the order of the configuration. \<open>probe n d w\<close> is the \<open>Health\<close> call
  of the adapter of \<open>n\<close>, with its timeout, in the outside state \<open>w\<close>; \<open>has_adapter\<close> is the lookup
  in the adapter map.
\<close>

fun probe_loop ::
  "(string \<Rightarrow> bool) \<Rightarrow> (string \<Rightarrow> duration \<Rightarrow> 'w \<Rightarrow> goerr option \<times> 'w) \<Rightarrow> duration \<Rightarrow> BackendConfig list
     \<Rightarrow> (string \<times> bool) list \<Rightarrow> 'w \<Rightarrow> (string \<times> bool) list \<times> 'w" where
  "probe_loop has_adapter probe per [] out w = (out, w)"
| "probe_loop has_adapter probe per (b # bs) out w =
     (if \<not> has_adapter (b_name b)
      then probe_loop has_adapter probe per bs (AList.update (b_name b) False out) w
      else (let (err, w') = probe (b_name b) per w
            in probe_loop has_adapter probe per bs (AList.update (b_name b) (err = None) out) w'))"

definition probeBackendHealth ::
  "Config \<Rightarrow> (string \<Rightarrow> bool) \<Rightarrow> (string \<Rightarrow> duration \<Rightarrow> 'w \<Rightarrow> goerr option \<times> 'w) \<Rightarrow> duration \<Rightarrow> 'w
     \<Rightarrow> (string \<times> bool) list \<times> 'w" where
  "probeBackendHealth cfg has_adapter probe per w =
     probe_loop has_adapter probe per (backends cfg) [] w"

text \<open>
  \<open>cachedBackendHealth\<close> by one caller: \<open>t1\<close> is the time of the first look at the cache, \<open>t2\<close> of
  the look inside the flight (when another caller may have filled it), \<open>t3\<close> of the store.
\<close>

definition cachedBackendHealth ::
  "Config \<Rightarrow> (string \<Rightarrow> bool) \<Rightarrow> (string \<Rightarrow> duration \<Rightarrow> 'w \<Rightarrow> goerr option \<times> 'w)
     \<Rightarrow> gotime \<Rightarrow> gotime \<Rightarrow> gotime \<Rightarrow> HealthCache \<times> 'w \<Rightarrow> (string \<times> bool) list \<times> HealthCache \<times> 'w" where
  "cachedBackendHealth cfg has_adapter probe t1 t2 t3 cw =
     (let (c, w) = cw; ttl = health_ttl cfg; per = health_per_check cfg
      in case peekFreshHealthSnapshot ttl t1 c of
           Some m \<Rightarrow> (m, c, w)
         | None \<Rightarrow>
             (case peekFreshHealthSnapshot ttl t2 c of
                Some m \<Rightarrow> (m, c, w)
              | None \<Rightarrow>
                  (let (out, w') = probeBackendHealth cfg has_adapter probe per w
                   in (out, \<lparr>hc_snapshot = Some out, hc_at = t3\<rparr>, w'))))"

definition covers :: "Config \<Rightarrow> (string \<times> bool) list \<Rightarrow> bool" where
  "covers cfg m \<longleftrightarrow> fst ` set m = b_name ` set (backends cfg)"

lemma probe_loop_names:
  "fst ` set (fst (probe_loop h p per bs out w)) = fst ` set out \<union> b_name ` set bs"
proof (induction h p per bs out w rule: probe_loop.induct)
  case (2 h p per b bs out w)
  then show ?case
    by (cases "p (b_name b) per w") (auto simp: dom_update update_keys image_iff split: if_splits)
qed simp

lemma probe_loop_no_adapter:
  assumes "map_of (fst (probe_loop h p per bs out w)) n = Some True" "\<not> h n"
  shows "map_of out n = Some True"
  using assms
proof (induction h p per bs out w rule: probe_loop.induct)
  case (2 h p per b bs out w)
  then show ?case
    by (cases "p (b_name b) per w"; cases "n = b_name b") (auto simp: update_conv split: if_splits)
qed simp

section \<open>Timeouts\<close>

definition HTTPLayerTimeouts :: "Config \<Rightarrow> duration \<times> duration \<times> duration" where
  "HTTPLayerTimeouts cfg =
     (let ms = (if request_timeout_ms (server cfg) \<le> 0 then 30000 else request_timeout_ms (server cfg));
          req = dur_ms ms;
          read = wrap64 (req + 2 * minute);
          write = wrap64 (req + 30 * second);
          idle = 2 * minute
      in (if 0 < read_timeout_ms (server cfg) then dur_ms (read_timeout_ms (server cfg)) else read,
          if 0 < write_timeout_ms (server cfg) then dur_ms (write_timeout_ms (server cfg)) else write,
          if 0 < idle_timeout_ms (server cfg) then dur_ms (idle_timeout_ms (server cfg)) else idle))"

definition inferRequestTimeout :: "Config \<Rightarrow> duration" where
  "inferRequestTimeout cfg =
     (if request_timeout_ms (server cfg) \<le> 0 then 30 * second else dur_ms (request_timeout_ms (server cfg)))"

section \<open>The window of timeouts\<close>

record TimeoutSpike =
  timeoutSpikeWin :: gotime
  timeoutSpikeCnt :: int

definition no_spike :: TimeoutSpike where
  "no_spike = \<lparr>timeoutSpikeWin = 0, timeoutSpikeCnt = 0\<rparr>"

definition minTimeoutsPerMinuteForSpike :: int where
  "minTimeoutsPerMinuteForSpike = 3"

definition recordTimeoutSpike :: "gotime \<Rightarrow> TimeoutSpike \<Rightarrow> TimeoutSpike" where
  "recordTimeoutSpike now s =
     (let s1 = (if time_sub now (timeoutSpikeWin s) > minute
                then s\<lparr>timeoutSpikeWin := now, timeoutSpikeCnt := 0\<rparr> else s)
      in s1\<lparr>timeoutSpikeCnt := timeoutSpikeCnt s1 + 1\<rparr>)"

definition timeoutSpikeActive :: "gotime \<Rightarrow> TimeoutSpike \<Rightarrow> bool" where
  "timeoutSpikeActive now s \<longleftrightarrow>
     (if time_sub now (timeoutSpikeWin s) > minute then False
      else minTimeoutsPerMinuteForSpike \<le> timeoutSpikeCnt s)"

definition noteTimeoutForScaling :: "goerr option \<Rightarrow> gotime \<Rightarrow> TimeoutSpike \<Rightarrow> TimeoutSpike" where
  "noteTimeoutForScaling err now s =
     (case err of
        None \<Rightarrow> s
      | Some e \<Rightarrow>
          if is_deadline e then recordTimeoutSpike now s
          else (case as_upstream e of
                  Some (KindTimeout, _) \<Rightarrow> recordTimeoutSpike now s
                | _ \<Rightarrow> s))"

definition record_timeouts :: "gotime list \<Rightarrow> TimeoutSpike \<Rightarrow> TimeoutSpike" where
  "record_timeouts ts s = fold recordTimeoutSpike ts s"

text \<open>The recordings not after \<open>now\<close> and at most a minute before it.\<close>

definition in_minute :: "gotime \<Rightarrow> gotime list \<Rightarrow> gotime list" where
  "in_minute now ts = filter (\<lambda>t. now - minute \<le> t \<and> t \<le> now) ts"

text \<open>The window holds the last \<open>timeoutSpikeCnt\<close> recordings, all of them since its start.\<close>

lemma record_timeouts_window:
  assumes "sorted ts" "\<forall>t \<in> set ts. 0 \<le> t"
  shows "\<exists>old new. ts = old @ new \<and> timeoutSpikeCnt (record_timeouts ts no_spike) = int (length new)
     \<and> 0 \<le> timeoutSpikeWin (record_timeouts ts no_spike)
     \<and> (\<forall>t \<in> set new. timeoutSpikeWin (record_timeouts ts no_spike) \<le> t)
     \<and> (new = [] \<longrightarrow> timeoutSpikeWin (record_timeouts ts no_spike) = 0)"
  using assms
proof (induction ts rule: rev_induct)
  case Nil
  show ?case by (simp add: record_timeouts_def no_spike_def)
next
  case (snoc t ts)
  let ?s = "record_timeouts ts no_spike"
  have "sorted ts" "\<forall>t \<in> set ts. 0 \<le> t" using snoc.prems by (auto simp: sorted_append)
  from snoc.IH[OF this] obtain old new where on: "ts = old @ new" "timeoutSpikeCnt ?s = int (length new)"
    "0 \<le> timeoutSpikeWin ?s" "\<forall>u \<in> set new. timeoutSpikeWin ?s \<le> u"
    "new = [] \<longrightarrow> timeoutSpikeWin ?s = 0" by blast
  have r: "record_timeouts (ts @ [t]) no_spike = recordTimeoutSpike t ?s" by (simp add: record_timeouts_def)
  show ?case
  proof (cases "time_sub t (timeoutSpikeWin ?s) > minute")
    case True
    have "timeoutSpikeCnt (recordTimeoutSpike t ?s) = 1" "timeoutSpikeWin (recordTimeoutSpike t ?s) = t"
      using True by (simp_all add: recordTimeoutSpike_def Let_def)
    then show ?thesis
      unfolding r using snoc.prems by (intro exI[of _ ts] exI[of _ "[t]"]) simp
  next
    case False
    have s: "timeoutSpikeCnt (recordTimeoutSpike t ?s) = int (length new) + 1"
      "timeoutSpikeWin (recordTimeoutSpike t ?s) = timeoutSpikeWin ?s"
      using False on(2) by (simp_all add: recordTimeoutSpike_def Let_def)
    have "timeoutSpikeWin ?s \<le> t"
    proof (cases new)
      case Nil
      then show ?thesis using on(5) snoc.prems(2) by simp
    next
      case (Cons u us)
      then show ?thesis using on(1,4) snoc.prems(1) by (force simp: sorted_append)
    qed
    then show ?thesis
      unfolding r using s on by (intro exI[of _ old] exI[of _ "new @ [t]"]) auto
  qed
qed

section \<open>Signals\<close>

definition backendSaturationHints :: "Config \<Rightarrow> string list" where
  "backendSaturationHints cfg =
     map (\<lambda>b. b_name b @ '':max_concurrency='' @ show_int (b_max_concurrency b))
       (filter (\<lambda>b. 0 < b_max_concurrency b) (backends cfg))"

definition CurrentSignals ::
  "Config \<Rightarrow> (timings \<Rightarrow> timings) \<Rightarrow> (sample list \<Rightarrow> sample list) \<Rightarrow> gotime \<Rightarrow> MemoryEngine option
     \<Rightarrow> TimeoutSpike \<Rightarrow> 32 word \<Rightarrow> ScalingSignals" where
  "CurrentSignals cfg iter sorter now slo spike n =
     (let (ttftRatio, fbRate) = (case slo of None \<Rightarrow> (1, 0) | Some me \<Rightarrow> ScalingAggregates iter sorter me)
      in \<lparr>ss_queue_depth = sint n, ss_timeout_spike = timeoutSpikeActive now spike,
          ss_ttft_degradation_ratio = ttftRatio, ss_recent_fallback_rate = fbRate,
          ss_backend_saturation_hints = backendSaturationHints cfg\<rparr>)"

section \<open>Properties\<close>

definition cache_ok :: "Config \<Rightarrow> (string \<Rightarrow> bool) \<Rightarrow> HealthCache \<Rightarrow> bool" where
  "cache_ok cfg has_adapter c \<longleftrightarrow>
     (case hc_snapshot c of
        None \<Rightarrow> True
      | Some m \<Rightarrow> covers cfg m \<and> (\<forall>n. map_of m n = Some True \<longrightarrow> has_adapter n))"

lemma peek_Some: "peekFreshHealthSnapshot ttl t c = Some m \<Longrightarrow> hc_snapshot c = Some m"
  by (auto simp: peekFreshHealthSnapshot_def split: option.splits if_splits)

lemma probe_ok:
  "cache_ok cfg h \<lparr>hc_snapshot = Some (fst (probeBackendHealth cfg h probe per w)), hc_at = t\<rparr>"
  using probe_loop_names[of h probe per "backends cfg" "[]" w]
    probe_loop_no_adapter[of h probe per "backends cfg" "[]" w]
  by (auto simp: cache_ok_def covers_def probeBackendHealth_def)

lemma cachedBackendHealth_ok:
  assumes "cache_ok cfg h c" "cachedBackendHealth cfg h probe t1 t2 t3 (c, w) = (m, c', w')"
  shows "cache_ok cfg h c' \<and> hc_snapshot c' = Some m
     \<and> (c' = c \<and> w' = w \<or> peekFreshHealthSnapshot (health_ttl cfg) t1 c = None \<and> hc_at c' = t3)"
  using assms probe_ok[of cfg h probe "health_per_check cfg" w]
  by (auto simp: cachedBackendHealth_def Let_def split: option.splits prod.splits dest: peek_Some)

text \<open>
  C36. The health map that routing and \<open>/status\<close> use covers exactly the configured backends, marks
  no backend healthy that has no adapter, and is the one kept in the cache; the backends are
  probed only when the cache was stale, and then the cache is as of the probe.
\<close>

theorem health_map_complete:
  assumes "cache_ok cfg h c" "cachedBackendHealth cfg h probe t1 t2 t3 (c, w) = (m, c', w')"
  shows "covers cfg m \<and> (\<forall>n. map_of m n = Some True \<longrightarrow> h n) \<and> cache_ok cfg h c'
     \<and> (peekFreshHealthSnapshot (health_ttl cfg) t1 c \<noteq> None \<longrightarrow> c' = c \<and> w' = w)
     \<and> (c' \<noteq> c \<longrightarrow> hc_at c' = t3)"
  using cachedBackendHealth_ok[OF assms] by (auto simp: cache_ok_def)

text \<open>
  With such a health map no request is routed to a backend without an adapter.
\<close>

lemma routed_backend_has_adapter:
  assumes "cache_ok cfg h c" "cachedBackendHealth cfg h probe t1 t2 t3 (c, w) = (m, c', w')"
    and "SelectRoute cfg engine ctx req \<lparr>queue_depth = q, backend_health = Some m,
      recent_timeout_spike = spike, overload_degrade = dg\<rparr> = Inr d"
  shows "h (backend_name d)"
proof -
  have m: "covers cfg m" "\<forall>n. map_of m n = Some True \<longrightarrow> h n"
    using cachedBackendHealth_ok[OF assms(1,2)] by (auto simp: cache_ok_def)
  obtain b where b: "b \<in> set (backends cfg)" "backend_name d = b_name b" "BackendHealthOK (Some m) (b_name b)"
    using SelectRoute_usable[OF assms(3)] by (auto simp: usable_choice_def backendSelectable_def)
  have "b_name b \<in> fst ` set m" using m(1) b(1) by (simp add: covers_def)
  then obtain v where "map_of m (b_name b) = Some v" by (metis domD dom_map_of_conv_image_fst)
  then show ?thesis using b(2,3) m(2) by (simp add: BackendHealthOK_def)
qed

text \<open>
  A reported timeout spike is real: at least three timeouts were recorded in the minute before.
\<close>

lemma spike_active_sound:
  assumes "sorted ts" "\<forall>t \<in> set ts. 0 \<le> t \<and> t \<le> now"
    and "timeoutSpikeActive now (record_timeouts ts no_spike)"
  shows "3 \<le> length (in_minute now ts)"
proof -
  let ?s = "record_timeouts ts no_spike"
  obtain old new where on: "ts = old @ new" "timeoutSpikeCnt ?s = int (length new)"
    "\<forall>t \<in> set new. timeoutSpikeWin ?s \<le> t"
    using record_timeouts_window[OF assms(1)] assms(2) by auto
  have "now - timeoutSpikeWin ?s \<le> minute" "3 \<le> timeoutSpikeCnt ?s"
    using assms(3) by (auto simp: timeoutSpikeActive_def time_sub_def minTimeoutsPerMinuteForSpike_def
        split: if_splits)
  then have "in_minute now new = new" "3 \<le> length new"
    using on assms(2) by (auto simp: in_minute_def filter_id_conv)
  then show ?thesis using on(1) by (simp add: in_minute_def)
qed

text \<open>
  The window of timeouts is not rolling: four timeouts, three of them within the last minute,
  can leave the spike inactive, because a window that began earlier was reset in between.
\<close>

lemma spike_window_not_rolling:
  "let ts = [100 * second, 158 * second, 161 * second, 162 * second]
   in length (in_minute (162 * second) ts) = 3
      \<and> \<not> timeoutSpikeActive (162 * second) (record_timeouts ts no_spike)"
  by (simp add: in_minute_def record_timeouts_def recordTimeoutSpike_def no_spike_def Let_def
      timeoutSpikeActive_def time_sub_def minTimeoutsPerMinuteForSpike_def)

text \<open>
  Unless set by hand, the HTTP server's timeouts outlast the inference budget: two minutes more
  for reading, thirty seconds more for writing (for budgets below 292 years, where the duration
  does not wrap).
\<close>

lemma http_timeouts_outlast_budget:
  assumes "0 < request_timeout_ms (server cfg)" "request_timeout_ms (server cfg) \<le> 9223371000000"
    and "HTTPLayerTimeouts cfg = (read, write, idle)"
  shows "(read_timeout_ms (server cfg) \<le> 0 \<longrightarrow> read = inferRequestTimeout cfg + 2 * minute)
     \<and> (write_timeout_ms (server cfg) \<le> 0 \<longrightarrow> write = inferRequestTimeout cfg + 30 * second)
     \<and> 0 < inferRequestTimeout cfg"
proof -
  let ?ms = "request_timeout_ms (server cfg)"
  have d: "dur_ms ?ms = ?ms * 1000000" using assms(1,2) by (intro dur_ms_exact) auto
  have "wrap64 (?ms * 1000000 + 2 * minute) = ?ms * 1000000 + 2 * minute"
    "wrap64 (?ms * 1000000 + 30 * second) = ?ms * 1000000 + 30 * second"
    using assms(1,2) by (auto intro!: wrap64_id)
  then show ?thesis using assms d by (auto simp: HTTPLayerTimeouts_def inferRequestTimeout_def Let_def)
qed

definition huge_timeout_config :: Config where
  "huge_timeout_config = apply_defaults (example_config\<lparr>server :=
     (server example_config)\<lparr>request_timeout_ms := 9223372036855\<rparr>\<rparr>)"

text \<open>
  \<open>request_timeout_ms\<close> has no upper bound in the checks of \<open>Load\<close>: one above 292 years makes the
  inference budget negative, so that every call is past its deadline when it starts.
\<close>

lemma huge_timeout_negative:
  "validate huge_timeout_config = None \<and> inferRequestTimeout huge_timeout_config < 0"
proof
  show "validate huge_timeout_config = None" unfolding huge_timeout_config_def by code_simp
  have "request_timeout_ms (server huge_timeout_config) = 9223372036855"
    by (simp add: huge_timeout_config_def apply_defaults_def server_defaults_def)
  moreover have "dur_ms 9223372036855 = - 9223372036854551616" by (simp add: dur_ms_def wrap64_over)
  ultimately show "inferRequestTimeout huge_timeout_config < 0"
    by (simp add: inferRequestTimeout_def)
qed

section \<open>Witnesses\<close>

definition all_up :: "string \<Rightarrow> duration \<Rightarrow> unit \<Rightarrow> goerr option \<times> unit" where
  "all_up n d w = (None, ())"

lemma empty_cache_ok: "cache_ok cfg h empty_cache"
  by (simp add: cache_ok_def empty_cache_def)

theorem health_map_complete_witness:
  "\<exists>m c'. cachedBackendHealth small_config (\<lambda>n. n = ''small'') all_up 5 6 7 (empty_cache, ()) = (m, c', ())
     \<and> covers small_config m \<and> map_of m ''large'' \<noteq> Some True"
proof -
  obtain m c' u where x: "cachedBackendHealth small_config (\<lambda>n. n = ''small'') all_up 5 6 7 (empty_cache, ())
      = (m, c', u)" by (rule prod_cases3)
  from health_map_complete[OF empty_cache_ok x] x show ?thesis by auto
qed

lemma routed_backend_has_adapter_witness:
  "\<exists>m c' d. cachedBackendHealth small_config (\<lambda>n. n = ''small'') all_up 5 6 7 (empty_cache, ()) = (m, c', ())
     \<and> SelectRoute small_config None None zero_request \<lparr>queue_depth = 0, backend_health = Some m,
         recent_timeout_spike = False, overload_degrade = False\<rparr> = Inr d \<and> backend_name d = ''small''"
proof -
  have m: "cachedBackendHealth small_config (\<lambda>n. n = ''small'') all_up 5 6 7 (empty_cache, ())
      = ([(''small'', True), (''large'', False)], \<lparr>hc_snapshot = Some [(''small'', True), (''large'', False)],
           hc_at = 7\<rparr>, ())"
    by (simp add: cachedBackendHealth_def empty_cache_def peekFreshHealthSnapshot_def
        probeBackendHealth_def small_defs all_up_def)
  let ?st = "\<lparr>queue_depth = 0, backend_health = Some [(''small'', True), (''large'', False)],
         recent_timeout_spike = False, overload_degrade = False\<rparr>"
  have "selectByRules small_config t req ?st = Inr no_engine_route" for t req
    by (simp add: selectByRules_def no_engine_route_def small_defs)
  then obtain d where r: "SelectRoute small_config None None zero_request ?st = Inr d"
    by (simp add: SelectRoute_Inr)
  from routed_backend_has_adapter[OF empty_cache_ok m r] m r show ?thesis by auto
qed

lemma spike_active_sound_witness:
  "3 \<le> length (in_minute 4 [1, 2, 3])"
proof (rule spike_active_sound)
  show "timeoutSpikeActive 4 (record_timeouts [1, 2, 3] no_spike)"
    by (simp add: record_timeouts_def recordTimeoutSpike_def no_spike_def Let_def
        timeoutSpikeActive_def time_sub_def minTimeoutsPerMinuteForSpike_def)
qed simp_all

lemma http_timeouts_outlast_budget_witness:
  "\<exists>r w i. HTTPLayerTimeouts small_config = (r, w, i) \<and> w = inferRequestTimeout small_config + 30 * second"
proof -
  obtain r w i where x: "HTTPLayerTimeouts small_config = (r, w, i)" by (metis surj_pair)
  have "request_timeout_ms (server small_config) = 3000" "write_timeout_ms (server small_config) = 0"
    by (simp_all add: small_config_def apply_defaults_def server_defaults_def example_config_def)
  with http_timeouts_outlast_budget[OF _ _ x] x show ?thesis by simp
qed

end
