(* ===== verification/Gateway.thy ===== *)
theory Gateway
  imports Orchestrator Retrieval Reliability Policy Runtime_State
begin

text \<open>
  The server, \<open>internal/server\<close>: its state as one record (\<open>gateway\<close>), the components wired into the
  orchestrator (\<open>orchestrator.go\<close>), the RAG pipeline (\<open>infer_rag.go\<close>), the ledger writes, the
  response and the handler of \<open>POST /infer\<close> with its validation and authentication. The ledger is
  the memory store; backends, health checks and retrieval act on the outside state \<open>'x\<close>. The
  interpretations at the end show that the server's components meet the contract of the pipeline.
\<close>

section \<open>State and environment\<close>

record TraceRecord =
  tr_trace_id :: string
  tr_span_id :: string
  tr_name :: string
  tr_start :: int
  tr_end :: int
  tr_labels :: "(string \<times> string) list"

record Event =
  ev_name :: string
  ev_timestamp :: int
  ev_labels :: "(string \<times> string) list"

text \<open>
  \<open>gw_clock k\<close> is the \<open>k\<close>-th reading of the clock, \<open>gw_ticks\<close> the number of readings so far;
  \<open>gw_ids\<close> is likewise the source of the random identifiers (\<open>uuid.NewString\<close> and
  \<open>internal/traceutil\<close>). \<open>gw_traces\<close>, \<open>gw_metrics\<close> and \<open>gw_events\<close> are what the telemetry
  exporter was given, \<open>gw_http_total\<close> the counters by path, method and status.
\<close>

record 'x gateway =
  gw_policy :: BasicEngine
  gw_slo :: MemoryEngine
  gw_ledger :: memoryStore
  gw_inflight :: "32 word"
  gw_health :: HealthCache
  gw_spike :: TimeoutSpike
  gw_traces :: "TraceRecord list"
  gw_metrics :: "(string \<times> rat \<times> (string \<times> string) list) list"
  gw_events :: "Event list"
  gw_requests_total :: nat
  gw_clock :: "nat \<Rightarrow> gotime"
  gw_ticks :: nat
  gw_ids :: "nat \<Rightarrow> string"
  gw_ids_used :: nat
  gw_http_total :: "string \<times> string \<times> int \<Rightarrow> nat"
  gw_out :: 'x

text \<open>
  What is fixed while the server runs: the configuration, the adapters with their health checks,
  the retrieval adapters (by name: \<open>Name()\<close> and \<open>Retrieve\<close>), the reranker, the state of the
  request's context at a time, the iteration order of maps and \<open>sort.Slice\<close>, the value of
  \<open>INFERCORE_API_KEY\<close>, the exporter's \<open>StatusSummary()\<close>.
\<close>

record 'x gateway_env =
  ge_cfg :: Config
  ge_adapters :: "'x adapters"
  ge_probe :: "string \<Rightarrow> duration \<Rightarrow> 'x \<Rightarrow> goerr option \<times> 'x"
  ge_retrieval :: "(string \<times> string \<times> (string \<Rightarrow> 'x \<Rightarrow> (goerr + RetrievalChunk list) \<times> 'x)) list"
  ge_rerank :: "string \<Rightarrow> RetrievalChunk list \<Rightarrow> goerr + RetrievalChunk list"
  ge_ctx :: "gotime \<Rightarrow> goerr option"
  ge_iter :: "timings \<Rightarrow> timings"
  ge_sorter :: "sample list \<Rightarrow> sample list"
  ge_api_key :: string
  ge_status_summary :: goobj

definition tick :: "'x gateway \<Rightarrow> gotime \<times> 'x gateway" where
  "tick w = (gw_clock w (gw_ticks w), w\<lparr>gw_ticks := gw_ticks w + 1\<rparr>)"

definition fresh_id :: "'x gateway \<Rightarrow> string \<times> 'x gateway" where
  "fresh_id w = (gw_ids w (gw_ids_used w), w\<lparr>gw_ids_used := gw_ids_used w + 1\<rparr>)"

definition now_of :: "'x gateway \<Rightarrow> gotime" where
  "now_of w = gw_clock w (gw_ticks w)"

text \<open>\<open>t.Unix()\<close>: seconds since 1970, which begins 62135596800 seconds after the zero time.\<close>

definition unix_sec :: "gotime \<Rightarrow> int" where
  "unix_sec t = (t - 62135596800 * second) div second"

section \<open>Ledger writes\<close>

text \<open>The store is nil when the ledger is disabled and when its construction failed.\<close>

definition ledger_on :: "'x gateway_env \<Rightarrow> bool" where
  "ledger_on env = (case NewFromConfig (ge_cfg env) of Inr (Some _) \<Rightarrow> True | _ \<Rightarrow> False)"

definition ledger_do :: "(memoryStore \<Rightarrow> goerr option \<times> memoryStore) \<Rightarrow> 'x gateway \<Rightarrow> goerr option \<times> 'x gateway" where
  "ledger_do f w = (case f (gw_ledger w) of (e, m) \<Rightarrow> (e, w\<lparr>gw_ledger := m\<rparr>))"

definition createLedgerRequest ::
  "'x gateway_env \<Rightarrow> string \<Rightarrow> string \<Rightarrow> AIRequest \<Rightarrow> gotime \<Rightarrow> 'x gateway \<Rightarrow> 'x gateway" where
  "createLedgerRequest env traceID requestID req now w =
     (if \<not> ledger_on env then w
      else snd (ledger_do (CreateRequest
        \<lparr>rq_request_id = requestID, rq_trace_id = traceID, rq_request_type = request_type req,
         rq_tenant_id = tenant_id req, rq_task_type = task_type req, rq_priority = priority req,
         rq_pipeline_ref = pipeline_ref req, rq_input_json = Some (json_obj (req_input req)),
         rq_context_json = Some (json_obj (req_context req)),
         rq_ai_request_json = Some (request_json req), rq_policy_snapshot = None,
         rq_status = ''running'', rq_selected_backend = [], rq_route_reason = [],
         rq_created_at = now, rq_updated_at = now\<rparr>) w))"

definition no_patch :: RequestPatch where
  "no_patch = \<lparr>pt_status = None, pt_selected_backend = None, pt_route_reason = None,
     pt_policy_snapshot = None, pt_updated_at = 0\<rparr>"

definition patch_ledger :: "'x gateway_env \<Rightarrow> string \<Rightarrow> (gotime \<Rightarrow> RequestPatch) \<Rightarrow> 'x gateway \<Rightarrow> 'x gateway" where
  "patch_ledger env requestID patch w =
     (if \<not> ledger_on env then w
      else (let (t, w1) = tick w in snd (ledger_do (UpdateRequest requestID (patch t)) w1)))"

definition updateLedgerFailed :: "'x gateway_env \<Rightarrow> string \<Rightarrow> 'x gateway \<Rightarrow> 'x gateway" where
  "updateLedgerFailed env requestID =
     patch_ledger env requestID (\<lambda>t. no_patch\<lparr>pt_status := Some ''failed'', pt_updated_at := t\<rparr>)"

definition updateLedgerPolicy ::
  "'x gateway_env \<Rightarrow> string \<Rightarrow> json \<Rightarrow> string \<Rightarrow> string \<Rightarrow> 'x gateway \<Rightarrow> 'x gateway" where
  "updateLedgerPolicy env requestID snap routeReason backend =
     patch_ledger env requestID (\<lambda>t. no_patch\<lparr>pt_policy_snapshot := Some snap,
       pt_route_reason := Some routeReason, pt_selected_backend := Some backend, pt_updated_at := t\<rparr>)"

definition markLedgerSuccess ::
  "'x gateway_env \<Rightarrow> string \<Rightarrow> string \<Rightarrow> string \<Rightarrow> 'x gateway \<Rightarrow> 'x gateway" where
  "markLedgerSuccess env requestID backend routeReason =
     patch_ledger env requestID (\<lambda>t. no_patch\<lparr>pt_status := Some ''success'',
       pt_selected_backend := Some backend, pt_route_reason := Some routeReason, pt_updated_at := t\<rparr>)"

section \<open>Traces\<close>

definition emitInferTrace ::
  "'x gateway_env \<Rightarrow> string \<Rightarrow> string \<Rightarrow> gotime \<Rightarrow> string \<Rightarrow> string \<Rightarrow> string \<Rightarrow> string
     \<Rightarrow> 'x gateway \<Rightarrow> 'x gateway" where
  "emitInferTrace env traceID spanID start requestID tenantID backend res w =
     (if \<not> tracing_enabled (telemetry (ge_cfg env)) then w
      else (let (t, w1) = tick w
        in w1\<lparr>gw_traces := gw_traces w1 @ [\<lparr>tr_trace_id = traceID, tr_span_id = spanID,
             tr_name = ''infer_request'', tr_start = unix_milli start, tr_end = unix_milli t,
             tr_labels = [(''request_id'', requestID), (''tenant_id'', tenantID), (''backend'', backend),
                          (''result'', res)]\<rparr>]\<rparr>))"

definition emitInferStepTrace ::
  "'x gateway_env \<Rightarrow> string \<Rightarrow> string \<Rightarrow> string \<Rightarrow> string \<Rightarrow> string \<Rightarrow> string \<Rightarrow> gotime \<Rightarrow> int
     \<Rightarrow> 'x gateway \<Rightarrow> 'x gateway" where
  "emitInferStepTrace env traceID requestID tenantID stepType backend stepStatus start latencyMs w =
     (if \<not> tracing_enabled (telemetry (ge_cfg env)) then w
      else (let (spanID, w1) = fresh_id w
        in w1\<lparr>gw_traces := gw_traces w1 @ [\<lparr>tr_trace_id = traceID, tr_span_id = spanID,
             tr_name = ''infer_step'', tr_start = unix_milli start,
             tr_end = unix_milli start + latencyMs,
             tr_labels = [(''request_id'', requestID), (''tenant_id'', tenantID),
                          (''step_type'', stepType), (''backend'', backend),
                          (''result'', if stepStatus \<noteq> ''success'' then ''failed'' else ''success'')]\<rparr>]\<rparr>))"

section \<open>The RAG pipeline\<close>

definition ragQuery :: "AIRequest \<Rightarrow> string" where
  "ragQuery req =
     (case obj_get (req_context req) ''query'' of
        VStr q \<Rightarrow> if trim_space q \<noteq> [] then trim_space q
                  else trim_space (string_or_empty (obj_get (req_input req) ''text''))
      | _ \<Rightarrow> trim_space (string_or_empty (obj_get (req_input req) ''text'')))"

definition kbName :: "AIRequest \<Rightarrow> Config \<Rightarrow> string" where
  "kbName req cfg =
     (let first = (case knowledge_bases cfg of [] \<Rightarrow> [] | kb # _ \<Rightarrow> kb_name kb)
      in case obj_get (req_context req) ''knowledge_base'' of
           VStr v \<Rightarrow> if trim_space v \<noteq> [] then trim_space v else first
         | _ \<Rightarrow> first)"

definition rag_error :: "string \<Rightarrow> int \<Rightarrow> string \<Rightarrow> string \<Rightarrow> goerr" where
  "rag_error trace st code msg = ErrRAG trace st code msg"

definition steps_env :: "'x gateway_env \<Rightarrow> string \<Rightarrow> string \<Rightarrow> string \<Rightarrow> 'x gateway step_env" where
  "steps_env env traceID requestID tenantID =
     \<lparr>env_store = (if ledger_on env then Some (\<lambda>row. ledger_do (AppendStep row)) else None),
      env_onstep = Some (emitInferStepTrace env traceID requestID tenantID),
      env_tick = tick\<rparr>"

definition retrieve_fn ::
  "(string \<Rightarrow> 'x \<Rightarrow> (goerr + RetrievalChunk list) \<times> 'x) \<Rightarrow> string \<Rightarrow> 'x gateway
     \<Rightarrow> (goobj option \<times> goerr option \<times> RetrievalChunk list) \<times> 'x gateway" where
  "retrieve_fn retrieve q w =
     (case retrieve q (gw_out w) of
        (Inl e, x) \<Rightarrow> ((None, Some e, []), w\<lparr>gw_out := x\<rparr>)
      | (Inr cs, x) \<Rightarrow> ((Some [(''chunks'', VInt (int (length cs)))], None, cs), w\<lparr>gw_out := x\<rparr>))"

definition rerank_fn ::
  "(string \<Rightarrow> RetrievalChunk list \<Rightarrow> goerr + RetrievalChunk list) \<Rightarrow> string \<Rightarrow> RetrievalChunk list
     \<Rightarrow> AIRequest \<Rightarrow> 'w \<Rightarrow> (goobj option \<times> goerr option \<times> AIRequest) \<times> 'w" where
  "rerank_fn rerank q cs req w =
     (case rerank q cs of
        Inl e \<Rightarrow> ((None, Some e, req), w)
      | Inr out \<Rightarrow> ((Some [(''chunks_out'', VInt (int (length out)))], None,
                     MergeRetrievalIntoInput req out), w))"

text \<open>\<open>call\<close> is how a \<open>Retrieve\<close> acts on the world of the steps; for the server it is \<open>retrieve_fn\<close>.\<close>

definition runRAGPipeline ::
  "((string \<Rightarrow> 'x \<Rightarrow> (goerr + RetrievalChunk list) \<times> 'x) \<Rightarrow> string \<Rightarrow> 'w
       \<Rightarrow> (goobj option \<times> goerr option \<times> RetrievalChunk list) \<times> 'w)
     \<Rightarrow> 'x gateway_env \<Rightarrow> 'w step_env \<Rightarrow> StepWriter option \<Rightarrow> AIRequest \<Rightarrow> 'w
     \<Rightarrow> (goerr option \<times> AIRequest) \<times> StepWriter option \<times> 'w" where
  "runRAGPipeline call env se sw req w =
     (let kb = kbName req (ge_cfg env)
      in if kb = [] \<or> ge_retrieval env = []
         then ((Some (rag_error ''rag_not_configured'' 400 ''rag_not_configured''
                 ''configure knowledge_bases and set context.knowledge_base or use the first KB''), req), sw, w)
         else case map_of (ge_retrieval env) kb of
           None \<Rightarrow> ((Some (rag_error ''rag_not_configured'' 400 ''rag_not_configured''
                      (''unknown knowledge_base '' @ kb)), req), sw, w)
         | Some (name, retrieve) \<Rightarrow>
             (let q = ragQuery req
              in if q = []
                 then ((Some (rag_error ''rag_not_configured'' 400 ''invalid_request''
                         ''rag requires input.text or context.query''), req), sw, w)
                 else
                   (case StepRun se StepRetrieve name [(''query'', VStr q), (''kb'', VStr kb)]
                           (call retrieve q) sw w of
                      ((Some e, _), sw1, w1) \<Rightarrow>
                        ((Some (rag_error ''retrieve_failed'' 502 ''execution_failed'' (err_text e)), req), sw1, w1)
                    | ((None, cs), sw1, w1) \<Rightarrow>
                        (case StepRun se StepRerank ''noop''
                                [(''query'', VStr q), (''chunks_in'', VInt (int (length cs)))]
                                (rerank_fn (ge_rerank env) q cs req) sw1 w1 of
                           ((Some e, req'), sw2, w2) \<Rightarrow>
                             ((Some (rag_error ''rerank_failed'' 502 ''execution_failed'' (err_text e)), req'), sw2, w2)
                         | ((None, req'), sw2, w2) \<Rightarrow> ((None, req'), sw2, w2)))))"

section \<open>The components as the orchestrator calls them\<close>

definition gw_evaluate :: "'x gateway_env \<Rightarrow> AIRequest \<Rightarrow> 'x gateway \<Rightarrow> (goerr + PolicyDecision) \<times> 'x gateway" where
  "gw_evaluate env req w =
     (let (t, w1) = tick w; (d, e) = Evaluate (ge_cfg env) (unix_sec t) req (gw_policy w1)
      in (d, w1\<lparr>gw_policy := e\<rparr>))"

definition gw_route :: "'x gateway_env \<Rightarrow> AIRequest \<Rightarrow> RuntimeState \<Rightarrow> 'x gateway \<Rightarrow> (goerr + RouteDecision) \<times> 'x gateway" where
  "gw_route env req st w = (SelectRoute (ge_cfg env) (Some Estimate) (ge_ctx env (now_of w)) req st, w)"

definition gw_execute ::
  "'x gateway_env \<Rightarrow> AIRequest \<Rightarrow> RouteDecision \<Rightarrow> RouteDecision list \<Rightarrow> 'x gateway
     \<Rightarrow> (ExecutionResult \<times> goerr option) \<times> 'x gateway" where
  "gw_execute env req primary fb w =
     (let (r, x) = ExecuteWithFallback (ge_cfg env) (ge_adapters env) req primary fb (gw_out w)
      in (r, w\<lparr>gw_out := x\<rparr>))"

text \<open>A recording that does not return (an empty id, which the server never uses) keeps the engine.\<close>

definition slo_do :: "(MemoryEngine \<Rightarrow> MemoryEngine option) \<Rightarrow> 'x gateway \<Rightarrow> 'x gateway" where
  "slo_do f w = (case f (gw_slo w) of None \<Rightarrow> w | Some e \<Rightarrow> w\<lparr>gw_slo := e\<rparr>)"

definition gw_slo_start :: "'x gateway_env \<Rightarrow> string \<Rightarrow> 'x gateway \<Rightarrow> 'x gateway" where
  "gw_slo_start env i w =
     (let (t1, w1) = tick w; (t2, w2) = tick w1; (t3, w3) = tick w2
      in slo_do (RecordStart (ge_iter env) t1 t2 t3 i) w3)"

definition gw_cached_health :: "'x gateway_env \<Rightarrow> 'x gateway \<Rightarrow> health \<times> 'x gateway" where
  "gw_cached_health env w =
     (let (t1, w1) = tick w; (t2, w2) = tick w1; (t3, w3) = tick w2;
          (m, c, x) = cachedBackendHealth (ge_cfg env) (\<lambda>n. ge_adapters env n \<noteq> None) (ge_probe env)
            t1 t2 t3 (gw_health w3, gw_out w3)
      in (Some m, w3\<lparr>gw_health := c, gw_out := x\<rparr>))"

definition gw_begin :: "'x gateway_env \<Rightarrow> 'x gateway \<Rightarrow> (bool \<times> bool) \<times> 'x gateway" where
  "gw_begin env w =
     (let (r, n) = beginInferLoad (ge_cfg env) (gw_inflight w) in (r, w\<lparr>gw_inflight := n\<rparr>))"

definition gw_release :: "'x gateway \<Rightarrow> 'x gateway" where
  "gw_release w = w\<lparr>gw_inflight := releaseInfer (gw_inflight w)\<rparr>"

definition gw_note_timeout :: "goerr \<Rightarrow> 'x gateway \<Rightarrow> 'x gateway" where
  "gw_note_timeout e w =
     (let (t, w1) = tick w in w1\<lparr>gw_spike := noteTimeoutForScaling (Some e) t (gw_spike w1)\<rparr>)"

definition serverLedger :: "'x gateway_env \<Rightarrow> 'x gateway orch_ledger" where
  "serverLedger env =
     \<lparr>ol_create = createLedgerRequest env, ol_fail = updateLedgerFailed env,
      ol_policy = updateLedgerPolicy env, ol_success = markLedgerSuccess env\<rparr>"

definition inferOrchestrator ::
  "'x gateway_env \<Rightarrow> string \<Rightarrow> string \<Rightarrow> string \<Rightarrow> 'x gateway orchestrator" where
  "inferOrchestrator env traceID requestID tenantID =
     \<lparr>o_evaluate = gw_evaluate env, o_route = gw_route env, o_execute = gw_execute env,
      o_slo_start = Some (gw_slo_start env),
      o_ledger = (if ledger_on env then Some (serverLedger env) else None),
      o_cached_health = Some (gw_cached_health env), o_inflight = (\<lambda>w. sint (gw_inflight w)),
      o_begin = Some (gw_begin env), o_release = gw_release,
      o_rag = Some (runRAGPipeline retrieve_fn env (steps_env env traceID requestID tenantID)),
      o_fallback = Some (buildFallback (ge_cfg env)), o_note_timeout = Some gw_note_timeout,
      o_parse_rag = Some as_rag, o_ctx_err = (\<lambda>w. ge_ctx env (now_of w)), o_now = tick,
      o_steps = steps_env env traceID requestID tenantID\<rparr>"

section \<open>The server meets the pipeline's contract\<close>

definition gw_obs :: "string \<Rightarrow> 'x gateway \<Rightarrow> observation" where
  "gw_obs i w =
     \<lparr>ob_slots = gw_inflight w,
      ob_status = map_option rq_status (map_of (ms_requests (gw_ledger w)) i),
      ob_steps = steps_of (gw_ledger w) i\<rparr>"

text \<open>An operation that leaves the counter and the ledger alone is not observed.\<close>

lemma gw_obs_frame:
  "gw_inflight w' = gw_inflight w \<Longrightarrow> gw_ledger w' = gw_ledger w \<Longrightarrow> gw_obs i w' = gw_obs i w"
  by (simp add: gw_obs_def)

named_theorems gw_frame \<open>what the operations leave of the counter and the ledger\<close>

lemma tick_frame [gw_frame]:
  "gw_inflight (snd (tick w)) = gw_inflight w" "gw_ledger (snd (tick w)) = gw_ledger w"
  "gw_inflight (snd (fresh_id w)) = gw_inflight w" "gw_ledger (snd (fresh_id w)) = gw_ledger w"
  by (simp_all add: tick_def fresh_id_def)

lemma trace_frame [gw_frame]:
  "gw_inflight (emitInferTrace env tr sp t0 i t b r w) = gw_inflight w"
  "gw_ledger (emitInferTrace env tr sp t0 i t b r w) = gw_ledger w"
  "gw_inflight (emitInferStepTrace env tr i t ty b st t0 lat w) = gw_inflight w"
  "gw_ledger (emitInferStepTrace env tr i t ty b st t0 lat w) = gw_ledger w"
  by (simp_all add: emitInferTrace_def emitInferStepTrace_def tick_def fresh_id_def)

lemma slo_frame [gw_frame]:
  "gw_inflight (slo_do f w) = gw_inflight w" "gw_ledger (slo_do f w) = gw_ledger w"
  by (simp_all add: slo_do_def split: option.split)

lemma component_frame [gw_frame]:
  "gw_inflight (snd (gw_evaluate env r w)) = gw_inflight w" "gw_ledger (snd (gw_evaluate env r w)) = gw_ledger w"
  "gw_inflight (snd (gw_route env r st w)) = gw_inflight w" "gw_ledger (snd (gw_route env r st w)) = gw_ledger w"
  "gw_inflight (snd (gw_execute env r p fb w)) = gw_inflight w"
  "gw_ledger (snd (gw_execute env r p fb w)) = gw_ledger w"
  "gw_inflight (snd (gw_cached_health env w)) = gw_inflight w"
  "gw_ledger (snd (gw_cached_health env w)) = gw_ledger w"
  "gw_inflight (gw_note_timeout e w) = gw_inflight w" "gw_ledger (gw_note_timeout e w) = gw_ledger w"
  "gw_inflight (gw_slo_start env i w) = gw_inflight w" "gw_ledger (gw_slo_start env i w) = gw_ledger w"
  by (simp_all add: gw_evaluate_def gw_route_def gw_execute_def gw_cached_health_def gw_note_timeout_def
      gw_slo_start_def tick_def slo_frame Let_def split: prod.split)

lemma gw_obs_keeps [simp]:
  "gw_obs i (snd (tick w)) = gw_obs i w"
  "gw_obs i (snd (fresh_id w)) = gw_obs i w"
  "gw_obs i (emitInferTrace env tr sp t0 j t b r w) = gw_obs i w"
  "gw_obs i (emitInferStepTrace env tr j t ty b st t0 lat w) = gw_obs i w"
  "gw_obs i (snd (gw_evaluate env q w)) = gw_obs i w"
  "gw_obs i (snd (gw_route env q rs w)) = gw_obs i w"
  "gw_obs i (snd (gw_execute env q p fb w)) = gw_obs i w"
  "gw_obs i (snd (gw_cached_health env w)) = gw_obs i w"
  "gw_obs i (gw_note_timeout e w) = gw_obs i w"
  "gw_obs i (gw_slo_start env k w) = gw_obs i w"
  by (rule gw_obs_frame; simp add: gw_frame)+

lemma gw_obs_append:
  assumes "ob_status (gw_obs i w) \<noteq> None" "st_request_id row = i"
  shows "gw_obs i (snd (ledger_do (AppendStep row) w))
     = (gw_obs i w)\<lparr>ob_steps := ob_steps (gw_obs i w) @ [row]\<rparr>"
  using assms
  by (auto simp: gw_obs_def ledger_do_def AppendStep_def steps_of_def update_conv split: option.splits)

lemma gw_obs_create:
  assumes "ledger_on env" "ob_status (gw_obs i w) = None"
  shows "gw_obs i (createLedgerRequest env tr i r t w)
     = (gw_obs i w)\<lparr>ob_status := Some ''running'', ob_steps := []\<rparr>"
  using assms
  by (auto simp: gw_obs_def createLedgerRequest_def ledger_do_def CreateRequest_def steps_of_def update_conv)

lemma gw_obs_patch:
  assumes "ledger_on env" "ob_status (gw_obs i w) \<noteq> None"
  shows "gw_obs i (patch_ledger env i p w)
     = (gw_obs i w)\<lparr>ob_status := (case pt_status (p (fst (tick w))) of
           None \<Rightarrow> ob_status (gw_obs i w) | Some s \<Rightarrow> Some s)\<rparr>"
  using assms
  by (auto simp: gw_obs_def patch_ledger_def ledger_do_def UpdateRequest_def steps_of_def update_conv
      tick_def patch_row_def split: option.splits)

lemma gw_obs_patch_none:
  "ob_status (gw_obs i w) = None \<Longrightarrow> gw_obs i (patch_ledger env i p w) = gw_obs i w"
  by (auto simp: gw_obs_def patch_ledger_def ledger_do_def UpdateRequest_def steps_of_def tick_def
      split: option.splits)

lemma rerank_fn_keeps:
  "rerank_fn rerank q cs req v = ((out, e, req'), v') \<Longrightarrow> v' = v \<and> request_type req' = request_type req"
  by (auto simp: rerank_fn_def MergeRetrievalIntoInput_def Let_def split: sum.splits)

lemma StepRun_result:
  "StepRun se ty b m fn sw w = ((err, r), sw', w') \<Longrightarrow> \<exists>v out v'. fn v = ((out, err, r), v')"
  by (auto simp: StepRun_def Let_def split: option.splits prod.splits)

context step_log begin

lemma rag_stands:
  assumes "runRAGPipeline call genv env sw r w = ((err, r'), sw', w')" "pos sw w n ''running'' types"
    and "\<And>retrieve q v out e cs v'. call retrieve q v = ((out, e, cs), v') \<Longrightarrow> obs v' = obs v"
  shows "request_type r' = request_type r \<and>
      (\<exists>k. pos sw' w' n ''running'' (types @ take k [StepRetrieve, StepRerank]) \<and> (err = None \<longrightarrow> k = 2))"
proof (cases "sw' = sw \<and> w' = w \<and> r' = r \<and> err \<noteq> None")
  case True
  then show ?thesis using assms(2) by (auto intro!: exI[of _ 0])
next
  case False
  let ?kb = "kbName r (ge_cfg genv)" and ?q = "ragQuery r"
  obtain name retrieve where ad: "?kb \<noteq> []" "ge_retrieval genv \<noteq> []"
    "map_of (ge_retrieval genv) ?kb = Some (name, retrieve)" "?q \<noteq> []"
    using assms(1) False by (auto simp: runRAGPipeline_def Let_def split: if_splits option.splits prod.splits)
  obtain e1 cs sw1 w1 where s1: "StepRun env StepRetrieve name [(''query'', VStr ?q), (''kb'', VStr ?kb)]
      (call retrieve ?q) sw w = ((e1, cs), sw1, w1)" by (rule step_result_cases)
  have p1: "pos sw1 w1 n ''running'' (types @ [StepRetrieve])"
    by (rule step_stands[OF s1 assms(2)]) (rule assms(3))
  note run = assms(1)[unfolded runRAGPipeline_def Let_def, unfolded ad(3), simplified ad, simplified,
      unfolded s1 prod.case]
  show ?thesis
  proof (cases e1)
    case (Some e)
    then have "sw' = sw1" "w' = w1" "r' = r" "err \<noteq> None" using run by auto
    then show ?thesis using p1 by (auto intro!: exI[of _ 1])
  next
    case None
    obtain e2 r2 sw2 w2 where s2: "StepRun env StepRerank ''noop''
        [(''query'', VStr ?q), (''chunks_in'', VInt (int (length cs)))]
        (rerank_fn (ge_rerank genv) ?q cs r) sw1 w1 = ((e2, r2), sw2, w2)" by (rule step_result_cases)
    have p2: "pos sw2 w2 n ''running'' ((types @ [StepRetrieve]) @ [StepRerank])"
      by (rule step_stands[OF s2 p1]) (auto dest: rerank_fn_keeps)
    obtain v out and v' :: 'w where "rerank_fn (ge_rerank genv) ?q cs r v = ((out, e2, r2), v')"
      using StepRun_result[OF s2] by metis
    from rerank_fn_keeps[OF this] have ty: "request_type r2 = request_type r" by simp
    have "sw' = sw2" "w' = w2" "r' = r2" using run None s2 by (auto split: option.splits)
    then show ?thesis using p2 ty by (auto intro!: exI[of _ 2])
  qed
qed

end

interpretation gwlog: step_log "steps_env env tr rid tenant" rid "gw_obs rid" for env tr rid tenant
  by unfold_locales (auto simp: steps_env_def gw_obs_append split: if_splits)

lemma gw_evaluate_type:
  "fst (gw_evaluate env r w) = Inr pd \<Longrightarrow> allowed pd \<Longrightarrow>
     request_type (normalized pd) = request_type (NormalizeAIRequest r)"
  by (auto simp: gw_evaluate_def Evaluate_def effective_request_def rejected_def Let_def tick_def norm_request_type
      split: prod.splits option.splits if_splits)

lemma retrieve_fn_keeps: "retrieve_fn retrieve q v = ((out, e, cs), v') \<Longrightarrow> gw_obs i v' = gw_obs i v"
  by (auto simp: retrieve_fn_def gw_obs_def split: prod.splits sum.splits)

definition server_input ::
  "'x gateway_env \<Rightarrow> string \<Rightarrow> string \<Rightarrow> gotime \<Rightarrow> string \<Rightarrow> AIRequest \<Rightarrow> 'x gateway run_input" where
  "server_input env traceID spanID traceStart requestID req =
     \<lparr>in_trace_id = traceID, in_request_id = requestID, in_req = req,
      in_sw = Some \<lparr>sw_request_id = requestID, sw_tenant_id = tenant_id req, sw_next = 0\<rparr>,
      in_emit = Some (emitInferTrace env traceID spanID traceStart requestID (tenant_id req))\<rparr>"

lemma sint_fields [simp]:
  "in_request_id (server_input env tr sp t0 i req) = i"
  "in_emit (server_input env tr sp t0 i req) = Some (emitInferTrace env tr sp t0 i (tenant_id req))"
  by (simp_all add: server_input_def)

interpretation gw: infer_pipeline "inferOrchestrator env tr rid tenant" "server_input env tr sp t0 rid req" "gw_obs rid"
  for env tr rid tenant sp t0 req
proof (unfold_locales, goal_cases)
  case (1 wr row w)
  then show ?case using gw_obs_append[of rid w row]
    by (auto simp: inferOrchestrator_def steps_env_def split: if_splits)
next
  case (2 w)
  show ?case by (simp add: inferOrchestrator_def steps_env_def)
next
  case (3 hk a b c t lat w)
  then show ?case by (auto simp: inferOrchestrator_def steps_env_def)
next
  case (5 r w pd)
  then show ?case using gw_evaluate_type[of env r w pd] by (simp add: inferOrchestrator_def)
next
  case (13 beg w)
  then show ?case by (auto simp: inferOrchestrator_def gw_begin_def beginInferLoad_def gw_obs_def Let_def
        split: prod.splits if_splits)
next
  case (14 w)
  show ?case by (simp add: inferOrchestrator_def gw_release_def releaseInfer_def gw_obs_def)
next
  case (15 l trc r t w)
  then show ?case by (auto simp: inferOrchestrator_def serverLedger_def gw_obs_create split: if_splits)
next
  case (16 l w)
  then show ?case
    by (auto simp: inferOrchestrator_def serverLedger_def updateLedgerFailed_def gw_obs_patch split: if_splits)
next
  case (17 l snap rr be w)
  then show ?case
    using gw_obs_patch[of env rid w] gw_obs_patch_none[of rid w env]
    by (cases "ob_status (gw_obs rid w) = None")
       (auto simp: inferOrchestrator_def serverLedger_def updateLedgerPolicy_def no_patch_def split: if_splits)
next
  case (18 l w be rr)
  then show ?case
    by (auto simp: inferOrchestrator_def serverLedger_def markLedgerSuccess_def gw_obs_patch split: if_splits)
next
  case (20 rag w sw n types r err r' sw' w')
  then show ?case using gwlog.rag_stands[of retrieve_fn env env tr rid tenant sw r w err r' sw' w' n types]
    by (auto simp: inferOrchestrator_def retrieve_fn_keeps)
qed (auto simp: inferOrchestrator_def steps_env_def split: if_splits)

end
