(* ===== verification/Server.thy ===== *)
theory Server
  imports Gateway
begin

text \<open>
  The HTTP surface of the gateway, \<open>internal/server/server.go\<close>: the handler of \<open>POST /infer\<close> with
  its validation, the response of a successful request, \<open>GET /status\<close>, the optional API key, and
  the request counters. The lemmas give the handler's contract: what an invalid or unauthorised
  request leaves untouched, what an accepted one leaves in the ledger and the admission counter,
  which status codes it can answer.
\<close>

section \<open>Requests and responses\<close>

text \<open>
  \<open>hr_body\<close> is the JSON value in the body, \<open>None\<close> when the body is not JSON; \<open>hr_path\<close> is the path
  that the \<open>ServeMux\<close> matched. The two headers are those the code reads, empty when absent.
\<close>

record http_request =
  hr_method :: string
  hr_path :: string
  hr_api_key :: string
  hr_authorization :: string
  hr_body :: "json option"

datatype http_body =
    BodyError string string string
  | BodyResponse AIResponse
  | BodyStatus "(string \<times> string) list" int goobj ScalingSignals
  | BodyObject "(string \<times> string) list"
  | BodyText string

type_synonym http_answer = "int \<times> http_body"

definition writeError :: "int \<Rightarrow> string \<Rightarrow> string \<Rightarrow> string \<Rightarrow> http_answer" where
  "writeError st requestID code message = (st, BodyError requestID code message)"

section \<open>Telemetry\<close>

definition emitTelemetryMetric ::
  "'x gateway_env \<Rightarrow> string \<Rightarrow> rat \<Rightarrow> (string \<times> string) list \<Rightarrow> 'x gateway \<Rightarrow> 'x gateway" where
  "emitTelemetryMetric env name value labels w =
     (if \<not> metrics_enabled (telemetry (ge_cfg env)) then w
      else w\<lparr>gw_metrics := gw_metrics w @ [(name, value, labels)]\<rparr>)"

definition emitTelemetryEvent :: "Event \<Rightarrow> 'x gateway \<Rightarrow> 'x gateway" where
  "emitTelemetryEvent ev w = w\<lparr>gw_events := gw_events w @ [ev]\<rparr>"

section \<open>The response\<close>

definition fallbackReason :: "bool \<Rightarrow> string" where
  "fallbackReason triggered =
     (if triggered then ''primary backend execution failed, fallback applied'' else [])"

definition deriveDegradeState :: "goobj option \<Rightarrow> FlagState" where
  "deriveDegradeState output =
     (case output of
        None \<Rightarrow> \<lparr>fs_triggered = False, fs_reason = []\<rparr>
      | Some _ \<Rightarrow>
          (if obj_get output ''stream_degraded'' = VBool True
           then \<lparr>fs_triggered = True, fs_reason = ''stream request degraded to non-stream mode''\<rparr>
           else \<lparr>fs_triggered = False, fs_reason = []\<rparr>))"

record aiSuccessParams =
  sp_trace_id :: string
  sp_span_id :: string
  sp_trace_start :: gotime
  sp_request_id :: string
  sp_now_unix_ms :: int
  sp_req :: AIRequest
  sp_policy_decision :: PolicyDecision
  sp_primary :: RouteDecision
  sp_execution :: ExecutionResult
  sp_execution_start :: gotime
  sp_overload_degrade :: bool

definition shed_message :: string where
  "shed_message = ''load shedding: cost optimization skipped due to concurrency limit''"

definition gw_first_token :: "'x gateway_env \<Rightarrow> string \<Rightarrow> gotime \<Rightarrow> 'x gateway \<Rightarrow> 'x gateway" where
  "gw_first_token env i ts w =
     (let (t1, w1) = tick w; (t2, w2) = tick w1 in slo_do (RecordFirstToken (ge_iter env) t1 ts t2 i) w2)"

definition gw_completion :: "'x gateway_env \<Rightarrow> string \<Rightarrow> gotime \<Rightarrow> 'x gateway \<Rightarrow> 'x gateway" where
  "gw_completion env i ts w =
     (let (t1, w1) = tick w; (t2, w2) = tick w1 in slo_do (RecordCompletion (ge_iter env) t1 ts t2 i) w2)"

definition gw_fallback :: "'x gateway_env \<Rightarrow> string \<Rightarrow> 'x gateway \<Rightarrow> 'x gateway" where
  "gw_fallback env i w =
     (let (t1, w1) = tick w; (t2, w2) = tick w1 in slo_do (RecordFallback (ge_iter env) t1 t2 i) w2)"

text \<open>The time of an event the adapter measured, or the end of the call when it did not.\<close>

definition measured :: "gotime \<Rightarrow> gotime \<Rightarrow> int option \<Rightarrow> gotime" where
  "measured start endWall ms =
     (case ms of None \<Rightarrow> endWall | Some m \<Rightarrow> if 0 < m then start + dur_ms m else endWall)"

definition response_of :: "'x gateway_env \<Rightarrow> aiSuccessParams \<Rightarrow> SLOSnapshot \<Rightarrow> AIResponse" where
  "response_of env p snap =
     (let ex = sp_execution p;
          degrade = deriveDegradeState (ex_output ex)
      in \<lparr>rs_request_id = sp_request_id p, rs_trace_id = sp_trace_id p,
          rs_request_type = request_type (sp_req p), rs_pipeline_ref = pipeline_ref (sp_req p),
          rs_selected_backend = ex_backend_name ex, rs_route_reason = reason (sp_primary p),
          rs_policy_reason = pd_reason (sp_policy_decision p),
          rs_effective_priority = priority (sp_req p), rs_status = ex_status ex,
          rs_result = ex_output ex,
          rs_metrics = \<lparr>am_ttft_ms = ttft_ms snap,
            am_tpot_ms = (case ex_timing ex of
                None \<Rightarrow> tpot_ms snap
              | Some t \<Rightarrow> if 0 < bt_tpot_ms t then bt_tpot_ms t else tpot_ms snap),
            am_completion_latency_ms = completion_latency_ms snap,
            am_estimated_cost = (case BackendByName (ge_cfg env) (ex_backend_name ex) of
                None \<Rightarrow> 0 | Some b \<Rightarrow> b_cost_unit b),
            am_queue_wait_time_ms = 0, am_server_received_at = sp_now_unix_ms p\<rparr>,
          rs_fallback = \<lparr>fs_triggered = fallback_triggered snap,
            fs_reason = fallbackReason (ex_used_fallback ex)\<rparr>,
          rs_degrade =
            (if \<not> sp_overload_degrade p then degrade
             else if fs_triggered degrade
               then degrade\<lparr>fs_reason := fs_reason degrade @ ''; '' @ shed_message\<rparr>
             else \<lparr>fs_triggered = True, fs_reason = shed_message\<rparr>)\<rparr>)"

definition writeAIResponse ::
  "'x gateway_env \<Rightarrow> aiSuccessParams \<Rightarrow> 'x gateway \<Rightarrow> http_answer \<times> 'x gateway" where
  "writeAIResponse env p w =
     (let ex = sp_execution p; i = sp_request_id p; start = sp_execution_start p;
          (endWall, w1) = tick w;
          firstTok = measured start endWall (map_option bt_ttft_ms (ex_timing ex));
          compAt = measured start endWall (map_option bt_completion_latency_ms (ex_timing ex));
          w2 = gw_completion env i compAt (gw_first_token env i firstTok w1);
          w3 = (if ex_used_fallback ex then gw_fallback env i w2 else w2);
          resp = response_of env p (Snapshot i (gw_slo w3));
          labels = [(''tenant_id'', tenant_id (sp_req p)), (''backend'', ex_backend_name ex)];
          w4 = emitTelemetryMetric env ''infercore_ttft_ms'' (f_of_int (am_ttft_ms (rs_metrics resp))) labels w3;
          w5 = emitTelemetryMetric env ''infercore_completion_latency_ms''
                 (f_of_int (am_completion_latency_ms (rs_metrics resp))) labels w4;
          (t, w6) = tick w5;
          w7 = emitTelemetryEvent \<lparr>ev_name = ''infer_request_completed'', ev_timestamp = unix_milli t,
                 ev_labels = [(''request_id'', i), (''tenant_id'', tenant_id (sp_req p)),
                              (''backend'', ex_backend_name ex), (''status'', ex_status ex)]\<rparr> w6;
          w8 = emitInferTrace env (sp_trace_id p) (sp_span_id p) (sp_trace_start p) i
                 (tenant_id (sp_req p)) (ex_backend_name ex) ''success'' w7
      in ((200, BodyResponse resp), w8))"

section \<open>POST /infer\<close>

definition infer_accepted ::
  "'x gateway_env \<Rightarrow> string \<Rightarrow> string \<Rightarrow> gotime \<Rightarrow> AIRequest \<Rightarrow> 'x gateway \<Rightarrow> http_answer \<times> 'x gateway" where
  "infer_accepted env traceID spanID traceStart req0 w =
     (let (requestID, w1) = fresh_id w;
          (t, w2) = tick (w1\<lparr>gw_requests_total := gw_requests_total w1 + 1\<rparr>);
          now = unix_milli t;
          req = req0\<lparr>request_id := requestID\<rparr>;
          (out, _, w3) = Run (inferOrchestrator env traceID requestID (tenant_id req))
             (server_input env traceID spanID traceStart requestID req) w2
      in case out of
           Inl f \<Rightarrow> (writeError (f_http_status f) requestID (f_error_code f) (f_message f), w3)
         | Inr su \<Rightarrow> writeAIResponse env
             \<lparr>sp_trace_id = traceID, sp_span_id = spanID, sp_trace_start = traceStart,
              sp_request_id = requestID, sp_now_unix_ms = now, sp_req = su_req su,
              sp_policy_decision = su_policy_decision su, sp_primary = su_primary su,
              sp_execution = su_exec_res su, sp_execution_start = su_exec_start su,
              sp_overload_degrade = su_overload_degrade su\<rparr> w3)"

definition infer :: "'x gateway_env \<Rightarrow> http_request \<Rightarrow> 'x gateway \<Rightarrow> http_answer \<times> 'x gateway" where
  "infer env hr w =
     (let (traceID, w1) = fresh_id w; (spanID, w2) = fresh_id w1; (traceStart, w3) = tick w2;
          refuse = (\<lambda>tenant result st code msg.
            (writeError st [] code msg, emitInferTrace env traceID spanID traceStart [] tenant [] result w3))
      in if hr_method hr \<noteq> ''POST'' then
           refuse [] ''method_not_allowed'' 405 ''method_not_allowed'' ''method not allowed''
         else case Option.bind (hr_body hr) request_of_json of
           None \<Rightarrow> refuse [] ''invalid_json'' 400 ''invalid_request'' ''invalid JSON request body''
         | Some req0 \<Rightarrow>
             if trim_space (tenant_id req0) = [] then
               refuse [] ''missing_tenant_id'' 400 ''invalid_request'' ''tenant_id is required''
             else if trim_space (task_type req0) = [] then
               refuse (tenant_id req0) ''missing_task_type'' 400 ''invalid_request'' ''task_type is required''
             else if req_input req0 = None then
               refuse (tenant_id req0) ''missing_input'' 400 ''invalid_request'' ''input is required''
             else if opt_max_tokens (options req0) \<le> 0 then
               refuse (tenant_id req0) ''invalid_max_tokens'' 400 ''invalid_options''
                 ''options.max_tokens must be > 0''
             else
               (let req = NormalizeAIRequest req0; rt = to_lower (trim_space (request_type req))
                in if rt \<noteq> [] \<and> rt \<noteq> RequestTypeInference \<and> rt \<noteq> RequestTypeRAG \<and> rt \<noteq> RequestTypeAgent then
                     refuse (tenant_id req) ''unsupported_request_type'' 400 ''unsupported_request_type''
                       ''request_type must be inference, rag, or agent''
                   else infer_accepted env traceID spanID traceStart req w3))"

section \<open>The other handlers\<close>

definition health_handler :: http_answer where
  "health_handler = (200, BodyObject [(''status'', ''ok'')])"

definition status_handler :: "'x gateway_env \<Rightarrow> 'x gateway \<Rightarrow> http_answer \<times> 'x gateway" where
  "status_handler env w =
     (let (health, w1) = gw_cached_health env w;
          backs = map (\<lambda>b. (b_name b,
              case health of
                Some m \<Rightarrow> (if map_of m (b_name b) = Some True then ''healthy'' else ''unhealthy'')
              | None \<Rightarrow> ''unhealthy'')) (backends (ge_cfg env));
          (now, w2) = tick w1;
          sig = CurrentSignals (ge_cfg env) (ge_iter env) (ge_sorter env) now (Some (gw_slo w2))
                  (gw_spike w2) (gw_inflight w2)
      in ((200, BodyStatus backs (sint (gw_inflight w2)) (ge_status_summary env) sig), w2))"

text \<open>The text that Prometheus renders is left open (\<open>prom\<close>).\<close>

definition metrics_handler :: "'x gateway_env \<Rightarrow> ('x gateway \<Rightarrow> string) \<Rightarrow> 'x gateway \<Rightarrow> http_answer" where
  "metrics_handler env prom w =
     (if \<not> metrics_enabled (telemetry (ge_cfg env))
      then (200, BodyText ''# infercore metrics disabled by telemetry.metrics_enabled=false'')
      else (200, BodyText (prom w)))"

definition mux ::
  "'x gateway_env \<Rightarrow> ('x gateway \<Rightarrow> string) \<Rightarrow> http_request \<Rightarrow> 'x gateway \<Rightarrow> http_answer \<times> 'x gateway" where
  "mux env prom hr w =
     (if hr_path hr = ''/health'' then (health_handler, w)
      else if hr_path hr = ''/status'' then status_handler env w
      else if hr_path hr = ''/metrics'' then (metrics_handler env prom w, w)
      else if hr_path hr = ''/infer'' then infer env hr w
      else ((404, BodyText ''404 page not found''), w))"

definition withRequestLoggingAndMetrics ::
  "(http_request \<Rightarrow> 'x gateway \<Rightarrow> http_answer \<times> 'x gateway)
     \<Rightarrow> http_request \<Rightarrow> 'x gateway \<Rightarrow> http_answer \<times> 'x gateway" where
  "withRequestLoggingAndMetrics nxt hr w =
     (let (a, w1) = nxt hr w; key = (hr_path hr, hr_method hr, fst a)
      in (a, w1\<lparr>gw_http_total := (gw_http_total w1)(key := gw_http_total w1 key + 1)\<rparr>))"

definition effectiveInfercoreAPIKey :: "'x gateway_env \<Rightarrow> string" where
  "effectiveInfercoreAPIKey env =
     (let k = trim_space (ge_api_key env)
      in if k \<noteq> [] then k else trim_space (infercore_api_key (server (ge_cfg env))))"

definition infercoreAuthOK :: "http_request \<Rightarrow> string \<Rightarrow> bool" where
  "infercoreAuthOK hr want =
     (let v = trim_space (hr_api_key hr)
      in if v \<noteq> [] \<and> v = want then True
         else (case Go_Strings.fields (trim_space (hr_authorization hr)) of
                 [scheme, token] \<Rightarrow> equal_fold scheme ''Bearer'' \<and> token = want
               | _ \<Rightarrow> False))"

definition withOptionalInfercoreAuth ::
  "'x gateway_env \<Rightarrow> (http_request \<Rightarrow> 'x gateway \<Rightarrow> http_answer \<times> 'x gateway)
     \<Rightarrow> http_request \<Rightarrow> 'x gateway \<Rightarrow> http_answer \<times> 'x gateway" where
  "withOptionalInfercoreAuth env nxt hr w =
     (let key = effectiveInfercoreAPIKey env
      in if key = [] \<or> hr_path hr = ''/health'' then nxt hr w
         else if \<not> infercoreAuthOK hr key
           then (writeError 401 [] ''unauthorized'' ''invalid or missing API key'', w)
         else nxt hr w)"

definition Routes ::
  "'x gateway_env \<Rightarrow> ('x gateway \<Rightarrow> string) \<Rightarrow> http_request \<Rightarrow> 'x gateway \<Rightarrow> http_answer \<times> 'x gateway" where
  "Routes env prom = withOptionalInfercoreAuth env (withRequestLoggingAndMetrics (mux env prom))"

section \<open>The contract of \<open>POST /infer\<close>\<close>

text \<open>The requests the handler accepts, as the request it runs.\<close>

definition accepted :: "http_request \<Rightarrow> AIRequest option" where
  "accepted hr =
     (case Option.bind (hr_body hr) request_of_json of
        None \<Rightarrow> None
      | Some req \<Rightarrow>
          if hr_method hr = ''POST'' \<and> trim_space (tenant_id req) \<noteq> [] \<and> trim_space (task_type req) \<noteq> []
             \<and> req_input req \<noteq> None \<and> 0 < opt_max_tokens (options req)
             \<and> request_type (NormalizeAIRequest req) \<in> {RequestTypeInference, RequestTypeRAG, RequestTypeAgent}
          then Some (NormalizeAIRequest req) else None)"

lemma known_types [simp]:
  "to_lower (trim_space RequestTypeInference) = RequestTypeInference"
  "to_lower (trim_space RequestTypeRAG) = RequestTypeRAG"
  "to_lower (trim_space RequestTypeAgent) = RequestTypeAgent"
  unfolding RequestTypeInference_def RequestTypeRAG_def RequestTypeAgent_def by code_simp+

lemma normal_type_fixed [simp]:
  "to_lower (trim_space (request_type (NormalizeAIRequest req))) = request_type (NormalizeAIRequest req)"
  "request_type (NormalizeAIRequest req) \<noteq> []"
  using norm_normal_type[of req] by (auto simp: normal_type_def)

definition drawn_trace :: "'x gateway \<Rightarrow> string" where
  "drawn_trace w = gw_ids w (gw_ids_used w)"
definition drawn_span :: "'x gateway \<Rightarrow> string" where
  "drawn_span w = gw_ids w (gw_ids_used w + 1)"
definition drawn_request :: "'x gateway \<Rightarrow> string" where
  "drawn_request w = gw_ids w (gw_ids_used w + 2)"

definition started :: "'x gateway \<Rightarrow> 'x gateway" where
  "started w = w\<lparr>gw_ids_used := gw_ids_used w + 2, gw_ticks := gw_ticks w + 1\<rparr>"

definition refusal_codes :: "(int \<times> string) set" where
  "refusal_codes =
     {(405, ''method_not_allowed''), (400, ''invalid_request''), (400, ''invalid_options''),
      (400, ''unsupported_request_type'')}"

definition refused :: "'x gateway_env \<Rightarrow> 'x gateway \<Rightarrow> http_answer \<times> 'x gateway \<Rightarrow> bool" where
  "refused env w r \<longleftrightarrow>
     (\<exists>st code msg tenant result. (st, code) \<in> refusal_codes \<and> result \<noteq> ''success'' \<and> r = (writeError st [] code msg,
        emitInferTrace env (drawn_trace w) (drawn_span w) (now_of w) [] tenant [] result (started w)))"

lemma refusedI:
  "(st, code) \<in> {(405, ''method_not_allowed''), (400, ''invalid_request''), (400, ''invalid_options''),
     (400, ''unsupported_request_type'')} \<Longrightarrow> result \<noteq> ''success'' \<Longrightarrow> refused env w (writeError st [] code msg,
     emitInferTrace env (drawn_trace w) (drawn_span w) (now_of w) [] tenant [] result (started w))"
  unfolding refused_def refusal_codes_def by (intro exI conjI) auto

lemma infer_start:
  "fresh_id w = (drawn_trace w, w\<lparr>gw_ids_used := gw_ids_used w + 1\<rparr>)"
  "fresh_id (w\<lparr>gw_ids_used := gw_ids_used w + 1\<rparr>) = (drawn_span w, w\<lparr>gw_ids_used := gw_ids_used w + 2\<rparr>)"
  "tick (w\<lparr>gw_ids_used := gw_ids_used w + 2\<rparr>) = (now_of w, started w)"
  by (simp_all add: fresh_id_def drawn_trace_def drawn_span_def tick_def now_of_def started_def)

lemma infer_cases:
  "infer env hr w =
     (case accepted hr of
        Some req \<Rightarrow> infer_accepted env (drawn_trace w) (drawn_span w) (now_of w) req (started w)
      | None \<Rightarrow> infer env hr w) \<and> (accepted hr = None \<longrightarrow> refused env w (infer env hr w))"
proof (cases "hr_method hr = ''POST''")
  case True
  show ?thesis
  proof (cases "Option.bind (hr_body hr) request_of_json")
    case None
    then show ?thesis
      unfolding infer_def infer_start[of w] prod.case Let_def by (simp add: accepted_def True refusedI)
  next
    case (Some req0)
    show ?thesis
      unfolding infer_def infer_start[of w] prod.case Let_def Some option.case accepted_def
      by (simp add: True refusedI)
  qed
next
  case False
  then have "accepted hr = None" by (simp add: accepted_def split: option.split)
  then show ?thesis unfolding infer_def infer_start[of w] prod.case Let_def by (simp add: False refusedI)
qed

lemma infer_accepts:
  "accepted hr = Some req \<Longrightarrow>
     infer env hr w = infer_accepted env (drawn_trace w) (drawn_span w) (now_of w) req (started w)"
  using infer_cases[of env hr w] by simp

lemma infer_refuses: "accepted hr = None \<Longrightarrow> refused env w (infer env hr w)"
  using infer_cases[of env hr w] by simp

section \<open>Status codes of the handler\<close>

lemma writeAIResponse_code [simp]: "fst (fst (writeAIResponse env p w)) = 200"
  by (simp add: writeAIResponse_def Let_def split: prod.split)

lemma rag_codes:
  assumes "fst (fst (runRAGPipeline call env se sw r w)) = Some e" "as_rag e = Some (tr, st, code, msg)"
  shows "(st, code) \<in> {(400, ''rag_not_configured''), (400, ''invalid_request''), (502, ''execution_failed'')}"
  using assms
  by (auto simp: runRAGPipeline_def rag_error_def Let_def split: if_splits option.splits prod.splits)

lemma server_failure_codes:
  assumes "coded (inferOrchestrator env tr i t) (Inl f)"
  shows "(f_http_status f, f_error_code f) \<in> pipeline_codes
       \<union> {(400, ''rag_not_configured''), (400, ''invalid_request'')}"
    and "f_http_status f = 504 \<Longrightarrow> \<exists>u c. ge_ctx env u = Some c \<and> is_deadline c"
proof -
  have c: "rag_failure (inferOrchestrator env tr i t) f
    \<or> (f_http_status f, f_error_code f) \<in> pipeline_codes
       \<and> (f_http_status f = 504 \<longrightarrow> (\<exists>w c. o_ctx_err (inferOrchestrator env tr i t) w = Some c \<and> is_deadline c))"
    using assms by (simp add: coded_def)
  have r: "(f_http_status f, f_error_code f)
       \<in> {(400, ''rag_not_configured''), (400, ''invalid_request''), (502, ''execution_failed'')}"
    if "rag_failure (inferOrchestrator env tr i t) f"
    using that by (auto simp: rag_failure_def inferOrchestrator_def dest!: rag_codes)
  show "(f_http_status f, f_error_code f) \<in> pipeline_codes
       \<union> {(400, ''rag_not_configured''), (400, ''invalid_request'')}"
    using c r by (auto simp: pipeline_codes_def)
  show "\<exists>u c. ge_ctx env u = Some c \<and> is_deadline c" if "f_http_status f = 504"
    using c r that by (auto simp: inferOrchestrator_def)
qed

lemma infer_accepted_cases:
  assumes "infer_accepted env tr sp t0 req w = (a, w')"
  obtains
    (failed) f sw w3 where "Run (inferOrchestrator env tr (gw_ids w (gw_ids_used w)) (tenant_id req))
        (server_input env tr sp t0 (gw_ids w (gw_ids_used w)) (req\<lparr>request_id := gw_ids w (gw_ids_used w)\<rparr>))
        (w\<lparr>gw_ids_used := gw_ids_used w + 1, gw_requests_total := gw_requests_total w + 1,
           gw_ticks := gw_ticks w + 1\<rparr>) = (Inl f, sw, w3)"
      "w' = w3" "a = writeError (f_http_status f) (gw_ids w (gw_ids_used w)) (f_error_code f) (f_message f)"
  | (answered) su sw w3 p where "Run (inferOrchestrator env tr (gw_ids w (gw_ids_used w)) (tenant_id req))
        (server_input env tr sp t0 (gw_ids w (gw_ids_used w)) (req\<lparr>request_id := gw_ids w (gw_ids_used w)\<rparr>))
        (w\<lparr>gw_ids_used := gw_ids_used w + 1, gw_requests_total := gw_requests_total w + 1,
           gw_ticks := gw_ticks w + 1\<rparr>) = (Inr su, sw, w3)"
      "writeAIResponse env p w3 = (a, w')" "sp_request_id p = gw_ids w (gw_ids_used w)"
      "sp_req p = su_req su" "sp_execution p = su_exec_res su" "sp_trace_id p = tr"
      "sp_span_id p = sp" "sp_trace_start p = t0"
      "sp_primary p = su_primary su" "sp_overload_degrade p = su_overload_degrade su"
proof -
  let ?i = "gw_ids w (gw_ids_used w)"
  obtain res sw w3 where r: "Run (inferOrchestrator env tr ?i (tenant_id req))
      (server_input env tr sp t0 ?i (req\<lparr>request_id := ?i\<rparr>))
      (w\<lparr>gw_ids_used := gw_ids_used w + 1, gw_requests_total := gw_requests_total w + 1,
         gw_ticks := gw_ticks w + 1\<rparr>) = (res, sw, w3)" by (rule prod_cases3)
  show ?thesis
  proof (cases res)
    case (Inl f)
    show ?thesis
      by (rule failed[OF r[unfolded Inl]])
        (use assms r Inl in \<open>simp_all add: infer_accepted_def fresh_id_def tick_def Let_def\<close>)
  next
    case (Inr su)
    show ?thesis
      by (rule answered[OF r[unfolded Inr]])
        (use assms r Inr in \<open>auto simp: infer_accepted_def fresh_id_def tick_def Let_def\<close>)
  qed
qed

lemma answer_frame [gw_frame]:
  "gw_inflight (emitTelemetryMetric env n v ls w) = gw_inflight w"
  "gw_ledger (emitTelemetryMetric env n v ls w) = gw_ledger w"
  "gw_inflight (emitTelemetryEvent ev w) = gw_inflight w" "gw_ledger (emitTelemetryEvent ev w) = gw_ledger w"
  "gw_inflight (gw_first_token env i ts w) = gw_inflight w" "gw_ledger (gw_first_token env i ts w) = gw_ledger w"
  "gw_inflight (gw_completion env i ts w) = gw_inflight w" "gw_ledger (gw_completion env i ts w) = gw_ledger w"
  "gw_inflight (gw_fallback env i w) = gw_inflight w" "gw_ledger (gw_fallback env i w) = gw_ledger w"
  by (simp_all add: emitTelemetryMetric_def emitTelemetryEvent_def gw_first_token_def gw_completion_def
      gw_fallback_def tick_def slo_frame Let_def)

lemma writeAIResponse_frame [gw_frame]:
  "gw_inflight (snd (writeAIResponse env p w)) = gw_inflight w"
  "gw_ledger (snd (writeAIResponse env p w)) = gw_ledger w"
  by (simp_all add: writeAIResponse_def Let_def case_prod_beta gw_frame)

lemma writeAIResponse_obs: "writeAIResponse env p w = (a, w') \<Longrightarrow> gw_obs i w' = gw_obs i w"
  using gw_obs_frame[of w' w i] writeAIResponse_frame[of env p w] by simp

lemma infer_codes:
  "fst (fst (infer env hr w)) \<in> {200, 400, 405, 429, 500, 501, 502, 503, 504}
   \<and> (accepted hr = None \<longrightarrow> fst (fst (infer env hr w)) \<in> {400, 405})
   \<and> (fst (fst (infer env hr w)) = 504 \<longrightarrow> (\<exists>t c. ge_ctx env t = Some c \<and> is_deadline c))"
proof (cases "accepted hr")
  case None
  from infer_refuses[OF this, of env w] show ?thesis by (auto simp: refused_def refusal_codes_def writeError_def)
next
  case (Some req)
  obtain a w' where run: "infer_accepted env (drawn_trace w) (drawn_span w) (now_of w) req (started w) = (a, w')"
    by (cases "infer_accepted env (drawn_trace w) (drawn_span w) (now_of w) req (started w)")
  have i: "infer env hr w = (a, w')" using infer_accepts[OF Some, of env w] run by simp
  have "fst a \<in> {200, 400, 405, 429, 500, 501, 502, 503, 504}
     \<and> (fst a = 504 \<longrightarrow> (\<exists>t c. ge_ctx env t = Some c \<and> is_deadline c))"
  proof (rule infer_accepted_cases[OF run])
    fix f sw w3
    assume r: "Run (inferOrchestrator env (drawn_trace w) (gw_ids (started w) (gw_ids_used (started w))) (tenant_id req))
        (server_input env (drawn_trace w) (drawn_span w) (now_of w) (gw_ids (started w) (gw_ids_used (started w)))
          (req\<lparr>request_id := gw_ids (started w) (gw_ids_used (started w))\<rparr>))
        (started w\<lparr>gw_ids_used := gw_ids_used (started w) + 1,
           gw_requests_total := gw_requests_total (started w) + 1,
           gw_ticks := gw_ticks (started w) + 1\<rparr>) = (Inl f, sw, w3)"
      and a: "a = writeError (f_http_status f) (gw_ids (started w) (gw_ids_used (started w)))
          (f_error_code f) (f_message f)"
    have "coded (inferOrchestrator env (drawn_trace w) (gw_ids (started w) (gw_ids_used (started w))) (tenant_id req)) (Inl f)"
      using Run_coded r by (metis fst_conv)
    from server_failure_codes[OF this] show ?thesis
      using a by (auto simp: writeError_def pipeline_codes_def)
  next
    fix p w3
    assume "writeAIResponse env p w3 = (a, w')"
    then show ?thesis using writeAIResponse_code[of env p w3] by simp
  qed
  then show ?thesis using i Some by simp
qed

section \<open>The recorded timings of a response\<close>

lemma slo_do_keeps:
  assumes "holds_timing (gw_slo w) i r" "\<not> shouldEvictRecord (maxAge (gw_slo w)) now (f r)"
  shows "\<exists>e. slo_do (\<lambda>e. evictLocked iter now (with_record t i f e)) w = w\<lparr>gw_slo := e\<rparr>
     \<and> holds_timing e i (f r) \<and> maxAge e = maxAge (gw_slo w)"
  using record_keeps[where f = f and e = "gw_slo w" and iter = iter and t = t and now = now and i = i and r = r] assms by (auto simp: slo_do_def)

lemma recordings:
  "RecordFirstToken iter a ts b i = (\<lambda>e. evictLocked iter b (with_record a i (\<lambda>r. r\<lparr>rt_firstTokenTime := ts\<rparr>) e))"
  "RecordCompletion iter a ts b i = (\<lambda>e. evictLocked iter b (with_record a i (\<lambda>r. r\<lparr>rt_endTime := ts\<rparr>) e))"
  "RecordFallback iter a b i = (\<lambda>e. evictLocked iter b (with_record a i (\<lambda>r. r\<lparr>rt_fallback := True\<rparr>) e))"
  by (auto simp: RecordFirstToken_def RecordCompletion_def RecordFallback_def)

lemma gw_records:
  assumes "holds_timing (gw_slo w) i r"
  shows "\<not> shouldEvictRecord (maxAge (gw_slo w)) (gw_clock w (gw_ticks w + 1)) (r\<lparr>rt_firstTokenTime := ts\<rparr>)
       \<Longrightarrow> \<exists>e. gw_first_token env i ts w = w\<lparr>gw_ticks := gw_ticks w + 2, gw_slo := e\<rparr>
         \<and> holds_timing e i (r\<lparr>rt_firstTokenTime := ts\<rparr>) \<and> maxAge e = maxAge (gw_slo w)"
    and "\<not> shouldEvictRecord (maxAge (gw_slo w)) (gw_clock w (gw_ticks w + 1)) (r\<lparr>rt_endTime := ts\<rparr>)
       \<Longrightarrow> \<exists>e. gw_completion env i ts w = w\<lparr>gw_ticks := gw_ticks w + 2, gw_slo := e\<rparr>
         \<and> holds_timing e i (r\<lparr>rt_endTime := ts\<rparr>) \<and> maxAge e = maxAge (gw_slo w)"
    and "\<not> shouldEvictRecord (maxAge (gw_slo w)) (gw_clock w (gw_ticks w + 1)) (r\<lparr>rt_fallback := True\<rparr>)
       \<Longrightarrow> \<exists>e. gw_fallback env i w = w\<lparr>gw_ticks := gw_ticks w + 2, gw_slo := e\<rparr>
         \<and> holds_timing e i (r\<lparr>rt_fallback := True\<rparr>) \<and> maxAge e = maxAge (gw_slo w)"
  using slo_do_keeps[of "w\<lparr>gw_ticks := gw_ticks w + 2\<rparr>" i r _ "\<lambda>r. r\<lparr>rt_firstTokenTime := ts\<rparr>"]
    slo_do_keeps[of "w\<lparr>gw_ticks := gw_ticks w + 2\<rparr>" i r _ "\<lambda>r. r\<lparr>rt_endTime := ts\<rparr>"]
    slo_do_keeps[of "w\<lparr>gw_ticks := gw_ticks w + 2\<rparr>" i r _ "\<lambda>r. r\<lparr>rt_fallback := True\<rparr>"] assms
  by (simp_all add: gw_first_token_def gw_completion_def gw_fallback_def tick_def recordings Let_def)

section \<open>Properties\<close>

text \<open>
  What the ledger says of a request of type \<open>ty\<close> once it was answered with \<open>st\<close>: its row is marked
  \<open>success\<close> for 200 and \<open>failed\<close> otherwise, its steps are numbered from 0, and they are a prefix of
  the plan of its type, the whole plan for 200.
\<close>

definition settled :: "string \<Rightarrow> string \<Rightarrow> int \<Rightarrow> memoryStore \<Rightarrow> bool" where
  "settled i ty st m =
     (let steps = steps_of m i
      in map_option rq_status (map_of (ms_requests m) i)
           = Some (if st = 200 then ''success'' else ''failed'')
         \<and> map st_step_index steps = map int [0..<length steps]
         \<and> prefix (map st_step_type steps) (ExecutionPlanForRequestType ty)
         \<and> (st \<noteq> 200 \<or> map st_step_type steps = ExecutionPlanForRequestType ty))"

lemma stands_settled:
  assumes "stands True i (gw_obs i w) sw n status (take k (ExecutionPlanForRequestType ty))"
    and "status = (if st = 200 then ''success'' else ''failed'')"
    and "st = 200 \<Longrightarrow> take k (ExecutionPlanForRequestType ty) = ExecutionPlanForRequestType ty"
  shows "settled i ty st (gw_ledger w)"
proof -
  let ?steps = "steps_of (gw_ledger w) i" and ?types = "take k (ExecutionPlanForRequestType ty)"
  have t: "map st_step_type ?steps = ?types" "map st_step_index ?steps = map int [0..<length ?types]"
    "map_option rq_status (map_of (ms_requests (gw_ledger w)) i) = Some status"
    using assms(1) by (auto simp: stands_def gw_obs_def)
  from t(1) have "length ?types = length ?steps" by (metis length_map)
  with t assms(2,3) show ?thesis by (simp only: settled_def Let_def) (auto simp: take_is_prefix)
qed

lemma ends_settled:
  assumes "ends (ledger_on env) i ty n (Inl f) sw (gw_obs i w)" "st \<noteq> 200"
  shows "gw_inflight w = n \<and> (ledger_on env \<longrightarrow> settled i ty st (gw_ledger w))"
proof -
  obtain k where k: "stands (ledger_on env) i (gw_obs i w) sw n ''failed'' (take k (ExecutionPlanForRequestType ty))"
    using assms(1) by (auto simp: ends_def)
  then have "gw_inflight w = n" by (simp add: stands_def gw_obs_def)
  with k stands_settled[of i w sw n "''failed''" k ty st] assms(2) show ?thesis by auto
qed

lemma ends_settled_success:
  assumes "ends (ledger_on env) i ty n (Inr su) sw (gw_obs i w)"
  shows "gw_inflight w = n \<and> (ledger_on env \<longrightarrow> settled i ty 200 (gw_ledger w))"
proof -
  have k: "stands (ledger_on env) i (gw_obs i w) sw n ''success'' (ExecutionPlanForRequestType ty)"
    using assms(1) by (simp add: ends_def)
  then have "gw_inflight w = n" by (simp add: stands_def gw_obs_def)
  with k stands_settled[of i w sw n "''success''" "length (ExecutionPlanForRequestType ty)" ty 200]
  show ?thesis by auto
qed

lemma server_configured: "configured (inferOrchestrator env tr i t)"
  by (simp add: configured_def inferOrchestrator_def)

lemma server_stored: "(env_store (o_steps (inferOrchestrator env tr i t)) \<noteq> None) = ledger_on env"
  by (simp add: inferOrchestrator_def steps_env_def)

lemma server_Run_ends:
  assumes "Run (inferOrchestrator env tr i t) (server_input env tr sp t0 i req) w = (res, sw, w')"
    and "map_of (ms_requests (gw_ledger w)) i = None"
  shows "ends (ledger_on env) i (request_type (NormalizeAIRequest req)) (gw_inflight w) res sw (gw_obs i w')"
  using gw.Run_ends[OF assms(1) server_configured, of "tenant_id req"] assms(2)
  unfolding server_stored by (simp add: server_input_def gw_obs_def)

lemma failure_not_200:
  "Run (inferOrchestrator env tr i t) inp w = (Inl f, sw, w') \<Longrightarrow>
     f_http_status f \<noteq> 200 \<and> (f_http_status f, f_error_code f) \<in> pipeline_codes
       \<union> {(400, ''rag_not_configured''), (400, ''invalid_request'')}"
  using server_failure_codes(1)[of env tr i t f] Run_coded[of "inferOrchestrator env tr i t" inp w]
  by (auto simp: pipeline_codes_def)

lemma accepted_normal:
  "accepted hr = Some req \<Longrightarrow> NormalizeAIRequest req = req"
  by (auto simp: accepted_def NormalizeAIRequest_twice split: option.splits if_splits)

lemma norm_id: "request_type (NormalizeAIRequest (r\<lparr>request_id := i\<rparr>)) = request_type (NormalizeAIRequest r)"
  by (simp add: norm_request_type)

lemma infer_settled:
  assumes "accepted hr = Some req" "map_of (ms_requests (gw_ledger w)) (drawn_request w) = None"
    and "infer env hr w = ((st, body), w')"
  shows "gw_inflight w' = gw_inflight w
     \<and> (ledger_on env \<longrightarrow> settled (drawn_request w) (request_type req) st (gw_ledger w'))"
proof -
  have run: "infer_accepted env (drawn_trace w) (drawn_span w) (now_of w) req (started w) = ((st, body), w')"
    unfolding infer_accepts[OF assms(1), symmetric] by (rule assms(3))
  have st: "gw_ids (started w) (gw_ids_used (started w)) = drawn_request w"
    "gw_ledger (started w) = gw_ledger w" "gw_inflight (started w) = gw_inflight w"
    by (simp_all add: started_def drawn_request_def)
  have ty: "request_type (NormalizeAIRequest (req\<lparr>request_id := drawn_request w\<rparr>)) = request_type req"
    using accepted_normal[OF assms(1)] by (simp add: norm_id)
  show ?thesis
  proof (rule infer_accepted_cases[OF run], unfold st)
    fix f sw w3
    let ?inp = "server_input env (drawn_trace w) (drawn_span w) (now_of w) (drawn_request w)
        (req\<lparr>request_id := drawn_request w\<rparr>)"
    assume r: "Run (inferOrchestrator env (drawn_trace w) (drawn_request w) (tenant_id req)) ?inp
        (started w\<lparr>gw_ids_used := gw_ids_used (started w) + 1,
           gw_requests_total := gw_requests_total (started w) + 1,
           gw_ticks := gw_ticks (started w) + 1\<rparr>) = (Inl f, sw, w3)"
      and a: "w' = w3" "(st, body) = writeError (f_http_status f) (drawn_request w) (f_error_code f) (f_message f)"
    show ?thesis
      using ends_settled[OF server_Run_ends[OF r], of st] failure_not_200[OF r] assms(2) a
      by (simp add: st ty writeError_def)
  next
    fix su sw w3 p
    let ?inp = "server_input env (drawn_trace w) (drawn_span w) (now_of w) (drawn_request w)
        (req\<lparr>request_id := drawn_request w\<rparr>)"
    assume r: "Run (inferOrchestrator env (drawn_trace w) (drawn_request w) (tenant_id req)) ?inp
        (started w\<lparr>gw_ids_used := gw_ids_used (started w) + 1,
           gw_requests_total := gw_requests_total (started w) + 1,
           gw_ticks := gw_ticks (started w) + 1\<rparr>) = (Inr su, sw, w3)"
      and a: "writeAIResponse env p w3 = ((st, body), w')"
    have "gw_inflight w' = gw_inflight w3" "gw_ledger w' = gw_ledger w3" "st = 200"
      using a writeAIResponse_frame[of env p w3] writeAIResponse_code[of env p w3] by simp_all
    then show ?thesis
      using ends_settled_success[OF server_Run_ends[OF r]] assms(2) by (simp add: st ty)
  qed
qed



definition core :: "'x gateway \<Rightarrow> 'x gateway" where
  "core w = w\<lparr>gw_traces := [], gw_ticks := 0, gw_ids_used := 0\<rparr>"

lemma core_trace: "core (emitInferTrace env tr sp t0 i t b r w) = core w"
  by (simp add: core_def emitInferTrace_def tick_def)

text \<open>
  C18. A request that fails validation reaches no component: whatever the body, the tenant's rate
  limit, the admission counter, the health cache, the ledger, the SLO store, the backends and the
  request counter are as before; only a trace is emitted.
\<close>

theorem invalid_request_untouched:
  assumes "accepted hr = None" "infer env hr w = ((st, body), w')"
  shows "st \<in> {400, 405} \<and> core w' = core w"
proof -
  have "core (started w) = core w" by (simp add: core_def started_def)
  with infer_refuses[OF assms(1), of env w] assms(2) show ?thesis
    by (auto simp: refused_def refusal_codes_def writeError_def core_trace)
qed


text \<open>
  C26. The metrics of a successful response: when the SLO store holds the request's record and its
  retention has not run out, the time to first token and the completion latency are computed from
  the recorded start and exactly the times the adapter measured (or the end of the call), and the
  response reports a fallback exactly when the execution used one.
\<close>

theorem response_timings:
  assumes "holds_timing (gw_slo w) (sp_request_id p) r" "rt_endTime r = 0" "\<not> rt_fallback r"
    and "first = measured (sp_execution_start p) (now_of w) (map_option bt_ttft_ms (ex_timing (sp_execution p)))"
    and "finish = measured (sp_execution_start p) (now_of w)
       (map_option bt_completion_latency_ms (ex_timing (sp_execution p)))"
    and "finish \<noteq> 0" "time_sub (gw_clock w (gw_ticks w + 2)) (rt_insertedAt r) \<le> maxAge (gw_slo w)"
    and "time_sub (gw_clock w (gw_ticks w + 4)) finish \<le> maxAge (gw_slo w)"
    and "time_sub (gw_clock w (gw_ticks w + 6)) finish \<le> maxAge (gw_slo w)"
  shows "\<exists>resp w'. writeAIResponse env p w = ((200, BodyResponse resp), w')
     \<and> am_ttft_ms (rs_metrics resp) = span_ms (rt_startTime r) first
     \<and> am_completion_latency_ms (rs_metrics resp) = span_ms (rt_startTime r) finish
     \<and> fs_triggered (rs_fallback resp) = ex_used_fallback (sp_execution p)"
proof -
  let ?i = "sp_request_id p" and ?fb = "ex_used_fallback (sp_execution p)"
  define w1 where "w1 = snd (tick w)"
  have w1: "gw_slo w1 = gw_slo w" "gw_clock w1 = gw_clock w" "gw_ticks w1 = gw_ticks w + 1"
    "tick w = (now_of w, w1)" by (simp_all add: w1_def tick_def now_of_def)
  let ?r2 = "r\<lparr>rt_firstTokenTime := first\<rparr>"
  let ?r3 = "r\<lparr>rt_firstTokenTime := first, rt_endTime := finish\<rparr>"
  have "\<not> shouldEvictRecord (maxAge (gw_slo w)) (gw_clock w (gw_ticks w + 2)) ?r2"
    using assms(2,7) by (simp add: shouldEvictRecord_def is_zero_time_def)
  with gw_records(1)[of w1 ?i r first env] assms(1) obtain e2 where
    e2: "gw_first_token env ?i first w1 = w1\<lparr>gw_ticks := gw_ticks w1 + 2, gw_slo := e2\<rparr>"
      "holds_timing e2 ?i ?r2" "maxAge e2 = maxAge (gw_slo w)" by (auto simp: w1 eval_nat_numeral)
  define w2 where "w2 = w1\<lparr>gw_ticks := gw_ticks w1 + 2, gw_slo := e2\<rparr>"
  have "\<not> shouldEvictRecord (maxAge (gw_slo w)) (gw_clock w (gw_ticks w + 4)) ?r3"
    using assms(6,8) by (simp add: shouldEvictRecord_def is_zero_time_def)
  with gw_records(2)[of w2 ?i ?r2 finish env] e2 obtain e3 where
    e3: "gw_completion env ?i finish w2 = w2\<lparr>gw_ticks := gw_ticks w2 + 2, gw_slo := e3\<rparr>"
      "holds_timing e3 ?i ?r3" "maxAge e3 = maxAge (gw_slo w)" by (auto simp: w2_def w1 eval_nat_numeral)
  define w3 where "w3 = w2\<lparr>gw_ticks := gw_ticks w2 + 2, gw_slo := e3\<rparr>"
  let ?w4 = "if ?fb then gw_fallback env ?i w3 else w3"
  have "\<not> shouldEvictRecord (maxAge (gw_slo w)) (gw_clock w (gw_ticks w + 6)) (?r3\<lparr>rt_fallback := True\<rparr>)"
    using assms(6,9) by (simp add: shouldEvictRecord_def is_zero_time_def)
  with gw_records(3)[of w3 ?i ?r3 env] e3
  have "\<exists>rf. map_of (me_records (gw_slo ?w4)) ?i = Some (?r3\<lparr>rt_fallback := ?fb\<rparr>)"
    using assms(3) by (auto simp: w3_def w2_def w1 holds_timing_def eval_nat_numeral)
  then have snap: "Snapshot ?i (gw_slo ?w4) = timing_snapshot (?r3\<lparr>rt_fallback := ?fb\<rparr>)"
    by (simp add: Snapshot_def)
  show ?thesis
    unfolding writeAIResponse_def Let_def w1(4) prod.case assms(4,5)[symmetric] e2(1) w2_def[symmetric]
      e3(1) w3_def[symmetric] snap
    by (simp add: case_prod_beta response_of_def timing_snapshot_def Let_def)
qed
text \<open>
  A response describes its request: the ids are the request's, backend, output and status are
  those of the execution, the cost is the configured unit cost of the backend that answered, no
  metric is negative, and the request is reported degraded exactly when it was admitted above the
  limit or its stream was degraded.
\<close>

lemma response_describes:
  "let r = response_of env p (Snapshot (sp_request_id p) (gw_slo w)); ex = sp_execution p
   in rs_request_id r = sp_request_id p \<and> rs_selected_backend r = ex_backend_name ex
      \<and> rs_result r = ex_output ex \<and> rs_status r = ex_status ex
      \<and> (case BackendByName (ge_cfg env) (ex_backend_name ex) of
            None \<Rightarrow> am_estimated_cost (rs_metrics r) = 0
          | Some b \<Rightarrow> am_estimated_cost (rs_metrics r) = b_cost_unit b)
      \<and> 0 \<le> am_ttft_ms (rs_metrics r) \<and> 0 \<le> am_tpot_ms (rs_metrics r)
      \<and> 0 \<le> am_completion_latency_ms (rs_metrics r)
      \<and> fs_triggered (rs_degrade r)
         = (sp_overload_degrade p \<or> obj_get (ex_output ex) ''stream_degraded'' = VBool True)"
  using snapshot_facts[of "sp_request_id p" "gw_slo w"]
  by (auto simp: response_of_def deriveDegradeState_def obj_get_def Let_def split: option.splits)

section \<open>Witnesses\<close>

definition demo_config :: Config where
  "demo_config = small_config\<lparr>ledger := (ledger small_config)\<lparr>ledger_enabled := True\<rparr>,
     server := (server small_config)\<lparr>infercore_api_key := ''k''\<rparr>\<rparr>"

definition demo_env :: "nat gateway_env" where
  "demo_env =
     \<lparr>ge_cfg = demo_config,
      ge_adapters = (\<lambda>n. if n = ''small''
        then Some (\<lambda>t req s. (Inr \<lparr>br_output = Some [(''text'', VStr ''hello'')], br_timing = None\<rparr>, s + 1)) else None),
      ge_probe = (\<lambda>n t s. (None, s)), ge_retrieval = [], ge_rerank = (\<lambda>q cs. Inr cs),
      ge_ctx = (\<lambda>t. None), ge_iter = id, ge_sorter = id, ge_api_key = [], ge_status_summary = []\<rparr>"

definition demo_state :: "nat gateway" where
  "demo_state =
     \<lparr>gw_policy = \<lparr>windowSecond = 0, tenantCounts = []\<rparr>,
      gw_slo = NewMemoryEngineFromConfig 10 60000, gw_ledger = NewMemoryStore, gw_inflight = 0,
      gw_health = empty_cache, gw_spike = no_spike, gw_traces = [], gw_metrics = [], gw_events = [],
      gw_requests_total = 0, gw_clock = (\<lambda>k. (63000000000 + int k) * second), gw_ticks = 0,
      gw_ids = (\<lambda>k. ''id'' @ show_nat k), gw_ids_used = 0, gw_http_total = (\<lambda>_. 0), gw_out = 0\<rparr>"

definition demo_post :: http_request where
  "demo_post = \<lparr>hr_method = ''POST'', hr_path = ''/infer'', hr_api_key = ''k'', hr_authorization = [],
     hr_body = Some (request_json (zero_request\<lparr>tenant_id := ''t1'', task_type := ''chat'',
       req_input := Some [(''text'', VStr ''hi'')], options := \<lparr>opt_stream = False, opt_max_tokens = 10\<rparr>\<rparr>))\<rparr>"


lemma demo_accepted: "\<exists>req. accepted demo_post = Some req"
proof -
  have "accepted demo_post \<noteq> None" by code_simp
  then show ?thesis by auto
qed



theorem invalid_request_untouched_witness:
  "core (snd (infer demo_env (demo_post\<lparr>hr_method := ''GET''\<rparr>) demo_state)) = core demo_state"
proof -
  let ?hr = "demo_post\<lparr>hr_method := ''GET''\<rparr>"
  have "accepted ?hr = None" by (simp add: accepted_def split: option.split)
  moreover obtain st body w' where "infer demo_env ?hr demo_state = ((st, body), w')" by (metis prod.exhaust)
  ultimately show ?thesis using invalid_request_untouched[of ?hr demo_env demo_state st body w'] by simp
qed

definition demo_params :: aiSuccessParams where
  "demo_params =
     \<lparr>sp_trace_id = ''id0'', sp_span_id = ''id1'', sp_trace_start = 1, sp_request_id = ''id2'',
      sp_now_unix_ms = 0, sp_req = zero_request,
      sp_policy_decision = \<lparr>allowed = True, pd_reason = ''allowed'', normalized = zero_request\<rparr>,
      sp_primary = no_engine_route,
      sp_execution = \<lparr>ex_status = ''success'', ex_backend_name = ''small'', ex_output = None,
        ex_used_fallback = True, ex_error = None, ex_timing = None\<rparr>,
      sp_execution_start = 2 * second, sp_overload_degrade = False\<rparr>"

definition demo_running :: "nat gateway" where
  "demo_running = demo_state\<lparr>gw_clock := (\<lambda>k. (3 + int k) * second),
     gw_slo := (gw_slo demo_state)\<lparr>me_records := [(''id2'', (new_timing second)\<lparr>rt_startTime := 2 * second\<rparr>)]\<rparr>\<rparr>"

theorem response_timings_witness:
  "\<exists>resp w'. writeAIResponse demo_env demo_params demo_running = ((200, BodyResponse resp), w')
     \<and> am_completion_latency_ms (rs_metrics resp) = 1000 \<and> fs_triggered (rs_fallback resp)"
proof -
  let ?r = "(new_timing second)\<lparr>rt_startTime := 2 * second\<rparr>"
  have e: "maxAge (gw_slo demo_running) = 60000000000" "now_of demo_running = 3 * second"
    by (simp_all add: demo_running_def demo_state_def NewMemoryEngineFromConfig_def dur_ms_def wrap64_def now_of_def)
  have m: "measured (sp_execution_start demo_params) (now_of demo_running)
      (map_option h (ex_timing (sp_execution demo_params))) = 3 * second" for h
    by (simp add: e demo_params_def measured_def)
  have "holds_timing (gw_slo demo_running) (sp_request_id demo_params) ?r"
    by (simp add: holds_timing_def demo_running_def demo_state_def demo_params_def NewMemoryEngineFromConfig_def)
  moreover have "gw_clock demo_running k = (3 + int k) * second" "gw_ticks demo_running = 0"
    "ex_used_fallback (sp_execution demo_params)" for k
    by (simp_all add: demo_running_def demo_state_def demo_params_def)
  moreover have "rt_endTime ?r = 0" "\<not> rt_fallback ?r" "rt_startTime ?r = 2 * second" "rt_insertedAt ?r = second"
    by (simp_all add: new_timing_def)
  ultimately show ?thesis
    using response_timings[of demo_running demo_params ?r, OF _ _ _ m[symmetric] m[symmetric], of demo_env]
    by (simp add: e time_sub_def span_ms_def is_zero_time_def millis_def go_div_def) blast
qed

end
