(* ===== verification/Replay.thy ===== *)
theory Replay
  imports Server
begin

text \<open>
  Offline replay of a recorded request, \<open>internal/replay/replay.go\<close>: the request is rebuilt from its
  ledger row and run again, either on the recorded backend without fallback (\<open>exact\<close>) or through
  policy, routing and fallback of the current configuration (\<open>current\<close>). The lemmas say what a
  replay may call, that it rebuilds the request that was served, and that its copies of the
  server's retrieval and fallback code agree with the server.
\<close>

section \<open>Dependencies\<close>

datatype Mode = ModeExact | ModeCurrent | UnknownMode string

text \<open>
  The interfaces a replay uses, on a state \<open>'s\<close>; \<open>NewDependenciesFromConfig\<close> fills them with the
  components of the configuration, whose state is the policy engine's counters and the outside.
\<close>

type_synonym 's retrievers = "(string \<times> (string \<Rightarrow> 's \<Rightarrow> (goerr + RetrievalChunk list) \<times> 's)) list"
type_synonym rerank = "string \<Rightarrow> RetrievalChunk list \<Rightarrow> goerr + RetrievalChunk list"

record 's Dependencies =
  de_retrieval :: "'s retrievers"
  de_rerank :: "rerank option"
  de_policy :: "AIRequest \<Rightarrow> 's \<Rightarrow> (goerr + PolicyDecision) \<times> 's"
  de_router :: "AIRequest \<Rightarrow> RuntimeState \<Rightarrow> goerr + RouteDecision"
  de_reliability :: "AIRequest \<Rightarrow> RouteDecision \<Rightarrow> RouteDecision list \<Rightarrow> ReliabilityExecuteOptions \<Rightarrow> 's
     \<Rightarrow> (ExecutionResult \<times> goerr option) \<times> 's"

text \<open>\<open>now\<close> is the second at which the policy engine reads the clock, \<open>ctx\<close> the context's error.\<close>

definition NewDependenciesFromConfig ::
  "int \<Rightarrow> goerr option \<Rightarrow> Config \<Rightarrow> 'x adapters \<Rightarrow> 'x retrievers \<Rightarrow> (BasicEngine \<times> 'x) Dependencies" where
  "NewDependenciesFromConfig now ctx cfg adapters retrieval =
     \<lparr>de_retrieval = map (\<lambda>(n, f). (n, \<lambda>q (e, x). (let (r, x') = f q x in (r, (e, x'))))) retrieval,
      de_rerank = Some (NewRerankFromConfig (Some cfg)),
      de_policy = (\<lambda>req (e, x). (let (r, e') = Evaluate cfg now req e in (r, (e', x)))),
      de_router = SelectRoute cfg (Some Estimate) ctx,
      de_reliability = (\<lambda>req p fb opts (e, x).
         (let (r, x') = ExecuteWithFallbackOpts cfg adapters req p fb opts x in (r, (e, x'))))\<rparr>"

section \<open>Retrieval, fallbacks, response\<close>

definition replay_kb :: "Config option \<Rightarrow> AIRequest \<Rightarrow> string" where
  "replay_kb cfg req =
     (let kb = (case obj_get (req_context req) ''knowledge_base'' of VStr v \<Rightarrow> trim_space v | _ \<Rightarrow> [])
      in if kb = [] then (case cfg of
             None \<Rightarrow> [] | Some c \<Rightarrow> (case knowledge_bases c of [] \<Rightarrow> [] | k # _ \<Rightarrow> kb_name k))
         else kb)"

definition replay_query :: "AIRequest \<Rightarrow> string" where
  "replay_query req =
     (let q = (case obj_get (req_context req) ''query'' of VStr v \<Rightarrow> trim_space v | _ \<Rightarrow> [])
      in if q = [] then (case obj_get (req_input req) ''text'' of VStr t \<Rightarrow> trim_space t | _ \<Rightarrow> []) else q)"

definition runRAGRetrieve ::
  "Config option \<Rightarrow> AIRequest \<Rightarrow> 's retrievers \<Rightarrow> rerank option \<Rightarrow> 's \<Rightarrow> (goerr + AIRequest) \<times> 's" where
  "runRAGRetrieve cfg req ret rerank s =
     (let kb = replay_kb cfg req
      in case map_of ret kb of
           None \<Rightarrow> (Inl (ErrText ''rag replay: knowledge base not available''), s)
         | Some ad \<Rightarrow>
             if kb = [] then (Inl (ErrText ''rag replay: knowledge base not available''), s)
             else
               (let q = replay_query req
                in if q = [] then (Inl (ErrText ''rag replay: missing query''), s)
                   else case ad q s of
                     (Inl e, s1) \<Rightarrow> (Inl e, s1)
                   | (Inr chunks, s1) \<Rightarrow>
                       (let rr = (case rerank of None \<Rightarrow> NewRerankFromConfig None | Some f \<Rightarrow> f)
                        in case rr q chunks of
                             Inl e \<Rightarrow> (Inl e, s1)
                           | Inr out \<Rightarrow> (Inr (MergeRetrievalIntoInput req out), s1))))"

text \<open>A map keeps the last value of a repeated key, here always the same.\<close>

definition allHealthy :: "Config \<Rightarrow> health" where
  "allHealthy cfg = Some (foldl (\<lambda>m b. AList.update (b_name b) True m) [] (backends cfg))"

fun fallback_list_loop :: "Config \<Rightarrow> string \<Rightarrow> health \<Rightarrow> FallbackRule list \<Rightarrow> RouteDecision list \<Rightarrow> RouteDecision list" where
  "fallback_list_loop cfg primary h [] out = out"
| "fallback_list_loop cfg primary h (rule # rules) out =
     (if fr_from_backend rule \<noteq> primary then fallback_list_loop cfg primary h rules out
      else case BackendByName cfg (fr_fallback_to rule) of
        None \<Rightarrow> fallback_list_loop cfg primary h rules out
      | Some b \<Rightarrow>
          (if \<not> BackendHealthOK h (b_name b) then fallback_list_loop cfg primary h rules out
           else fallback_list_loop cfg primary h rules
             (out @ [\<lparr>backend_name = b_name b, reason = ''fallback-from-'' @ primary,
                      estimated_cost = b_cost_unit b, fallback_chain = []\<rparr>])))"

definition buildFallbackList :: "Config \<Rightarrow> string \<Rightarrow> health \<Rightarrow> RouteDecision list" where
  "buildFallbackList cfg primary h = fallback_list_loop cfg primary h (fallback_rules (reliability cfg)) []"

definition buildResponse ::
  "int \<Rightarrow> Config \<Rightarrow> AIRequest \<Rightarrow> string \<Rightarrow> RouteDecision \<Rightarrow> ExecutionResult \<Rightarrow> string \<Rightarrow> string \<Rightarrow> AIResponse" where
  "buildResponse nowMs cfg req policyReason primary ex requestID traceID =
     \<lparr>rs_request_id = requestID, rs_trace_id = traceID, rs_request_type = request_type req,
      rs_pipeline_ref = pipeline_ref req, rs_selected_backend = ex_backend_name ex,
      rs_route_reason = reason primary, rs_policy_reason = policyReason,
      rs_effective_priority = priority req, rs_status = ex_status ex, rs_result = ex_output ex,
      rs_metrics = \<lparr>am_ttft_ms = 0, am_tpot_ms = 0, am_completion_latency_ms = 0,
        am_estimated_cost = b_cost_unit (case BackendByName cfg (ex_backend_name ex) of
            None \<Rightarrow> zero_backend | Some b \<Rightarrow> b),
        am_queue_wait_time_ms = 0, am_server_received_at = nowMs\<rparr>,
      rs_fallback = \<lparr>fs_triggered = ex_used_fallback ex, fs_reason = []\<rparr>,
      rs_degrade = \<lparr>fs_triggered = False, fs_reason = []\<rparr>\<rparr>"

section \<open>The two modes\<close>

text \<open>
  The policy snapshot: an error of the decoding is ignored, a field of another type stays zero.
  Replay reads two of its fields.
\<close>

definition number_or_zero :: "goval \<Rightarrow> rat" where
  "number_or_zero v = (case v of VFloat x \<Rightarrow> x | VInt n \<Rightarrow> f_of_int n | VInt64 n \<Rightarrow> f_of_int n | _ \<Rightarrow> 0)"

definition snapshot_primary :: "RequestRow \<Rightarrow> string \<times> rat" where
  "snapshot_primary row =
     (case rq_policy_snapshot row of
        Some (VMap m) \<Rightarrow> (string_or_empty (obj_get (Some m) ''primary_backend''),
                          number_or_zero (obj_get (Some m) ''estimated_cost''))
      | _ \<Rightarrow> ([], 0))"

definition replayExact ::
  "int \<Rightarrow> Config \<Rightarrow> AIRequest \<Rightarrow> RequestRow \<Rightarrow> 's Dependencies \<Rightarrow> 's \<Rightarrow> (goerr + AIResponse) \<times> 's" where
  "replayExact nowMs cfg req0 row deps s =
     (let (snap_backend, cost) = snapshot_primary row;
          backend = (if trim_space snap_backend = [] then trim_space (rq_selected_backend row)
                     else trim_space snap_backend)
      in if backend = []
         then (Inl (ErrText ''exact replay: missing primary backend in ledger snapshot''), s)
         else case (if request_type req0 = RequestTypeRAG
                    then runRAGRetrieve (Some cfg) req0 (de_retrieval deps) (de_rerank deps) s
                    else (Inr req0, s)) of
           (Inl e, s1) \<Rightarrow> (Inl e, s1)
         | (Inr req, s1) \<Rightarrow>
             (let primary = \<lparr>backend_name = backend, reason = ''replay_exact'', estimated_cost = cost,
                             fallback_chain = []\<rparr>
              in case de_reliability deps req primary []
                   \<lparr>force_primary_backend = backend, no_fallback = True\<rparr> s1 of
                   ((_, Some e), s2) \<Rightarrow> (Inl e, s2)
                 | ((ex, None), s2) \<Rightarrow>
                     (Inr (buildResponse nowMs cfg req ''replay_exact'' primary ex
                        (rq_request_id row) (rq_trace_id row)), s2)))"

definition replayCurrent ::
  "int \<Rightarrow> Config \<Rightarrow> AIRequest \<Rightarrow> 's Dependencies \<Rightarrow> 's \<Rightarrow> (goerr + AIResponse) \<times> 's" where
  "replayCurrent nowMs cfg req0 deps s =
     (case de_policy deps req0 s of
        (Inl e, s1) \<Rightarrow> (Inl e, s1)
      | (Inr pol, s1) \<Rightarrow>
          if \<not> allowed pol then (Inl (ErrText (''policy rejected: '' @ pd_reason pol)), s1)
          else if request_type (normalized pol) = RequestTypeAgent
            then (Inl (ErrText ''agent execution not implemented''), s1)
          else
            (let req1 = normalized pol; h = allHealthy cfg
             in case de_router deps req1 \<lparr>queue_depth = 0, backend_health = h,
                       recent_timeout_spike = False, overload_degrade = False\<rparr> of
                  Inl e \<Rightarrow> (Inl e, s1)
                | Inr primary \<Rightarrow>
                    (case (if request_type req1 = RequestTypeRAG
                           then runRAGRetrieve (Some cfg) req1 (de_retrieval deps) (de_rerank deps) s1
                           else (Inr req1, s1)) of
                       (Inl e, s2) \<Rightarrow> (Inl e, s2)
                     | (Inr req, s2) \<Rightarrow>
                         (case de_reliability deps req primary (buildFallbackList cfg (backend_name primary) h)
                                 \<lparr>force_primary_backend = [], no_fallback = False\<rparr> s2 of
                            ((_, Some e), s3) \<Rightarrow> (Inl e, s3)
                          | ((ex, None), s3) \<Rightarrow>
                              (Inr (buildResponse nowMs cfg req (pd_reason pol) primary ex
                                 (request_id req) []), s3)))))"

section \<open>Rebuilding the request\<close>

text \<open>\<open>json.Unmarshal\<close> into a \<open>map[string]any\<close>; empty bytes are an error.\<close>

definition decode_map :: "json option \<Rightarrow> goobj option option" where
  "decode_map j =
     (case j of
        None \<Rightarrow> None
      | Some VNil \<Rightarrow> Some None
      | Some (VMap m) \<Rightarrow> Some (Some (map (map_prod id decode_any) m))
      | Some _ \<Rightarrow> None)"

definition bad_row :: "string \<Rightarrow> goerr" where
  "bad_row what = ErrWrap (''decode '' @ what @ '': '') (ErrText ''json'')"

definition row_request :: "RequestRow \<Rightarrow> goerr + AIRequest" where
  "row_request row =
     (let decoded =
        (case rq_ai_request_json row of
           Some j \<Rightarrow> (case request_of_json j of None \<Rightarrow> Inl (bad_row ''ai_request_json'') | Some r \<Rightarrow> Inr r)
         | None \<Rightarrow>
             (case decode_map (rq_input_json row) of
                None \<Rightarrow> Inl (bad_row ''input'')
              | Some inp \<Rightarrow>
                  (case decode_map (rq_context_json row) of
                     None \<Rightarrow> Inl (bad_row ''context'')
                   | Some ctx \<Rightarrow> Inr (zero_request\<lparr>req_input := inp, req_context := ctx\<rparr>))))
      in case decoded of
           Inl e \<Rightarrow> Inl e
         | Inr r \<Rightarrow> Inr (NormalizeAIRequest
             (r\<lparr>request_id := rq_request_id row, tenant_id := rq_tenant_id row, task_type := rq_task_type row,
                priority := rq_priority row, request_type := rq_request_type row,
                pipeline_ref := rq_pipeline_ref row\<rparr>)))"

definition Replay ::
  "int \<Rightarrow> Config \<Rightarrow> (string \<Rightarrow> goerr + RequestRow) option \<Rightarrow> string \<Rightarrow> Mode \<Rightarrow> 's Dependencies
     \<Rightarrow> 's \<Rightarrow> (goerr + AIResponse) \<times> 's" where
  "Replay nowMs cfg store requestID mode deps s =
     (case store of
        None \<Rightarrow> (Inl (ErrText ''ledger store is nil''), s)
      | Some get \<Rightarrow>
          (case get requestID of
             Inl e \<Rightarrow> (Inl e, s)
           | Inr row \<Rightarrow>
               (case row_request row of
                  Inl e \<Rightarrow> (Inl e, s)
                | Inr req \<Rightarrow>
                    (case mode of
                       ModeExact \<Rightarrow> replayExact nowMs cfg req row deps s
                     | ModeCurrent \<Rightarrow> replayCurrent nowMs cfg req deps s
                     | UnknownMode m \<Rightarrow> (Inl (ErrText (''unknown replay mode '' @ quote m)), s)))))"

section \<open>The copies agree with the server\<close>

lemma fallback_list_loop_app:
  "fallback_list_loop cfg primary h rules out = out @ build_fallback_loop cfg primary h rules"
  by (induction rules arbitrary: out)
    (auto simp: fallback_decision_def unit_choice_def split: option.split)

lemma health_of_all: "BackendHealthOK (allHealthy cfg) n"
proof -
  have "\<forall>v \<in> ran (map_of (foldl (\<lambda>m b. AList.update (b_name b) True m) m bs)). v" if "\<forall>v \<in> ran (map_of m). v"
    for m :: "(string \<times> bool) list" and bs
    using that
  proof (induction bs arbitrary: m)
    case (Cons b bs)
    have "\<forall>v \<in> ran (map_of (AList.update (b_name b) True m)). v"
      using Cons.prems by (auto simp: update_conv' ran_def split: if_splits)
    from Cons.IH[OF this] show ?case by simp
  qed simp
  from this[of "[]" "backends cfg"] show ?thesis
    by (auto simp: BackendHealthOK_def allHealthy_def ran_def split: option.splits)
qed

text \<open>What a step of the pipeline does to the outside: what its function does.\<close>

lemma step_frames_out:
  "gw_out (snd (tick w)) = gw_out w"
  "gw_out (emitInferStepTrace env tr i t ty b st t0 lat w) = gw_out w"
  "gw_out (snd (ledger_do f w)) = gw_out w"
  by (simp_all add: tick_def emitInferStepTrace_def fresh_id_def ledger_do_def split: prod.split)

lemma StepRun_out:
  assumes "\<And>v. gw_out v = gw_out w \<Longrightarrow> \<exists>out v'. fn v = ((out, err, r), v') \<and> gw_out v' = x"
  shows "\<exists>sw' w'. StepRun (steps_env env tr i t) ty b m fn sw w = ((err, r), sw', w') \<and> gw_out w' = x"
proof (cases sw)
  case None
  from assms[of w] obtain out v' where "fn w = ((out, err, r), v')" "gw_out v' = x" by blast
  with None show ?thesis by (simp add: StepRun_def)
next
  case (Some s)
  obtain t0 w1 where t0: "tick w = (t0, w1)" by fastforce
  have "gw_out w1 = gw_out w" using step_frames_out(1)[of w] t0 by simp
  from assms[OF this] obtain out v' where v: "fn w1 = ((out, err, r), v')" "gw_out v' = x" by blast
  obtain t1 w2 where t1: "tick v' = (t1, w2)" by fastforce
  have w2: "gw_out w2 = x" using step_frames_out(1)[of v'] t1 v(2) by simp
  show ?thesis
    by (simp add: StepRun_def Some steps_env_def t0 v(1) t1 Let_def split_beta step_frames_out w2)
qed

definition plain_retrievers ::
  "(string \<times> string \<times> (string \<Rightarrow> 'x \<Rightarrow> (goerr + RetrievalChunk list) \<times> 'x)) list \<Rightarrow> 'x retrievers" where
  "plain_retrievers m = map (\<lambda>(n, _, f). (n, f)) m"

lemma map_of_plain: "map_of (plain_retrievers m) k = map_option snd (map_of m k)"
  by (induction m) (auto simp: plain_retrievers_def)

lemma query_agrees: "replay_query req = ragQuery req"
  by (auto simp: replay_query_def ragQuery_def string_or_empty_def as_string_def Let_def split: goval.splits)

lemma kb_agrees: "replay_kb (Some c) req = kbName req c"
  by (auto simp: replay_kb_def kbName_def Let_def split: goval.splits list.splits)

text \<open>The retrieval step of the server, with its step writing and error codes set aside.\<close>

definition rag_outcome :: "(goerr option \<times> AIRequest) \<times> StepWriter option \<times> 'x gateway \<Rightarrow> AIRequest option \<times> 'x" where
  "rag_outcome r = ((case fst r of (None, req) \<Rightarrow> Some req | (Some _, _) \<Rightarrow> None), gw_out (snd (snd r)))"

definition replay_outcome :: "(goerr + AIRequest) \<times> 's \<Rightarrow> AIRequest option \<times> 's" where
  "replay_outcome r = ((case fst r of Inl _ \<Rightarrow> None | Inr req \<Rightarrow> Some req), snd r)"

lemma rag_steps:
  assumes se: "se = steps_env env tr i t" and f: "f q (gw_out w) = (r, x)"
  shows "rag_outcome
      (case StepRun se StepRetrieve n m1 (retrieve_fn f q) sw w of
         ((Some e, _), sw1, w1) \<Rightarrow> ((Some (h1 e), req), sw1, w1)
       | ((None, cs), sw1, w1) \<Rightarrow>
           (case StepRun se StepRerank ''noop'' (m2 cs) (rerank_fn rr q cs req) sw1 w1 of
              ((Some e, req'), sw2, w2) \<Rightarrow> ((Some (h2 e), req'), sw2, w2)
            | ((None, req'), sw2, w2) \<Rightarrow> ((None, req'), sw2, w2)))
    = ((case r of Inl _ \<Rightarrow> None
        | Inr cs \<Rightarrow> (case rr q cs of Inl _ \<Rightarrow> None | Inr out \<Rightarrow> Some (MergeRetrievalIntoInput req out))), x)"
proof (cases r)
  case (Inl e)
  have "\<exists>sw' w'. StepRun se StepRetrieve n m1 (retrieve_fn f q) sw w = ((Some e, []), sw', w') \<and> gw_out w' = x"
    unfolding se by (rule StepRun_out) (use f Inl in \<open>auto simp: retrieve_fn_def\<close>)
  with Inl show ?thesis by (auto simp: rag_outcome_def)
next
  case (Inr cs)
  have "\<exists>sw' w'. StepRun se StepRetrieve n m1 (retrieve_fn f q) sw w = ((None, cs), sw', w') \<and> gw_out w' = x"
    unfolding se by (rule StepRun_out) (use f Inr in \<open>auto simp: retrieve_fn_def\<close>)
  then obtain sw1 w1 where s1: "StepRun se StepRetrieve n m1 (retrieve_fn f q) sw w = ((None, cs), sw1, w1)"
    "gw_out w1 = x" by blast
  show ?thesis
  proof (cases "rr q cs")
    case (Inl e)
    have "\<exists>sw' w'. StepRun se StepRerank ''noop'' (m2 cs) (rerank_fn rr q cs req) sw1 w1
        = ((Some e, req), sw', w') \<and> gw_out w' = x"
      unfolding se by (rule StepRun_out) (use Inl s1(2) in \<open>auto simp: rerank_fn_def\<close>)
    with s1 Inl \<open>r = Inr cs\<close> show ?thesis by (auto simp: rag_outcome_def)
  next
    case (Inr out)
    have "\<exists>sw' w'. StepRun se StepRerank ''noop'' (m2 cs) (rerank_fn rr q cs req) sw1 w1
        = ((None, MergeRetrievalIntoInput req out), sw', w') \<and> gw_out w' = x"
      unfolding se by (rule StepRun_out) (use Inr s1(2) in \<open>auto simp: rerank_fn_def\<close>)
    with s1 Inr \<open>r = Inr cs\<close> show ?thesis by (auto simp: rag_outcome_def)
  qed
qed

text \<open>
  C34. Replay does to a RAG request what the server does: its own copies of the retrieval code and of
  the fallback list give the same merged request, the same calls of the outside and the same
  fallbacks.
\<close>

theorem replay_agrees_with_server:
  "replay_outcome (runRAGRetrieve (Some (ge_cfg env)) req (plain_retrievers (ge_retrieval env))
       (Some (ge_rerank env)) (gw_out w))
     = rag_outcome (runRAGPipeline retrieve_fn env (steps_env env tr i t) sw req w)
   \<and> buildFallbackList cfg primary h = buildFallback cfg primary h"
proof
  show "buildFallbackList cfg primary h = buildFallback cfg primary h"
    by (simp add: buildFallbackList_def buildFallback_def fallback_list_loop_app)
  let ?kb = "kbName req (ge_cfg env)" and ?q = "ragQuery req"
  show "replay_outcome (runRAGRetrieve (Some (ge_cfg env)) req (plain_retrievers (ge_retrieval env))
       (Some (ge_rerank env)) (gw_out w))
     = rag_outcome (runRAGPipeline retrieve_fn env (steps_env env tr i t) sw req w)"
  proof (cases "map_of (ge_retrieval env) ?kb")
    case None
    then show ?thesis
      by (simp add: runRAGRetrieve_def query_agrees kb_agrees map_of_plain runRAGPipeline_def replay_outcome_def
          rag_outcome_def Let_def)
  next
    case (Some nf)
    then obtain n f where nf: "map_of (ge_retrieval env) ?kb = Some (n, f)" by (cases nf) auto
    then have ne: "ge_retrieval env \<noteq> []" by auto
    obtain r x where f: "f ?q (gw_out w) = (r, x)" by fastforce
    show ?thesis
    proof (cases "?kb = [] \<or> ?q = []")
      case True
      with nf ne show ?thesis
        by (auto simp: runRAGRetrieve_def query_agrees kb_agrees map_of_plain runRAGPipeline_def replay_outcome_def
            rag_outcome_def Let_def)
    next
      case False
      then have "rag_outcome (runRAGPipeline retrieve_fn env (steps_env env tr i t) sw req w)
        = ((case r of Inl _ \<Rightarrow> None
            | Inr cs \<Rightarrow> (case ge_rerank env ?q cs of Inl _ \<Rightarrow> None
                | Inr out \<Rightarrow> Some (MergeRetrievalIntoInput req out))), x)"
        using nf ne by (simp add: runRAGPipeline_def Let_def rag_steps[OF refl, of f ?q w r x, OF f])
      moreover have "replay_outcome (runRAGRetrieve (Some (ge_cfg env)) req (plain_retrievers (ge_retrieval env))
           (Some (ge_rerank env)) (gw_out w))
        = ((case r of Inl _ \<Rightarrow> None
            | Inr cs \<Rightarrow> (case ge_rerank env ?q cs of Inl _ \<Rightarrow> None
                | Inr out \<Rightarrow> Some (MergeRetrievalIntoInput req out))), x)"
        using False nf
        by (simp add: runRAGRetrieve_def query_agrees kb_agrees map_of_plain replay_outcome_def f Let_def
            split: sum.split)
      ultimately show ?thesis by simp
    qed
  qed
qed

section \<open>What a replay may call\<close>

definition lift_retrievers :: "'x retrievers \<Rightarrow> ('x \<times> call list) retrievers" where
  "lift_retrievers ret = map (\<lambda>(n, f). (n, \<lambda>q (x, tr). (let (r, x') = f q x in (r, (x', tr))))) ret"

text \<open>The dependencies of a configuration, with the calls of the backends recorded.\<close>

definition traced_deps ::
  "int \<Rightarrow> goerr option \<Rightarrow> Config \<Rightarrow> 'x adapters \<Rightarrow> 'x retrievers \<Rightarrow> (BasicEngine \<times> 'x \<times> call list) Dependencies" where
  "traced_deps now ctx cfg adapters ret =
     NewDependenciesFromConfig now ctx cfg (traced adapters) (lift_retrievers ret)"

lemma traced_retrieval:
  "map_of (de_retrieval (traced_deps now ctx cfg adapters ret)) k
     = map_option (\<lambda>f q (e, x, tr). (fst (f q x), (e, snd (f q x), tr))) (map_of ret k)"
  by (induction ret)
    (auto simp: traced_deps_def NewDependenciesFromConfig_def lift_retrievers_def split_beta fun_eq_iff)

lemma rag_keeps_trace:
  assumes "runRAGRetrieve c req (de_retrieval (traced_deps now ctx cfg adapters ret)) rr (e, x, tr) = (r, s')"
  shows "\<exists>x'. s' = (e, x', tr)"
  using assms
  by (auto simp: runRAGRetrieve_def traced_retrieval Let_def split: option.splits sum.splits prod.splits if_splits)

text \<open>The backend an exact replay forces.\<close>

definition recorded_backend :: "RequestRow \<Rightarrow> string" where
  "recorded_backend row =
     (let p = trim_space (fst (snapshot_primary row))
      in if p = [] then trim_space (rq_selected_backend row) else p)"

lemma recorded_trimmed: "trim_space (recorded_backend row) = recorded_backend row"
  by (simp add: recorded_backend_def Let_def)

lemma first_not_fallback:
  "exec_loop cfg adapters req 0 l [d] s = (Inr ex, s') \<Longrightarrow> \<not> ex_used_fallback ex"
  by (auto split: option.splits prod.splits sum.splits if_splits)

lemma forced_success:
  assumes "ExecuteWithFallbackOpts cfg adapters req primary fb opts s = ((res, None), s')"
    and "forced_plan opts primary fb = (p, [])"
  shows "\<not> ex_used_fallback res"
  using assms first_not_fallback[of cfg adapters req None p s]
  by (auto simp: ExecuteWithFallbackOpts_def Let_def simp del: exec_loop.simps split: prod.splits sum.splits)

lemma exact_calls:
  assumes "replayExact nowMs cfg req row (traced_deps now ctx cfg adapters ret) (e, x, []) = (r, e', x', calls)"
  shows "e' = e \<and> length calls \<le> 1 \<and> set (map call_name calls) \<subseteq> {recorded_backend row} - {[]}
     \<and> (\<forall>a. r = Inr a \<longrightarrow> map call_name calls = [rs_selected_backend a]
           \<and> call_err (hd calls) = None \<and> \<not> fs_triggered (rs_fallback a)
           \<and> rs_request_id a = rq_request_id row)"
proof -
  let ?b = "recorded_backend row" and ?d = "traced_deps now ctx cfg adapters ret"
  let ?opts = "\<lparr>force_primary_backend = ?b, no_fallback = True\<rparr>"
  obtain sb cost where sp: "snapshot_primary row = (sb, cost)" by fastforce
  have b: "(if trim_space sb = [] then trim_space (rq_selected_backend row) else trim_space sb) = ?b"
    by (simp add: recorded_backend_def sp Let_def)
  show ?thesis
  proof (cases "?b = []")
    case True
    with assms show ?thesis by (auto simp: replayExact_def sp b Let_def)
  next
    case ne: False
    obtain q s1 where rag: "(if request_type req = RequestTypeRAG
        then runRAGRetrieve (Some cfg) req (de_retrieval ?d) (de_rerank ?d) (e, x, []) else (Inr req, (e, x, []))) = (q, s1)"
      by (rule prod.exhaust)
    then obtain x1 where s1: "s1 = (e, x1, [])" by (auto dest: rag_keeps_trace split: if_splits)
    show ?thesis
    proof (cases q)
      case (Inl er)
      with assms ne s1 show ?thesis by (auto simp: replayExact_def sp b Let_def rag)
    next
      case (Inr req')
      let ?p = "\<lparr>backend_name = ?b, reason = ''replay_exact'', estimated_cost = cost, fallback_chain = []\<rparr>"
      obtain res err x2 tr where run: "ExecuteWithFallbackOpts cfg (traced adapters) req' ?p [] ?opts (x1, [])
          = ((res, err), (x2, tr))" by (metis prod.exhaust)
      have "de_reliability ?d req' ?p [] ?opts (e, x1, []) = ((res, err), (e, x2, tr))"
        by (simp add: traced_deps_def NewDependenciesFromConfig_def run)
      then have out: "e' = e" "calls = tr" "r = (case err of Some er \<Rightarrow> Inl er
          | None \<Rightarrow> Inr (buildResponse nowMs cfg req' ''replay_exact'' ?p res (rq_request_id row) (rq_trace_id row)))"
        using assms ne s1 Inr by (auto simp: replayExact_def sp b Let_def rag split: option.splits)
      have fp: "forced_plan ?opts ?p [] = (\<lparr>backend_name = ?b, reason = ''forced_primary'',
          estimated_cost = cost, fallback_chain = []\<rparr>, [])" (is "_ = (?q, _)")
        using ne by (simp add: forced_plan_def Let_def recorded_trimmed)
      obtain k where k: "run_ok cfg (filter (resolvable cfg adapters) (map backend_name [?q])) tr k"
        "\<forall>c \<in> set tr. loop_call cfg req' 0 c"
        "case k of Inr ex \<Rightarrow> res = ex \<and> err = None
         | Inl _ \<Rightarrow> ex_status res = ''failed'' \<and> ex_error res = err \<and> err \<noteq> None
           \<and> ex_backend_name res = backend_name ?q \<and> ex_used_fallback res = (([] :: RouteDecision list) \<noteq> [])"
        by (rule execute_run[OF run fp])
      have single: "length tr \<le> 1" "set (map call_name tr) \<subseteq> {?b}"
        using execute_single_call[OF run] ne by (auto simp: recorded_trimmed)
      have ok: "map call_name tr = [ex_backend_name res] \<and> call_err (hd tr) = None \<and> \<not> ex_used_fallback res"
        if "err = None"
      proof -
        have "tr \<noteq> [] \<and> call_err (last tr) = None \<and> ex_backend_name res = call_name (last tr)"
          using k(1,3) that by (cases k) (auto simp: run_ok_def)
        moreover have "\<not> ex_used_fallback res" by (rule forced_success[OF run[unfolded that] fp])
        ultimately show ?thesis using single(1) by (cases tr) auto
      qed
      from single ok ne show ?thesis
        by (auto simp: out buildResponse_def split: option.splits)
    qed
  qed
qed


lemma run_ok_names:
  "run_ok cfg names calls k \<Longrightarrow> set (map call_name calls) \<subseteq> set names"
  by (auto simp: run_ok_def)

lemma current_calls:
  assumes "replayCurrent nowMs cfg req (traced_deps now ctx cfg adapters ret) (e, x, []) = (r, e', x', calls)"
    and "calls \<noteq> []"
  shows "\<exists>pol primary. Evaluate cfg now req e = (Inr pol, e') \<and> allowed pol
     \<and> request_type (normalized pol) \<noteq> RequestTypeAgent
     \<and> SelectRoute cfg (Some Estimate) ctx (normalized pol)
          \<lparr>queue_depth = 0, backend_health = allHealthy cfg, recent_timeout_spike = False,
           overload_degrade = False\<rparr> = Inr primary
     \<and> set (map call_name calls)
         \<subseteq> set (map backend_name (primary # buildFallback cfg (backend_name primary) (allHealthy cfg)))"
proof -
  let ?d = "traced_deps now ctx cfg adapters ret" and ?opts = "\<lparr>force_primary_backend = [], no_fallback = False\<rparr>"
  let ?st = "\<lparr>queue_depth = 0, backend_health = allHealthy cfg, recent_timeout_spike = False, overload_degrade = False\<rparr>"
  obtain d e1 where ev: "Evaluate cfg now req e = (d, e1)" by (rule prod.exhaust)
  have pol: "de_policy ?d req (e, x, []) = (d, e1, x, [])"
    by (simp add: traced_deps_def NewDependenciesFromConfig_def ev)
  have route: "de_router ?d = SelectRoute cfg (Some Estimate) ctx"
    by (simp add: traced_deps_def NewDependenciesFromConfig_def)
  note unf = replayCurrent_def pol route Let_def
  from assms obtain p where p: "d = Inr p" "allowed p" "request_type (normalized p) \<noteq> RequestTypeAgent"
    by (cases d) (auto simp: unf split: if_splits)
  from assms p obtain pr where pr: "SelectRoute cfg (Some Estimate) ctx (normalized p) ?st = Inr pr"
    by (cases "SelectRoute cfg (Some Estimate) ctx (normalized p) ?st") (auto simp: unf)
  obtain q s1 where rag: "(if request_type (normalized p) = RequestTypeRAG
      then runRAGRetrieve (Some cfg) (normalized p) (de_retrieval ?d) (de_rerank ?d) (e1, x, [])
      else (Inr (normalized p), (e1, x, []))) = (q, s1)" by (rule prod.exhaust)
  then obtain x1 where s1: "s1 = (e1, x1, [])" by (auto dest: rag_keeps_trace split: if_splits)
  from assms p pr s1 obtain req' where req': "q = Inr req'"
    by (cases q) (auto simp: unf rag)
  let ?fb = "buildFallbackList cfg (backend_name pr) (allHealthy cfg)"
  obtain res err x2 tr where run: "ExecuteWithFallbackOpts cfg (traced adapters) req' pr ?fb ?opts (x1, [])
      = ((res, err), (x2, tr))" by (metis prod.exhaust)
  have "de_reliability ?d req' pr ?fb ?opts (e1, x1, []) = ((res, err), (e1, x2, tr))"
    by (simp add: traced_deps_def NewDependenciesFromConfig_def run)
  then have out: "e' = e1" "calls = tr"
    using assms(1) p pr s1 req' by (auto simp: unf rag split: option.splits)
  have fp: "forced_plan ?opts pr ?fb = (pr, ?fb)" by (simp add: forced_plan_def)
  obtain k where "run_ok cfg (filter (resolvable cfg adapters) (map backend_name (pr # ?fb))) tr k"
    by (rule execute_run[OF run fp])
  then have "set (map call_name tr) \<subseteq> set (map backend_name (pr # ?fb))"
    using run_ok_names filter_is_subset subset_trans by meson
  then show ?thesis using ev p pr out
    by (simp add: buildFallbackList_def buildFallback_def fallback_list_loop_app)
qed

text \<open>
  A current replay calls a backend only when the policy engine allows the request, it is not an
  agent request and the router chooses a backend with all backends taken as healthy; it calls only
  that backend and its fallbacks, as the server would build them.
\<close>

lemma current_replay_is_admitted:
  assumes "Replay nowMs cfg (Some get) i ModeCurrent (traced_deps now ctx cfg adapters ret) (e, x, []) = (r, e', x', calls)"
    and "calls \<noteq> []"
  shows "\<exists>row req pol primary. get i = Inr row \<and> row_request row = Inr req
     \<and> Evaluate cfg now req e = (Inr pol, e') \<and> allowed pol
     \<and> request_type (normalized pol) \<noteq> RequestTypeAgent
     \<and> SelectRoute cfg (Some Estimate) ctx (normalized pol)
          \<lparr>queue_depth = 0, backend_health = allHealthy cfg, recent_timeout_spike = False,
           overload_degrade = False\<rparr> = Inr primary
     \<and> set (map call_name calls)
         \<subseteq> set (map backend_name (primary # buildFallback cfg (backend_name primary) (allHealthy cfg)))"
proof -
  from assms obtain row req where rr: "get i = Inr row" "row_request row = Inr req"
    "replayCurrent nowMs cfg req (traced_deps now ctx cfg adapters ret) (e, x, []) = (r, e', x', calls)"
    by (auto simp: Replay_def split: sum.splits)
  from current_calls[OF rr(3) assms(2)] rr(1,2) show ?thesis by blast
qed

section \<open>Rebuilding what was served\<close>

lemma row_request_patched: "row_request (patch_row p row) = row_request row"
proof -
  have "rq_ai_request_json (patch_row p row) = rq_ai_request_json row"
    "rq_input_json (patch_row p row) = rq_input_json row" "rq_context_json (patch_row p row) = rq_context_json row"
    "rq_request_id (patch_row p row) = rq_request_id row" "rq_tenant_id (patch_row p row) = rq_tenant_id row"
    "rq_task_type (patch_row p row) = rq_task_type row" "rq_priority (patch_row p row) = rq_priority row"
    "rq_request_type (patch_row p row) = rq_request_type row" "rq_pipeline_ref (patch_row p row) = rq_pipeline_ref row"
    by (simp_all add: patch_row_def Let_def)
  then show ?thesis unfolding row_request_def by (simp only:)
qed

lemma row_after_request:
  "\<exists>row'. row_after i ws (Some row) = Some row' \<and> row_request row' = row_request row"
proof (induction ws arbitrary: row)
  case (Cons wr ws)
  from Cons.IH[of row] Cons.IH show ?case
    by (cases wr) (auto, metis row_request_patched)
qed simp

lemma created_row_request:
  assumes "\<And>kvs. req_context q = Some kvs \<Longrightarrow> decode_any (VMap kvs) = VMap kvs"
    and "\<And>kvs. req_input q = Some kvs \<Longrightarrow> decode_any (VMap kvs) = VMap kvs"
    and "rq_ai_request_json row = Some (request_json q)"
    and "rq_request_id row = i" "rq_tenant_id row = tenant_id q" "rq_task_type row = task_type q"
      "rq_priority row = priority q" "rq_request_type row = request_type q" "rq_pipeline_ref row = pipeline_ref q"
  shows "row_request row = Inr (NormalizeAIRequest (q\<lparr>request_id := i\<rparr>))"
proof -
  let ?c = "case req_context q of None \<Rightarrow> None | Some c \<Rightarrow> if c = [] then None else Some c"
  have "row_request row = Inr (NormalizeAIRequest (q\<lparr>req_context := ?c, request_id := i,
      tenant_id := tenant_id q, task_type := task_type q, priority := priority q,
      request_type := request_type q, pipeline_ref := pipeline_ref q\<rparr>))"
    by (simp add: row_request_def assms(3-) request_json_decodes[OF assms(1,2)])
  also have "q\<lparr>req_context := ?c, request_id := i, tenant_id := tenant_id q, task_type := task_type q,
      priority := priority q, request_type := request_type q, pipeline_ref := pipeline_ref q\<rparr>
    = (q\<lparr>request_id := i\<rparr>)\<lparr>req_context := (case req_context (q\<lparr>request_id := i\<rparr>) of
        None \<Rightarrow> None | Some c \<Rightarrow> if c = [] then None else Some c)\<rparr>" by simp
  also have "NormalizeAIRequest \<dots> = NormalizeAIRequest (q\<lparr>request_id := i\<rparr>)"
    by (rule normalize_empty_context)
  finally show ?thesis .
qed

text \<open>
  C13. The request that was served is the request that is replayed: after the server created the
  ledger row of a request, whatever is written later, replay rebuilds from the row the normalised
  request under the recorded id (for values that came from JSON).
\<close>

theorem replay_restores_request:
  assumes "ledger_on env" "GetRequest i (gw_ledger w) = Inl ErrNotFound"
    and "\<And>kvs. req_context q = Some kvs \<Longrightarrow> decode_any (VMap kvs) = VMap kvs"
    and "\<And>kvs. req_input q = Some kvs \<Longrightarrow> decode_any (VMap kvs) = VMap kvs"
  shows "\<exists>row. GetRequest i (run_writes CreateRequest UpdateRequest AppendStep ws
       (gw_ledger (createLedgerRequest env tr i q now w))) = Inr row
     \<and> row_request row = Inr (NormalizeAIRequest (q\<lparr>request_id := i\<rparr>))"
proof -
  let ?m = "gw_ledger (createLedgerRequest env tr i q now w)"
  obtain row0 where r0: "GetRequest i ?m = Inr row0" "row_request row0 = Inr (NormalizeAIRequest (q\<lparr>request_id := i\<rparr>))"
    using assms(1,2) created_row_request[OF assms(3,4)]
    by (auto simp: createLedgerRequest_def ledger_do_def CreateRequest_def GetRequest_def update_conv split: option.splits)
  obtain row' where "row_after i ws (Some row0) = Some row'" "row_request row' = row_request row0"
    using row_after_request by blast
  with r0 memory.run_writes_spec[of i ws ?m] show ?thesis
    by (auto simp: found_def split: sum.splits)
qed

section \<open>Witnesses\<close>

definition demo_row :: RequestRow where
  "demo_row =
     \<lparr>rq_request_id = ''id2'', rq_trace_id = ''tr'', rq_request_type = ''inference'', rq_tenant_id = ''t1'',
      rq_task_type = ''chat'', rq_priority = [], rq_pipeline_ref = [], rq_input_json = None, rq_context_json = None,
      rq_ai_request_json = Some (request_json (zero_request\<lparr>req_input := Some [(''text'', VStr ''hi'')]\<rparr>)),
      rq_policy_snapshot = Some (VMap [(''primary_backend'', VStr ''small'')]), rq_status = ''success'',
      rq_selected_backend = ''other'', rq_route_reason = [], rq_created_at = 0, rq_updated_at = 0\<rparr>"

definition demo_replay :: "Mode \<Rightarrow> (goerr + AIResponse) \<times> BasicEngine \<times> nat \<times> call list" where
  "demo_replay mode = Replay 0 demo_config (Some (\<lambda>_. Inr demo_row)) ''id2'' mode
     (traced_deps 0 None demo_config (ge_adapters demo_env) []) (\<lparr>windowSecond = 0, tenantCounts = []\<rparr>, 0, [])"

lemma demo_replay_runs:
  "snd (snd (snd (demo_replay ModeExact))) \<noteq> []" "snd (snd (snd (demo_replay ModeCurrent))) \<noteq> []"
  by code_simp+


lemma current_replay_is_admitted_witness:
  "\<exists>pol. fst (Evaluate demo_config 0 (NormalizeAIRequest (zero_request\<lparr>request_id := ''id2'',
     request_type := ''inference'', tenant_id := ''t1'', task_type := ''chat'',
     req_input := Some [(''text'', VStr ''hi'')]\<rparr>)) \<lparr>windowSecond = 0, tenantCounts = []\<rparr>) = Inr pol \<and> allowed pol"
proof -
  obtain r e' x' calls where d: "demo_replay ModeCurrent = (r, e', x', calls)" by (metis prod.exhaust)
  have row: "row_request demo_row = Inr (NormalizeAIRequest (zero_request\<lparr>request_id := ''id2'',
     request_type := ''inference'', tenant_id := ''t1'', task_type := ''chat'',
     req_input := Some [(''text'', VStr ''hi'')]\<rparr>))" by code_simp
  have "calls \<noteq> []" using demo_replay_runs(2) by (simp add: d)
  from current_replay_is_admitted[OF d[unfolded demo_replay_def] this] row show ?thesis by auto
qed

theorem replay_restores_request_witness:
  "\<exists>row. GetRequest ''a'' (gw_ledger (createLedgerRequest demo_env [] ''a''
       (zero_request\<lparr>req_input := Some [(''text'', VStr ''hi'')]\<rparr>) 0 demo_state)) = Inr row
     \<and> row_request row = Inr (NormalizeAIRequest (zero_request\<lparr>request_id := ''a'', req_input := Some [(''text'', VStr ''hi'')]\<rparr>))"
proof -
  have "ledger_on demo_env" by code_simp
  moreover have "GetRequest ''a'' (gw_ledger demo_state) = Inl ErrNotFound"
    by (simp add: demo_state_def NewMemoryStore_def GetRequest_def)
  ultimately show ?thesis
    using replay_restores_request[of demo_env "''a''" demo_state
        "zero_request\<lparr>req_input := Some [(''text'', VStr ''hi'')]\<rparr>" "[]" "[]" 0]
    by (simp add: zero_request_def)
qed

end
