(* ===== verification/Telemetry.thy ===== *)
theory Telemetry
  imports Server
begin

text \<open>
  The telemetry exporters of \<open>internal/telemetry\<close>: the choice by configuration (\<open>factory.go\<close>) and the
  batching JSON exporter (\<open>otlp_http_exporter.go\<close>). Concurrent emits share the exporter under its
  mutex; the critical sections are the definitions of the first section, and \<open>exporter_step\<close>
  interleaves them. The lemmas account for every record: emitted, buffered, on its way or done.
\<close>

section \<open>The exporter\<close>

datatype record_kind = Metrics | Events | Traces

type_synonym records = "goobj list"
type_synonym batch = "record_kind \<times> records"

record OTLPHTTPExporter =
  te_endpoint :: string
  te_timeout :: duration
  te_retries :: int
  te_batch_size :: int
  te_flush_every :: duration
  te_buffer :: "record_kind \<Rightarrow> records"
  te_last_flush :: gotime
  te_sent_batches :: int
  te_sent_records :: int
  te_last_error :: string
  te_last_status :: int

definition NewOTLPHTTPExporter ::
  "string \<Rightarrow> duration \<Rightarrow> int \<Rightarrow> int \<Rightarrow> duration \<Rightarrow> gotime \<Rightarrow> OTLPHTTPExporter" where
  "NewOTLPHTTPExporter endpoint timeout retries batchSize flushEvery now =
     \<lparr>te_endpoint = endpoint, te_timeout = (if timeout \<le> 0 then second else timeout),
      te_retries = (if retries < 0 then 0 else retries),
      te_batch_size = (if batchSize \<le> 0 then 10 else batchSize),
      te_flush_every = (if flushEvery \<le> 0 then second else flushEvery),
      te_buffer = (\<lambda>_. []), te_last_flush = now, te_sent_batches = 0, te_sent_records = 0,
      te_last_error = [], te_last_status = 0\<rparr>"

text \<open>The critical sections of \<open>enqueue\<close> and \<open>flush\<close>; \<open>iter\<close> is the order of the map of buffers.\<close>

definition enqueue_locked :: "record_kind \<Rightarrow> goobj \<Rightarrow> gotime \<Rightarrow> OTLPHTTPExporter \<Rightarrow> bool \<times> OTLPHTTPExporter" where
  "enqueue_locked kind r now e =
     (let buf = te_buffer e kind @ [r]
      in (te_batch_size e \<le> int (length buf) \<or> te_flush_every e \<le> time_sub now (te_last_flush e),
          e\<lparr>te_buffer := (te_buffer e)(kind := buf)\<rparr>))"

definition take_buffers :: "record_kind list \<Rightarrow> gotime \<Rightarrow> OTLPHTTPExporter \<Rightarrow> batch list \<times> OTLPHTTPExporter" where
  "take_buffers iter now e =
     (filter (\<lambda>(_, rs). rs \<noteq> []) (map (\<lambda>k. (k, te_buffer e k)) iter),
      e\<lparr>te_buffer := (\<lambda>_. []), te_last_flush := now\<rparr>)"

definition record_outcome :: "records \<Rightarrow> goerr option \<Rightarrow> OTLPHTTPExporter \<Rightarrow> OTLPHTTPExporter" where
  "record_outcome rs res e =
     (case res of
        Some er \<Rightarrow> e\<lparr>te_last_error := err_text er\<rparr>
      | None \<Rightarrow> e\<lparr>te_sent_batches := te_sent_batches e + 1,
                  te_sent_records := te_sent_records e + int (length rs), te_last_error := []\<rparr>)"

section \<open>Sending\<close>

definition kind_name :: "record_kind \<Rightarrow> string" where
  "kind_name k = (case k of Metrics \<Rightarrow> ''metrics'' | Events \<Rightarrow> ''events'' | Traces \<Rightarrow> ''traces'')"

definition endpointForKind :: "string \<Rightarrow> record_kind \<Rightarrow> string" where
  "endpointForKind base k =
     (let b = trim_right_slash base
      in if contains b ''/v1/'' then b else b @ ''/v1/'' @ kind_name k)"

definition buildPayload :: "record_kind \<Rightarrow> records \<Rightarrow> json" where
  "buildPayload k rs =
     (let l = VList (map VMap rs)
      in case k of
           Metrics \<Rightarrow> VMap [(''resourceMetrics'', VList [VMap [(''metrics'', l)]])]
         | Events \<Rightarrow> VMap [(''resourceEvents'', VList [VMap [(''events'', l)]])]
         | Traces \<Rightarrow> VMap [(''resourceSpans'', VList [VMap [(''spans'', l)]])])"

text \<open>
  The collector: the error of \<open>http.NewRequest\<close> for a URL, and one request, answered by an error or
  a status. \<open>post_loop n\<close> makes at most \<open>n\<close> attempts; \<open>lastErr\<close> is the last error.
\<close>

record 'x collector =
  co_url_error :: "string \<Rightarrow> goerr option"
  co_do :: "duration \<Rightarrow> string \<Rightarrow> json \<Rightarrow> 'x \<Rightarrow> (goerr + int) \<times> 'x"

fun post_loop ::
  "'x collector \<Rightarrow> string \<Rightarrow> json \<Rightarrow> nat \<Rightarrow> goerr option \<Rightarrow> OTLPHTTPExporter \<Rightarrow> 'x
     \<Rightarrow> goerr option \<times> OTLPHTTPExporter \<times> 'x" where
  "post_loop co url payload 0 lastErr e x = (lastErr, e, x)"
| "post_loop co url payload (Suc n) lastErr e x =
     (case co_url_error co url of
        Some er \<Rightarrow> (Some er, e, x)
      | None \<Rightarrow>
          (case co_do co (te_timeout e) url payload x of
             (Inl er, x1) \<Rightarrow> post_loop co url payload n (Some er) e x1
           | (Inr st, x1) \<Rightarrow>
               (let e1 = e\<lparr>te_last_status := st\<rparr>
                in if 200 \<le> st \<and> st < 300 then (None, e1, x1)
                   else post_loop co url payload n
                          (Some (ErrText (''otlp http exporter got status '' @ show_int st))) e1 x1)))"

definition post ::
  "'x collector \<Rightarrow> string \<Rightarrow> json \<Rightarrow> OTLPHTTPExporter \<Rightarrow> 'x \<Rightarrow> goerr option \<times> OTLPHTTPExporter \<times> 'x" where
  "post co url payload e x = post_loop co url payload (nat (te_retries e + 1)) None e x"

fun flush_loop :: "'x collector \<Rightarrow> batch list \<Rightarrow> OTLPHTTPExporter \<Rightarrow> 'x \<Rightarrow> OTLPHTTPExporter \<times> 'x" where
  "flush_loop co [] e x = (e, x)"
| "flush_loop co ((k, rs) # bs) e x =
     (let (res, e1, x1) = post co (endpointForKind (te_endpoint e) k) (buildPayload k rs) e x
      in flush_loop co bs (record_outcome rs res e1) x1)"

definition flush ::
  "'x collector \<Rightarrow> record_kind list \<Rightarrow> gotime \<Rightarrow> OTLPHTTPExporter \<Rightarrow> 'x \<Rightarrow> OTLPHTTPExporter \<times> 'x" where
  "flush co iter now e x = (let (bs, e1) = take_buffers iter now e in flush_loop co bs e1 x)"

definition enqueue ::
  "'x collector \<Rightarrow> record_kind list \<Rightarrow> gotime \<Rightarrow> gotime \<Rightarrow> record_kind \<Rightarrow> goobj \<Rightarrow> OTLPHTTPExporter \<Rightarrow> 'x
     \<Rightarrow> OTLPHTTPExporter \<times> 'x" where
  "enqueue co iter now now' kind r e x =
     (let (shouldFlush, e1) = enqueue_locked kind r now e
      in if shouldFlush then flush co iter now' e1 x else (e1, x))"

section \<open>Emitting\<close>

definition labels_obj :: "(string \<times> string) list \<Rightarrow> goval" where
  "labels_obj ls = VMap (map (\<lambda>(k, v). (k, VStr v)) ls)"

definition EmitMetric where
  "EmitMetric co iter now now' name value labels =
     enqueue co iter now now' Metrics
       [(''name'', VStr name), (''value'', VFloat value), (''labels'', labels_obj labels)]"

definition EmitEvent where
  "EmitEvent co iter now now' ev =
     enqueue co iter now now' Events
       [(''name'', VStr (ev_name ev)), (''timestamp'', VInt64 (ev_timestamp ev)),
        (''labels'', labels_obj (ev_labels ev))]"

definition EmitTrace where
  "EmitTrace co iter now now' tr =
     enqueue co iter now now' Traces
       [(''trace_id'', VStr (tr_trace_id tr)), (''span_id'', VStr (tr_span_id tr)),
        (''name'', VStr (tr_name tr)), (''start_unix'', VInt64 (tr_start tr)),
        (''end_unix'', VInt64 (tr_end tr)), (''labels'', labels_obj (tr_labels tr))]"

definition StatusSummary :: "OTLPHTTPExporter \<Rightarrow> goobj" where
  "StatusSummary e =
     [(''type'', VStr ''otlp-http-json''), (''endpoint'', VStr (te_endpoint e)),
      (''batch_size'', VInt (te_batch_size e)), (''flush_interval_ms'', VInt64 (millis (te_flush_every e))),
      (''sent_batches'', VInt (te_sent_batches e)), (''sent_records'', VInt (te_sent_records e)),
      (''buffered_metrics'', VInt (int (length (te_buffer e Metrics)))),
      (''buffered_events'', VInt (int (length (te_buffer e Events)))),
      (''buffered_traces'', VInt (int (length (te_buffer e Traces)))),
      (''last_error'', VStr (te_last_error e)), (''last_status_code'', VInt (te_last_status e))]"

section \<open>The choice of the exporter\<close>

datatype telemetry_exporter = LogExporter | OtelExporter | JsonExporter OTLPHTTPExporter | StubExporter string

text \<open>
  The base URL of the OpenTelemetry exporter; \<open>parse\<close> is \<open>url.Parse\<close>, giving scheme and host. The
  rest of its construction is the SDK: \<open>sdk\<close> tells whether it succeeds for the base URL.
\<close>

definition normalizeOTLPBaseURL :: "(string \<Rightarrow> goerr + string \<times> string) \<Rightarrow> string \<Rightarrow> goerr + string" where
  "normalizeOTLPBaseURL parse raw0 =
     (let raw = trim_space raw0
      in if raw = [] then Inl (ErrText ''empty otlp endpoint'')
         else case parse raw of
           Inl e \<Rightarrow> Inl e
         | Inr u \<Rightarrow>
             (case (if fst u = [] then parse (''http://'' @ raw) else Inr u) of
                Inl e \<Rightarrow> Inl e
              | Inr (scheme, hostname) \<Rightarrow>
                  if hostname = [] then Inl (ErrText (''invalid otlp endpoint host in '' @ quote raw))
                  else Inr (trim_right_slash (scheme @ ''://'' @ hostname))))"

definition NewExporterFromConfig ::
  "(string \<Rightarrow> goerr + string \<times> string) \<Rightarrow> (string \<Rightarrow> bool) \<Rightarrow> TelemetryConfig \<Rightarrow> gotime \<Rightarrow> telemetry_exporter" where
  "NewExporterFromConfig parse sdk cfg now =
     (if exporter cfg = ''otlp-http'' then
        (case normalizeOTLPBaseURL parse (otlp_endpoint cfg) of
           Inl _ \<Rightarrow> LogExporter
         | Inr base \<Rightarrow> if sdk base then OtelExporter else LogExporter)
      else if exporter cfg = ''otlp-http-json'' then
        JsonExporter (NewOTLPHTTPExporter (otlp_endpoint cfg) (dur_ms (otlp_timeout_ms cfg)) (otlp_retries cfg)
          (otlp_batch_size cfg) (dur_ms (otlp_flush_ms cfg)) now)
      else if exporter cfg = ''otlp-http-stub'' then StubExporter (otlp_endpoint cfg)
      else LogExporter)"

section \<open>Interleaved emits\<close>

text \<open>
  The exporter shared by concurrent emits: \<open>ts_want\<close> flushes were decided and not begun,
  \<open>ts_flying\<close> batches were taken out of the buffers and are being posted, \<open>ts_ended\<close> were posted,
  with the outcome. \<open>ts_emitted\<close> records what was emitted.
\<close>

record export_state =
  ts_exp :: OTLPHTTPExporter
  ts_want :: nat
  ts_flying :: "batch multiset"
  ts_ended :: "(batch \<times> goerr option) multiset"
  ts_emitted :: "(record_kind \<times> goobj) multiset"

inductive exporter_step :: "export_state \<Rightarrow> export_state \<Rightarrow> bool" where
  emit: "enqueue_locked k r now (ts_exp s) = (flushNow, e) \<Longrightarrow>
    exporter_step s (s\<lparr>ts_exp := e, ts_want := ts_want s + (if flushNow then 1 else 0),
      ts_emitted := add_mset (k, r) (ts_emitted s)\<rparr>)"
| begin_flush: "0 < ts_want s \<Longrightarrow> distinct iter \<Longrightarrow> set iter = {Metrics, Events, Traces} \<Longrightarrow>
    take_buffers iter now (ts_exp s) = (bs, e) \<Longrightarrow>
    exporter_step s (s\<lparr>ts_exp := e, ts_want := ts_want s - 1, ts_flying := mset bs + ts_flying s\<rparr>)"
| attempt: "exporter_step s (s\<lparr>ts_exp := (ts_exp s)\<lparr>te_last_status := st\<rparr>\<rparr>)"
| end_batch: "b \<in># ts_flying s \<Longrightarrow>
    exporter_step s (s\<lparr>ts_exp := record_outcome (snd b) res (ts_exp s),
      ts_flying := ts_flying s - {#b#}, ts_ended := add_mset (b, res) (ts_ended s)\<rparr>)"

definition fresh_export :: "OTLPHTTPExporter \<Rightarrow> export_state \<Rightarrow> bool" where
  "fresh_export e s \<longleftrightarrow> te_buffer e = (\<lambda>_. []) \<and> te_sent_batches e = 0 \<and> te_sent_records e = 0 \<and> 0 < te_batch_size e
     \<and> s = \<lparr>ts_exp = e, ts_want = 0, ts_flying = {#}, ts_ended = {#}, ts_emitted = {#}\<rparr>"

definition of_batch :: "batch \<Rightarrow> (record_kind \<times> goobj) multiset" where
  "of_batch b = image_mset (Pair (fst b)) (mset (snd b))"

definition buffered :: "OTLPHTTPExporter \<Rightarrow> (record_kind \<times> goobj) multiset" where
  "buffered e = of_batch (Metrics, te_buffer e Metrics) + of_batch (Events, te_buffer e Events)
     + of_batch (Traces, te_buffer e Traces)"

definition all_of :: "batch multiset \<Rightarrow> (record_kind \<times> goobj) multiset" where
  "all_of bs = sum_mset (image_mset of_batch bs)"

definition delivered :: "export_state \<Rightarrow> batch multiset" where
  "delivered s = image_mset fst (filter_mset (\<lambda>(_, res). res = None) (ts_ended s))"

text \<open>
  The accounting: every record is in exactly one place, the counters count what was delivered, and
  a full buffer has a flush coming.
\<close>

definition accounted :: "export_state \<Rightarrow> bool" where
  "accounted s \<longleftrightarrow>
     ts_emitted s = buffered (ts_exp s) + all_of (ts_flying s) + all_of (image_mset fst (ts_ended s))
     \<and> te_sent_batches (ts_exp s) = int (size (delivered s))
     \<and> te_sent_records (ts_exp s) = int (size (all_of (delivered s)))
     \<and> 0 < te_batch_size (ts_exp s)
     \<and> (\<forall>k. te_batch_size (ts_exp s) \<le> int (length (te_buffer (ts_exp s) k)) \<longrightarrow> 0 < ts_want s)"

lemma size_of_batch [simp]: "size (of_batch b) = length (snd b)"
  by (simp add: of_batch_def)

lemma of_batch_Nil [simp]: "of_batch (k, []) = {#}"
  by (simp add: of_batch_def)

lemma of_batch_snoc: "of_batch (k, rs @ [r]) = add_mset (k, r) (of_batch (k, rs))"
  by (simp add: of_batch_def)

lemma all_of_simps [simp]:
  "all_of {#} = {#}" "all_of (add_mset b bs) = of_batch b + all_of bs" "all_of (bs + bs') = all_of bs + all_of bs'"
  by (simp_all add: all_of_def)

lemma all_of_remove: "b \<in># bs \<Longrightarrow> all_of bs = of_batch b + all_of (bs - {#b#})"
  by (metis all_of_simps(2) insert_DiffM)

lemma buffered_snoc:
  "te_buffer e' = (te_buffer e)(k := te_buffer e k @ [r]) \<Longrightarrow> buffered e' = add_mset (k, r) (buffered e)"
  by (cases k) (simp_all add: buffered_def of_batch_snoc)

lemma all_of_filter: "all_of (filter_mset (\<lambda>(_, rs). rs \<noteq> []) bs) = all_of bs"
  by (induction bs) auto

lemma taken_all:
  assumes "distinct iter" "set iter = {Metrics, Events, Traces}" "take_buffers iter now e = (bs, e')"
  shows "all_of (mset bs) = buffered e"
proof -
  have "mset iter = mset_set {Metrics, Events, Traces}" using assms(1,2) mset_set_set by metis
  then have iter: "mset iter = {#Metrics, Events, Traces#}" by simp
  have "all_of (mset bs) = all_of (image_mset (\<lambda>k. (k, te_buffer e k)) (mset iter))"
    using assms(3) by (auto simp: take_buffers_def all_of_filter mset_filter)
  then show ?thesis unfolding iter by (simp add: buffered_def)
qed

lemma accounted_step:
  assumes "exporter_step s s'" "accounted s"
  shows "accounted s'"
  using assms
proof cases
  case (emit k r now flushNow e)
  have e: "te_buffer e = (te_buffer (ts_exp s))(k := te_buffer (ts_exp s) k @ [r])"
    "te_batch_size e = te_batch_size (ts_exp s)" "te_sent_batches e = te_sent_batches (ts_exp s)"
    "te_sent_records e = te_sent_records (ts_exp s)"
    "te_batch_size e \<le> int (length (te_buffer e k)) \<Longrightarrow> flushNow"
    using emit(2) by (auto simp: enqueue_locked_def Let_def)
  have "te_batch_size e \<le> int (length (te_buffer e k')) \<Longrightarrow> 0 < ts_want s + (if flushNow then 1 else 0)" for k'
    using assms(2) e by (cases "k' = k") (auto simp: accounted_def)
  with assms(2) e(2-4) show ?thesis
    by (simp add: emit(1) accounted_def buffered_snoc[OF e(1)] delivered_def)
next
  case (begin_flush iter now bs e)
  have "buffered e = {#}" "te_batch_size e = te_batch_size (ts_exp s)"
    "te_sent_batches e = te_sent_batches (ts_exp s)" "te_sent_records e = te_sent_records (ts_exp s)"
    "te_buffer e = (\<lambda>_. [])"
    using begin_flush(5) by (auto simp: take_buffers_def buffered_def)
  then show ?thesis
    using assms(2) taken_all[OF begin_flush(3,4,5)]
    by (auto simp: begin_flush(1) accounted_def delivered_def)
next
  case (attempt st)
  then show ?thesis using assms(2) by (simp add: accounted_def buffered_def delivered_def)
next
  case (end_batch b res)
  show ?thesis
    using assms(2) all_of_remove[OF end_batch(2)]
    by (cases res) (auto simp: end_batch(1) accounted_def record_outcome_def buffered_def delivered_def)
qed

lemma accounted_fresh: "fresh_export e s \<Longrightarrow> accounted s"
  by (auto simp: fresh_export_def accounted_def buffered_def delivered_def)

lemma accounted_reachable: "exporter_step\<^sup>*\<^sup>* s s' \<Longrightarrow> accounted s \<Longrightarrow> accounted s'"
  by (induction rule: rtranclp_induct) (auto intro: accounted_step)

text \<open>
  C29. No record is lost or sent twice by any interleaving of concurrent emits: what was emitted is,
  with multiplicities, what is still buffered, in a batch being posted, or in a batch that was posted
  once. The counters of \<open>StatusSummary\<close> count exactly the batches and records posted successfully,
  and a buffer that reached the batch size always has a flush coming.
\<close>

theorem telemetry_accounting:
  assumes "fresh_export e s0" "exporter_step\<^sup>*\<^sup>* s0 s"
  shows "ts_emitted s = buffered (ts_exp s) + all_of (ts_flying s) + all_of (image_mset fst (ts_ended s))
     \<and> te_sent_batches (ts_exp s) = int (size (delivered s))
     \<and> te_sent_records (ts_exp s) = int (size (all_of (delivered s)))
     \<and> (\<forall>k. te_batch_size (ts_exp s) \<le> int (length (te_buffer (ts_exp s) k)) \<longrightarrow> 0 < ts_want s)"
  using accounted_reachable[OF assms(2) accounted_fresh[OF assms(1)]] by (simp add: accounted_def)

section \<open>Retries\<close>

text \<open>A collector that counts its requests.\<close>

definition counting :: "'x collector \<Rightarrow> ('x \<times> (goerr + int) list) collector" where
  "counting co =
     \<lparr>co_url_error = co_url_error co,
      co_do = (\<lambda>d url p (x, tr). (let (r, x') = co_do co d url p x in (r, (x', tr @ [r]))))\<rparr>"

definition accepted_answer :: "goerr + int \<Rightarrow> bool" where
  "accepted_answer r \<longleftrightarrow> (case r of Inl _ \<Rightarrow> False | Inr st \<Rightarrow> 200 \<le> st \<and> st < 300)"

lemma post_loop_attempts:
  assumes "post_loop (counting co) url p n lastErr e (x, tr) = (res, e', x', tr')" "co_url_error co url = None"
    and "n = 0 \<longrightarrow> lastErr \<noteq> None"
  shows "\<exists>as. tr' = tr @ as \<and> length as \<le> n \<and> (\<forall>a \<in> set (butlast as). \<not> accepted_answer a)
     \<and> (res = None \<longleftrightarrow> as \<noteq> [] \<and> accepted_answer (last as)) \<and> (res \<noteq> None \<longrightarrow> length as = n)
     \<and> te_buffer e' = te_buffer e \<and> te_sent_records e' = te_sent_records e"
  using assms
proof (induction n arbitrary: lastErr e x tr)
  case (Suc n)
  obtain r x1 where r: "co_do co (te_timeout e) url p x = (r, x1)" by (rule prod.exhaust)
  show ?case
  proof (cases "accepted_answer r")
    case True
    with Suc.prems r show ?thesis
      by (intro exI[of _ "[r]"]) (auto simp: counting_def accepted_answer_def Let_def split: sum.splits)
  next
    case False
    obtain l e1 where nx: "post_loop (counting co) url p n (Some l) e1 (x1, tr @ [r]) = (res, e', x', tr')"
      "te_buffer e1 = te_buffer e" "te_sent_records e1 = te_sent_records e"
      using Suc.prems r False by (auto simp: counting_def accepted_answer_def Let_def split: sum.splits)
    from Suc.IH[OF nx(1)] Suc.prems(2) obtain as where as: "tr' = (tr @ [r]) @ as" "length as \<le> n"
      "\<forall>a \<in> set (butlast as). \<not> accepted_answer a" "res = None \<longleftrightarrow> as \<noteq> [] \<and> accepted_answer (last as)"
      "res \<noteq> None \<longrightarrow> length as = n" "te_buffer e' = te_buffer e1" "te_sent_records e' = te_sent_records e1" by auto
    with False nx(2,3) show ?thesis
      by (intro exI[of _ "r # as"]) auto
  qed
qed simp

text \<open>
  Posting a batch makes at most \<open>retries + 1\<close> requests, ends with the first accepted one and fails
  only after all of them failed; it changes neither the buffers nor the counters.
\<close>

lemma post_attempts:
  assumes "post (counting co) url p e (x, []) = (res, e', x', as)" "co_url_error co url = None" "0 \<le> te_retries e"
  shows "int (length as) \<le> te_retries e + 1 \<and> (\<forall>a \<in> set (butlast as). \<not> accepted_answer a)
     \<and> (res = None \<longleftrightarrow> as \<noteq> [] \<and> accepted_answer (last as))
     \<and> (res \<noteq> None \<longrightarrow> int (length as) = te_retries e + 1)
     \<and> te_buffer e' = te_buffer e \<and> te_sent_records e' = te_sent_records e"
proof -
  obtain n where n: "nat (te_retries e + 1) = Suc n" "te_retries e = int n"
    using assms(3) by (metis Suc_eq_plus1 nat_int int_nat_eq nonneg_int_cases of_nat_1 of_nat_add)
  from post_loop_attempts[OF assms(1)[unfolded post_def] assms(2)] n(1) show ?thesis
    by (auto simp: n(2))
qed

text \<open>The code's own sequence of an emit is a run of the steps.\<close>

lemma post_loop_steps:
  "post_loop co url p n l (ts_exp s) x = (res, e', x') \<Longrightarrow> exporter_step\<^sup>*\<^sup>* s (s\<lparr>ts_exp := e'\<rparr>)"
proof (induction n arbitrary: l s x)
  case (Suc n)
  show ?case
  proof (cases "co_url_error co url")
    case None
    obtain r x1 where r: "co_do co (te_timeout (ts_exp s)) url p x = (r, x1)" by (rule prod.exhaust)
    show ?thesis
    proof (cases r)
      case (Inl er)
      with Suc.prems None r Suc.IH[of "Some er" s x1] show ?thesis by simp
    next
      case (Inr st)
      let ?s = "s\<lparr>ts_exp := (ts_exp s)\<lparr>te_last_status := st\<rparr>\<rparr>"
      have "exporter_step\<^sup>*\<^sup>* ?s (?s\<lparr>ts_exp := e'\<rparr>)"
        using Suc.prems None r Inr Suc.IH[of _ ?s x1] by (auto simp: Let_def split: if_splits)
      moreover have "exporter_step s ?s" by (rule attempt)
      ultimately show ?thesis by (simp add: converse_rtranclp_into_rtranclp)
    qed
  next
    case (Some er)
    then have "e' = ts_exp s" using Suc.prems by simp
    then show ?thesis by simp
  qed
next
  case 0
  then have "e' = ts_exp s" by simp
  then show ?case by simp
qed

lemma flush_loop_steps:
  assumes "flush_loop co bs (ts_exp s) x = (e', x')" "mset bs \<subseteq># ts_flying s"
  shows "\<exists>s'. exporter_step\<^sup>*\<^sup>* s s' \<and> ts_exp s' = e' \<and> ts_flying s' = ts_flying s - mset bs
     \<and> ts_want s' = ts_want s \<and> ts_emitted s' = ts_emitted s"
  using assms
proof (induction bs arbitrary: s x)
  case (Cons b bs)
  obtain k rs where b: "b = (k, rs)" by (cases b)
  obtain res e1 x1 where post: "post co (endpointForKind (te_endpoint (ts_exp s)) k) (buildPayload k rs) (ts_exp s) x
      = (res, e1, x1)" by (rule prod_cases3)
  let ?s1 = "s\<lparr>ts_exp := e1\<rparr>"
  let ?s2 = "?s1\<lparr>ts_exp := record_outcome rs res e1, ts_flying := ts_flying s - {#b#},
    ts_ended := add_mset (b, res) (ts_ended s)\<rparr>"
  have "exporter_step\<^sup>*\<^sup>* s ?s1" using post_loop_steps[OF post[unfolded post_def]] .
  moreover have "exporter_step ?s1 ?s2"
    using end_batch[of b ?s1 res] Cons.prems(2) b by (simp add: mset_subset_eq_insertD)
  ultimately have steps: "exporter_step\<^sup>*\<^sup>* s ?s2" by (rule rtranclp.rtrancl_into_rtrancl)
  have "flush_loop co bs (ts_exp ?s2) x1 = (e', x')" using Cons.prems(1) by (simp add: b post)
  moreover have "mset bs \<subseteq># ts_flying ?s2" using Cons.prems(2) by (simp add: insert_subset_eq_iff)
  ultimately obtain s' where "exporter_step\<^sup>*\<^sup>* ?s2 s'" "ts_exp s' = e'"
    "ts_flying s' = ts_flying ?s2 - mset bs" "ts_want s' = ts_want ?s2" "ts_emitted s' = ts_emitted ?s2"
    using Cons.IH by blast
  with steps show ?case by (intro exI[of _ s']) (auto intro: rtranclp_trans)
qed auto

text \<open>
  The emit of the code, run alone, is a run of these steps: it leaves nothing being posted, so
  that the accounting applies to it.
\<close>

lemma enqueue_refines_steps:
  assumes "enqueue co iter now now' k r (ts_exp s) x = (e', x')"
    and "distinct iter" "set iter = {Metrics, Events, Traces}"
  shows "\<exists>s'. exporter_step\<^sup>*\<^sup>* s s' \<and> ts_exp s' = e' \<and> ts_flying s' = ts_flying s
     \<and> ts_want s' = ts_want s \<and> ts_emitted s' = add_mset (k, r) (ts_emitted s)"
proof -
  obtain fl e1 where q: "enqueue_locked k r now (ts_exp s) = (fl, e1)" by (rule prod.exhaust)
  let ?s1 = "s\<lparr>ts_exp := e1, ts_want := ts_want s + (if fl then 1 else 0), ts_emitted := add_mset (k, r) (ts_emitted s)\<rparr>"
  have s1: "exporter_step s ?s1" by (rule emit[OF q])
  show ?thesis
  proof (cases fl)
    case False
    with assms(1) q s1 show ?thesis by (intro exI[of _ ?s1]) (auto simp: enqueue_def)
  next
    case True
    obtain bs e2 where t: "take_buffers iter now' e1 = (bs, e2)" by (rule prod.exhaust)
    let ?s2 = "?s1\<lparr>ts_exp := e2, ts_want := ts_want s, ts_flying := mset bs + ts_flying s\<rparr>"
    have "exporter_step ?s1 ?s2"
      using begin_flush[of ?s1 iter now' bs e2] assms(2,3) t True by simp
    with s1 have steps: "exporter_step\<^sup>*\<^sup>* s ?s2" by auto
    have "flush_loop co bs (ts_exp ?s2) x = (e', x')"
      using assms(1) q t True by (simp add: enqueue_def flush_def)
    from flush_loop_steps[OF this] obtain s' where "exporter_step\<^sup>*\<^sup>* ?s2 s'" "ts_exp s' = e'"
      "ts_flying s' = ts_flying s" "ts_want s' = ts_want s" "ts_emitted s' = add_mset (k, r) (ts_emitted s)" by auto
    with steps show ?thesis by (intro exI[of _ s']) (auto intro: rtranclp_trans)
  qed
qed

section \<open>Witnesses\<close>

text \<open>A collector that fails with 503 before the state's count and accepts afterwards.\<close>

definition flaky_collector :: "nat \<Rightarrow> nat collector" where
  "flaky_collector good =
     \<lparr>co_url_error = (\<lambda>_. None),
      co_do = (\<lambda>d url p n. (Inr (if n < good then 503 else 200), Suc n))\<rparr>"

definition demo_exporter :: OTLPHTTPExporter where
  "demo_exporter = NewOTLPHTTPExporter ''http://c'' 0 2 1 0 0"

definition demo_export :: export_state where
  "demo_export = \<lparr>ts_exp = demo_exporter, ts_want = 0, ts_flying = {#}, ts_ended = {#}, ts_emitted = {#}\<rparr>"

lemma demo_fresh: "fresh_export demo_exporter demo_export"
  by (simp add: fresh_export_def demo_export_def demo_exporter_def NewOTLPHTTPExporter_def)

theorem telemetry_accounting_witness:
  "\<exists>s. exporter_step\<^sup>*\<^sup>* demo_export s \<and> size (ts_emitted s) = 1
     \<and> ts_emitted s = buffered (ts_exp s) + all_of (ts_flying s) + all_of (image_mset fst (ts_ended s))"
proof -
  obtain fl e where q: "enqueue_locked Traces [] 0 (ts_exp demo_export) = (fl, e)" by (rule prod.exhaust)
  from emit[OF q] obtain s where s: "exporter_step demo_export s" "ts_emitted s = {#(Traces, [])#}"
    by (fastforce simp: demo_export_def)
  then have "exporter_step\<^sup>*\<^sup>* demo_export s" by blast
  moreover have "size (ts_emitted s) = 1" by (simp add: s(2))
  ultimately show ?thesis using telemetry_accounting[OF demo_fresh] by blast
qed

lemma post_attempts_witness:
  "\<exists>e' x' as. post (counting (flaky_collector 1)) ''http://c'' VNil demo_exporter (0, []) = (None, e', x', as)
     \<and> length as = 2"
proof -
  obtain res e' x' as where p: "post (counting (flaky_collector 1)) ''http://c'' VNil demo_exporter (0, [])
      = (res, e', x', as)" by (metis prod.exhaust)
  have "res = None" "length as = 2"
    using p by (auto simp: post_def demo_exporter_def NewOTLPHTTPExporter_def counting_def flaky_collector_def
        eval_nat_numeral)
  then show ?thesis using p post_attempts[OF p] by blast
qed

lemma enqueue_refines_steps_witness:
  "\<exists>s'. exporter_step\<^sup>*\<^sup>* demo_export s' \<and> ts_emitted s' = {#(Metrics, [])#}"
proof -
  obtain e' x' where q: "enqueue (flaky_collector 0) [Metrics, Events, Traces] 0 0 Metrics [] (ts_exp demo_export) 0
      = (e', x')" by (rule prod.exhaust)
  from enqueue_refines_steps[OF q] show ?thesis by (force simp: demo_export_def)
qed

end
