(* ===== verification/Eval.thy ===== *)
theory Eval
  imports Server Upstream_Http
begin

text \<open>
  The evaluation harness of \<open>internal/eval\<close>: posting a dataset of requests to \<open>/infer\<close> and counting
  the outcomes (\<open>eval.go\<close>), and making a dataset from ledger rows (\<open>ledger_export.go\<close>). The lemmas:
  an exported row posts the request that was served, and what the summary's rates mean.
\<close>

section \<open>Items\<close>

record Item =
  it_tenant_id :: string
  it_task_type :: string
  it_priority :: string
  it_request_type :: string
  it_pipeline_ref :: string
  it_context :: "goobj option"
  it_input :: "goobj option"
  it_options :: "goobj option"
  it_expected_backend :: string

record Result =
  re_item_index :: int
  re_ok :: bool
  re_status_code :: int
  re_latency_ms :: int
  re_selected_backend :: string
  re_expected_backend :: string
  re_backend_match :: bool
  re_fallback :: bool
  re_error_code :: string

definition item_of_json :: "json \<Rightarrow> Item option" where
  "item_of_json j =
     (case (case j of VMap m \<Rightarrow> Some m | VNil \<Rightarrow> Some [] | _ \<Rightarrow> None) of
        None \<Rightarrow> None
      | Some m \<Rightarrow>
          (case (field_string m ''tenant_id'', field_string m ''task_type'', field_string m ''priority'',
                 field_string m ''request_type'', field_string m ''pipeline_ref'', field_any_obj m ''context'',
                 field_any_obj m ''input'', field_any_obj m ''options'', field_string m ''expected_backend'') of
             (Some t, Some ty, Some p, Some rt, Some pr, Some c, Some i, Some op, Some e) \<Rightarrow>
               Some \<lparr>it_tenant_id = t, it_task_type = ty, it_priority = p, it_request_type = rt,
                     it_pipeline_ref = pr, it_context = c, it_input = i, it_options = op,
                     it_expected_backend = e\<rparr>
           | _ \<Rightarrow> None))"

definition items_of_json :: "json \<Rightarrow> Item list option" where
  "items_of_json j =
     (case j of VNil \<Rightarrow> Some [] | VList js \<Rightarrow> sequence_opt (map item_of_json js) | _ \<Rightarrow> None)"

text \<open>
  \<open>json.Marshal\<close> of a value of type \<open>any\<close>, as the tree the receiver parses: a whole \<open>float64\<close> below
  \<open>1e21\<close> is written without a point.
\<close>

primrec marshal_any :: "goval \<Rightarrow> json" where
  "marshal_any VNil = VNil"
| "marshal_any (VBool b) = VBool b"
| "marshal_any (VFloat x) = (if of_int \<lfloor>x\<rfloor> = x \<and> \<bar>x\<bar> < 10 ^ 21 then VInt \<lfloor>x\<rfloor> else VFloat x)"
| "marshal_any (VInt n) = VInt n"
| "marshal_any (VInt64 n) = VInt n"
| "marshal_any (VStr s) = VStr s"
| "marshal_any (VList xs) = VList (map marshal_any xs)"
| "marshal_any (VMap kvs) = VMap (map (map_prod id marshal_any) kvs)"

definition marshal_map :: "goobj option \<Rightarrow> json" where
  "marshal_map m = (case m of None \<Rightarrow> VNil | Some kvs \<Rightarrow> marshal_any (VMap kvs))"

definition item_body :: "string \<Rightarrow> Item \<Rightarrow> json" where
  "item_body defaultPipeline it =
     (let pref0 = trim_space (it_pipeline_ref it);
          pref = (if pref0 = [] then trim_space defaultPipeline else pref0)
      in VMap ([(''tenant_id'', VStr (it_tenant_id it)), (''task_type'', VStr (it_task_type it)),
                (''input'', marshal_map (it_input it)), (''options'', marshal_map (it_options it))]
           @ omit_empty ''priority'' (it_priority it) @ omit_empty ''request_type'' (it_request_type it)
           @ omit_empty ''pipeline_ref'' pref
           @ (case it_context it of None \<Rightarrow> [] | Some c \<Rightarrow> [(''context'', marshal_any (VMap c))])))"

section \<open>Running a dataset\<close>

text \<open>\<open>strings.EqualFold\<close>, on ASCII.\<close>

definition equal_fold :: "string \<Rightarrow> string \<Rightarrow> bool" where
  "equal_fold a b \<longleftrightarrow> to_lower a = to_lower b"

definition answer_obj :: "http_in \<Rightarrow> goobj option" where
  "answer_obj r = (case hi_json r of Inr (VMap m) \<Rightarrow> Some m | _ \<Rightarrow> None)"

definition sub_field :: "goobj option \<Rightarrow> string \<Rightarrow> string \<Rightarrow> goval" where
  "sub_field m outer inner =
     (case obj_get m outer of VMap d \<Rightarrow> obj_get (Some d) inner | _ \<Rightarrow> VNil)"

definition item_result :: "int \<Rightarrow> Item \<Rightarrow> int \<Rightarrow> http_in \<Rightarrow> Result" where
  "item_result i it lat r =
     (let parsed = answer_obj r; sel = string_or_empty (obj_get parsed ''selected_backend'')
      in \<lparr>re_item_index = i, re_ok = (hi_status r = 200), re_status_code = hi_status r, re_latency_ms = lat,
          re_selected_backend = sel, re_expected_backend = it_expected_backend it,
          re_backend_match = (it_expected_backend it = [] \<or> equal_fold (it_expected_backend it) sel),
          re_fallback = (sub_field parsed ''fallback'' ''triggered'' = VBool True),
          re_error_code = string_or_empty (sub_field parsed ''error'' ''code'')\<rparr>)"

definition no_answer :: "int \<Rightarrow> int \<Rightarrow> Result" where
  "no_answer i lat =
     \<lparr>re_item_index = i, re_ok = False, re_status_code = 0, re_latency_ms = lat, re_selected_backend = [],
      re_expected_backend = [], re_backend_match = False, re_fallback = False, re_error_code = []\<rparr>"

definition item_request :: "string \<Rightarrow> string \<Rightarrow> string \<Rightarrow> Item \<Rightarrow> http_out" where
  "item_request baseURL defaultPipeline apiKey it =
     \<lparr>ho_method = ''POST'', ho_url = baseURL @ ''/infer'',
      ho_headers = (if trim_space apiKey \<noteq> [] then header_set ''X-InferCore-Api-Key'' (trim_space apiKey) else id)
        (header_set ''Content-Type'' ''application/json'' []),
      ho_body = Some (item_body defaultPipeline it)\<rparr>"

fun run_items ::
  "'x net \<Rightarrow> duration \<Rightarrow> string \<Rightarrow> string \<Rightarrow> string \<Rightarrow> int \<Rightarrow> Item list \<Rightarrow> Result list \<Rightarrow> 'x
     \<Rightarrow> (goerr + Result list) \<times> 'x" where
  "run_items net budget baseURL pipe key i [] results x = (Inr results, x)"
| "run_items net budget baseURL pipe key i (it # items) results x =
     (let out = item_request baseURL pipe key it
      in case net_url_error net (ho_url out) of
           Some e \<Rightarrow> (Inl e, x)
         | None \<Rightarrow>
             (let (start, x1) = net_now net x;
                  (r, x2) = net_do net (120 * second) budget out x1;
                  (stop, x3) = net_now net x2;
                  lat = millis (time_sub stop start);
                  res = (case r of Inl e \<Rightarrow> no_answer i lat | Inr a \<Rightarrow> item_result i it lat a)
              in run_items net budget baseURL pipe key (i + 1) items (results @ [res]) x3))"

definition show_bool :: "bool \<Rightarrow> string" where
  "show_bool b = (if b then ''true'' else ''false'')"

definition result_line :: "Result \<Rightarrow> string" where
  "result_line r =
     ''  ['' @ show_int (re_item_index r) @ ''] http='' @ show_int (re_status_code r)
     @ '' ok='' @ show_bool (re_ok r) @ '' latency_ms='' @ show_int (re_latency_ms r)
     @ '' backend='' @ quote (re_selected_backend r) @ '' expected='' @ quote (re_expected_backend r)
     @ '' backend_match='' @ show_bool (re_backend_match r) @ '' fallback='' @ show_bool (re_fallback r)
     @ '' err='' @ re_error_code r"

definition rate :: "(Result \<Rightarrow> bool) \<Rightarrow> Result list \<Rightarrow> rat" where
  "rate p results =
     f_div (f_of_int (int (length (filter p results)))) (f_of_int (max 1 (int (length results))))"

definition report :: "nat \<Rightarrow> Result list \<Rightarrow> string list" where
  "report n results =
     (''eval items='' @ show_int (int n)) # map result_line results
     @ [''summary: success_rate='' @ show_2f (rate re_ok results)
        @ '' backend_match_rate='' @ show_2f (rate re_backend_match results)]"

text \<open>
  The run: \<open>file\<close> is the content of the dataset, an error of reading it, or \<open>None\<close> when it is not
  JSON. The result are the lines printed.
\<close>

definition eval_run ::
  "'x net \<Rightarrow> duration \<Rightarrow> goerr + json option \<Rightarrow> string \<Rightarrow> string \<Rightarrow> string \<Rightarrow> 'x
     \<Rightarrow> (goerr + string list) \<times> 'x" where
  "eval_run net budget file baseURL pipe key x =
     (case file of
        Inl e \<Rightarrow> (Inl e, x)
      | Inr j \<Rightarrow>
          (case Option.bind j items_of_json of
             None \<Rightarrow> (Inl (ErrWrap ''parse dataset: '' (ErrText ''json'')), x)
           | Some items \<Rightarrow>
               (case run_items net budget (trim_right_slash (trim_space baseURL)) pipe key 0 items [] x of
                  (Inl e, x1) \<Rightarrow> (Inl e, x1)
                | (Inr results, x1) \<Rightarrow> (Inr (report (length items) results), x1))))"

section \<open>Export from the ledger\<close>

definition ItemFromRequestRow :: "RequestRow \<Rightarrow> goerr + Item" where
  "ItemFromRequestRow row =
     (case rq_ai_request_json row of
        None \<Rightarrow> Inl (ErrText (''request '' @ rq_request_id row @ '': missing ai_request_json''))
      | Some j \<Rightarrow>
          (case request_of_json j of
             None \<Rightarrow> Inl (ErrWrap (''request '' @ rq_request_id row @ '': '') (ErrText ''json''))
           | Some q \<Rightarrow> Inr \<lparr>it_tenant_id = tenant_id q, it_task_type = task_type q, it_priority = priority q,
               it_request_type = request_type q, it_pipeline_ref = pipeline_ref q, it_context = req_context q,
               it_input = req_input q,
               it_options = Some [(''stream'', VBool (opt_stream (options q))),
                                  (''max_tokens'', VInt (opt_max_tokens (options q)))],
               it_expected_backend = rq_selected_backend row\<rparr>))"

fun ItemsFromRequestRows :: "RequestRow list \<Rightarrow> Item list \<times> goerr list" where
  "ItemsFromRequestRows [] = ([], [])"
| "ItemsFromRequestRows (row # rows) =
     (let (items, errs) = ItemsFromRequestRows rows
      in case ItemFromRequestRow row of Inl e \<Rightarrow> (items, e # errs) | Inr it \<Rightarrow> (it # items, errs))"

section \<open>An exported row posts the request that was served\<close>

text \<open>Values that survive being written as JSON and read again, such as those that came from JSON.\<close>

definition json_stable :: "goobj option \<Rightarrow> bool" where
  "json_stable m \<longleftrightarrow> (\<forall>kvs. m = Some kvs \<longrightarrow>
     decode_any (VMap kvs) = VMap kvs \<and> decode_any (marshal_any (VMap kvs)) = VMap kvs)"

lemma map_of_omit: "map_of (omit_empty k v) k' = (if k' = k \<and> v \<noteq> [] then Some (VStr v) else None)"
  by (simp add: omit_empty_def)

lemma map_of_context:
  "map_of (case c of None \<Rightarrow> [] | Some c \<Rightarrow> [(''context'', marshal_any (VMap c))]) k
     = (if k = ''context'' then map_option (\<lambda>c. marshal_any (VMap c)) c else None)"
  by (cases c) auto

definition item_pipeline :: "string \<Rightarrow> Item \<Rightarrow> string" where
  "item_pipeline pipe it =
     (if trim_space (it_pipeline_ref it) = [] then trim_space pipe else trim_space (it_pipeline_ref it))"

lemma posted_fields:
  assumes "item_body pipe it = VMap m"
  shows "obj_get (Some m) ''tenant_id'' = VStr (it_tenant_id it)"
    "obj_get (Some m) ''task_type'' = VStr (it_task_type it)"
    "obj_get (Some m) ''priority'' = (if it_priority it = [] then VNil else VStr (it_priority it))"
    "obj_get (Some m) ''request_type'' = (if it_request_type it = [] then VNil else VStr (it_request_type it))"
    "obj_get (Some m) ''request_id'' = VNil"
    "obj_get (Some m) ''pipeline_ref'' = (if item_pipeline pipe it = [] then VNil else VStr (item_pipeline pipe it))"
    "obj_get (Some m) ''input'' = marshal_map (it_input it)"
    "obj_get (Some m) ''options'' = marshal_map (it_options it)"
    "obj_get (Some m) ''context'' = marshal_map (it_context it)"
proof -
  have "m = [(''tenant_id'', VStr (it_tenant_id it)), (''task_type'', VStr (it_task_type it)),
                (''input'', marshal_map (it_input it)), (''options'', marshal_map (it_options it))]
           @ omit_empty ''priority'' (it_priority it) @ omit_empty ''request_type'' (it_request_type it)
           @ omit_empty ''pipeline_ref'' (item_pipeline pipe it)
           @ (case it_context it of None \<Rightarrow> [] | Some c \<Rightarrow> [(''context'', marshal_any (VMap c))])"
    using assms by (simp add: item_body_def item_pipeline_def Let_def)
  then have mo: "map_of m k = (if k = ''tenant_id'' then Some (VStr (it_tenant_id it))
      else if k = ''task_type'' then Some (VStr (it_task_type it))
      else if k = ''input'' then Some (marshal_map (it_input it))
      else if k = ''options'' then Some (marshal_map (it_options it))
      else (((map_of (case it_context it of None \<Rightarrow> [] | Some c \<Rightarrow> [(''context'', marshal_any (VMap c))])
         ++ map_of (omit_empty ''pipeline_ref'' (item_pipeline pipe it)))
         ++ map_of (omit_empty ''request_type'' (it_request_type it)))
         ++ map_of (omit_empty ''priority'' (it_priority it))) k)" for k
    by (simp add: map_of_append)
  show "obj_get (Some m) ''tenant_id'' = VStr (it_tenant_id it)"
    "obj_get (Some m) ''task_type'' = VStr (it_task_type it)"
    "obj_get (Some m) ''input'' = marshal_map (it_input it)"
    "obj_get (Some m) ''options'' = marshal_map (it_options it)"
    by (simp_all add: obj_get_def mo)
  show "obj_get (Some m) ''priority'' = (if it_priority it = [] then VNil else VStr (it_priority it))"
    "obj_get (Some m) ''request_type'' = (if it_request_type it = [] then VNil else VStr (it_request_type it))"
    "obj_get (Some m) ''request_id'' = VNil"
    "obj_get (Some m) ''pipeline_ref'' = (if item_pipeline pipe it = [] then VNil else VStr (item_pipeline pipe it))"
    by (simp_all add: obj_get_def mo map_add_def map_of_omit map_of_context)
  show "obj_get (Some m) ''context'' = marshal_map (it_context it)"
    by (cases "it_context it") (simp_all add: obj_get_def mo map_add_def map_of_omit map_of_context marshal_map_def)
qed

lemma stable_field:
  assumes "json_stable v" "obj_get (Some m) k = marshal_map v"
  shows "field_any_obj m k = Some v"
  using assms by (cases v) (auto simp: field_any_obj_def field_obj_def marshal_map_def json_stable_def)

lemma posted_request:
  assumes "json_stable (it_context it)" "json_stable (it_input it)"
    and "marshal_map (it_options it) = VMap [(''stream'', VBool (opt_stream op)), (''max_tokens'', VInt (opt_max_tokens op))]"
  shows "request_of_json (item_body pipe it) = Some
    \<lparr>request_id = [], request_type = it_request_type it,
     pipeline_ref = item_pipeline pipe it,
     req_context = it_context it, tenant_id = it_tenant_id it, task_type = it_task_type it,
     priority = it_priority it, req_input = it_input it, options = op\<rparr>"
proof -
  obtain m where m: "item_body pipe it = VMap m" by (simp add: item_body_def Let_def)
  note f = posted_fields[OF m]
  let ?o = "[(''stream'', VBool (opt_stream op)), (''max_tokens'', VInt (opt_max_tokens op))]"
  have "field_obj m ''options'' = Some (Some ?o)"
    by (simp add: field_obj_def f(8) assms(3))
  moreover have "field_string m ''tenant_id'' = Some (it_tenant_id it)" "field_string m ''task_type'' = Some (it_task_type it)"
    "field_string m ''priority'' = Some (it_priority it)" "field_string m ''request_type'' = Some (it_request_type it)"
    "field_string m ''request_id'' = Some []" "field_string m ''pipeline_ref'' = Some (item_pipeline pipe it)"
    by (simp_all add: field_string_def f(1-6))
  moreover have "options_of_json (Some ?o) = Some op"
    by (simp add: options_of_json_def field_bool_def field_int_def obj_get_def)
  ultimately show ?thesis
    using stable_field[OF assms(1) f(9)] stable_field[OF assms(2) f(7)]
    by (simp add: m request_of_json_def)
qed

text \<open>
  Round trip of the regression export: the item made from the ledger row of a served request
  posts a request that normalises to the one that was served, and expects the backend that answered.
\<close>

lemma exported_item_posts_request:
  assumes "rq_ai_request_json row = Some (request_json q)"
    and "json_stable (req_context q)" "json_stable (req_input q)"
    and "trim_space (pipeline_ref q) = pipeline_ref q" "pipeline_ref q \<noteq> []"
  shows "\<exists>it r. ItemFromRequestRow row = Inr it \<and> it_expected_backend it = rq_selected_backend row
     \<and> request_of_json (item_body pipe it) = Some r
     \<and> NormalizeAIRequest r = NormalizeAIRequest (q\<lparr>request_id := []\<rparr>)"
proof -
  let ?c = "case req_context q of None \<Rightarrow> None | Some c \<Rightarrow> if c = [] then None else Some c"
  let ?it = "\<lparr>it_tenant_id = tenant_id q, it_task_type = task_type q, it_priority = priority q,
    it_request_type = request_type q, it_pipeline_ref = pipeline_ref q, it_context = ?c, it_input = req_input q,
    it_options = Some [(''stream'', VBool (opt_stream (options q))), (''max_tokens'', VInt (opt_max_tokens (options q)))],
    it_expected_backend = rq_selected_backend row\<rparr>"
  have "request_of_json (request_json q) = Some (q\<lparr>req_context := ?c\<rparr>)"
    using assms(2,3) by (intro request_json_decodes) (auto simp: json_stable_def)
  then have it: "ItemFromRequestRow row = Inr ?it" by (simp add: ItemFromRequestRow_def assms(1))
  have "json_stable ?c" using assms(2) by (auto simp: json_stable_def split: option.splits)
  then have "request_of_json (item_body pipe ?it) = Some ((q\<lparr>request_id := []\<rparr>)\<lparr>req_context := ?c\<rparr>)"
    using posted_request[of ?it "options q" pipe] assms(3-5) by (simp add: item_pipeline_def marshal_map_def)
  moreover have "NormalizeAIRequest ((q\<lparr>request_id := []\<rparr>)\<lparr>req_context := ?c\<rparr>) = NormalizeAIRequest (q\<lparr>request_id := []\<rparr>)"
    using normalize_empty_context[of "q\<lparr>request_id := []\<rparr>"] by simp
  ultimately show ?thesis using it by (intro exI[of _ ?it]) auto
qed

text \<open>One result per item, in order, and the rates lie between 0 and 1.\<close>

lemma run_items_results:
  assumes "run_items net budget base pipe key i items rs x = (Inr rs', x')"
  shows "\<exists>new. rs' = rs @ new \<and> map re_item_index new = map (\<lambda>j. i + int j) [0..<length items]
     \<and> (\<forall>r \<in> set new. re_ok r \<longleftrightarrow> re_status_code r = 200)"
  using assms
proof (induction items arbitrary: i rs x)
  case (Cons it items)
  obtain res x3 where step: "run_items net budget base pipe key (i + 1) items (rs @ [res]) x3 = (Inr rs', x')"
    "re_item_index res = i" "re_ok res \<longleftrightarrow> re_status_code res = 200"
    using Cons.prems
    by (auto simp: Let_def no_answer_def item_result_def split: option.splits prod.splits sum.splits)
  have idx: "map (\<lambda>j. i + int j) [0..<Suc (length items)] = i # map (\<lambda>j. i + 1 + int j) [0..<length items]"
    by (simp only: upt_conv_Cons map_Suc_upt[symmetric]) (simp add: algebra_simps)
  from Cons.IH[OF step(1)] step(2,3) show ?case
    unfolding length_Cons idx by auto
qed simp

section \<open>Witnesses\<close>

definition export_request :: AIRequest where
  "export_request = zero_request\<lparr>tenant_id := ''t1'', pipeline_ref := ''p'',
     req_input := Some [(''text'', VStr ''hi'')]\<rparr>"

definition export_row :: RequestRow where
  "export_row =
     \<lparr>rq_request_id = ''a'', rq_trace_id = [], rq_request_type = [], rq_tenant_id = ''t1'', rq_task_type = [],
      rq_priority = [], rq_pipeline_ref = ''p'', rq_input_json = None, rq_context_json = None,
      rq_ai_request_json = Some (request_json export_request), rq_policy_snapshot = None, rq_status = ''success'',
      rq_selected_backend = ''small'', rq_route_reason = [], rq_created_at = 0, rq_updated_at = 0\<rparr>"

lemma exported_item_posts_request_witness:
  "\<exists>it r. ItemFromRequestRow export_row = Inr it \<and> it_expected_backend it = ''small''
     \<and> request_of_json (item_body [] it) = Some r \<and> tenant_id r = ''t1''"
proof -
  have p: "trim_space ''p'' = ''p''" by code_simp
  obtain it r where "ItemFromRequestRow export_row = Inr it" "it_expected_backend it = rq_selected_backend export_row"
    "request_of_json (item_body [] it) = Some r"
    and n: "NormalizeAIRequest r = NormalizeAIRequest (export_request\<lparr>request_id := []\<rparr>)"
    using exported_item_posts_request[of export_row export_request "[]"]
    by (auto simp: export_row_def export_request_def zero_request_def json_stable_def p)
  moreover from arg_cong[OF n, of tenant_id] have "tenant_id r = ''t1''" by (simp add: export_request_def)
  ultimately show ?thesis by (auto simp: export_row_def)
qed

end
