(* ===== verification/Wiring.thy ===== *)
theory Wiring
  imports Adapter_Laws Retrieval_Http Replay Telemetry Eval
begin

text \<open>
  The server as \<open>NewWithDependencies\<close> in \<open>internal/server/server.go\<close> puts it together: the adapters of
  the configured backends, the retrieval adapters, the reranker, the empty state of the components;
  and the loop of the health probes over the adapters. The lemmas carry the laws of the adapters to
  the execution and to the served configuration.
\<close>

section \<open>Construction\<close>

text \<open>
  What the environment provides: the network, the AWS SDK, the platform, the walk over files, the
  deadline of the request's context as a function of the time, the environment's API key, and the
  orders of map iteration and sorting. A retrieval gets the rest of the request's time as \<open>budget\<close>.
\<close>

record 'x outside =
  os_net :: "'x net"
  os_aws :: "'x aws"
  os_platform :: platform
  os_walk :: "string \<Rightarrow> goerr + walked_file list"
  os_budget :: duration
  os_ctx :: "gotime \<Rightarrow> goerr option"
  os_iter :: "timings \<Rightarrow> timings"
  os_sorter :: "sample list \<Rightarrow> sample list"
  os_api_key :: string
  os_telemetry :: goobj

text \<open>The health probe of a backend, by the adapter the server keeps under its name.\<close>

definition server_probe :: "'x net \<Rightarrow> 'x aws \<Rightarrow> Config \<Rightarrow> string \<Rightarrow> duration \<Rightarrow> 'x \<Rightarrow> goerr option \<times> 'x" where
  "server_probe net aws cfg n budget x =
     (case find (\<lambda>b. b_name b = n \<and> NewBackend b \<noteq> None) (rev (backends cfg)) of
        None \<Rightarrow> (None, x)
      | Some b \<Rightarrow> Health net aws (the (NewBackend b)) b budget x)"

definition server_retrieval where
  "server_retrieval os cfg =
     map (\<lambda>(n, a). (n, kb_label a, kb_retrieve (os_net os) (os_platform os) (os_budget os) a))
       (FromConfig (os_walk os) cfg)"

definition NewWithDependencies :: "'x outside \<Rightarrow> Config \<Rightarrow> 'x gateway_env" where
  "NewWithDependencies os cfg =
     \<lparr>ge_cfg = cfg, ge_adapters = server_adapters (os_net os) (os_aws os) cfg,
      ge_probe = server_probe (os_net os) (os_aws os) cfg,
      ge_retrieval = server_retrieval os cfg, ge_rerank = NewRerankFromConfig (Some cfg),
      ge_ctx = os_ctx os, ge_iter = os_iter os, ge_sorter = os_sorter os,
      ge_api_key = os_api_key os, ge_status_summary = os_telemetry os\<rparr>"

text \<open>\<open>New\<close>: the components of a new server before its first request.\<close>

definition fresh_gateway ::
  "Config \<Rightarrow> (nat \<Rightarrow> gotime) \<Rightarrow> (nat \<Rightarrow> string) \<Rightarrow> 'x \<Rightarrow> 'x gateway" where
  "fresh_gateway cfg clock ids x =
     \<lparr>gw_policy = \<lparr>windowSecond = 0, tenantCounts = []\<rparr>,
      gw_slo = NewMemoryEngineFromConfig (slo_max_records cfg) (slo_max_age_ms cfg),
      gw_ledger = NewMemoryStore, gw_inflight = 0, gw_health = empty_cache, gw_spike = no_spike,
      gw_traces = [], gw_metrics = [], gw_events = [], gw_requests_total = 0, gw_clock = clock,
      gw_ticks = 0, gw_ids = ids, gw_ids_used = 0, gw_http_total = (\<lambda>_. 0), gw_out = x\<rparr>"

section \<open>The adapters in an execution\<close>

lemma merged_options: "options (MergeRetrievalIntoInput req cs) = options req"
  by (simp add: MergeRetrievalIntoInput_def Let_def)

lemma merged_nonstream:
  "cloneAINonStream (MergeRetrievalIntoInput req cs) = MergeRetrievalIntoInput (cloneAINonStream req) cs"
  by (simp add: cloneAINonStream_def MergeRetrievalIntoInput_def Let_def)

lemma adapter_ignores:
  assumes "server_adapters net aws cfg n = Some f"
  shows "f budget (MergeRetrievalIntoInput req cs) x = f budget req x"
proof -
  have "(\<forall>n f. m n = Some f \<longrightarrow> (\<exists>k b. f = Invoke net aws k b)) \<Longrightarrow>
      adapters_loop net aws bs m n = Some f \<Longrightarrow> \<exists>k b. f = Invoke net aws k b" for m bs
  proof (induction bs arbitrary: m)
    case (Cons b bs)
    show ?case
    proof (cases "NewBackend b")
      case (Some k)
      have "\<forall>n f. (m(b_name b \<mapsto> Invoke net aws k b)) n = Some f \<longrightarrow> (\<exists>k b. f = Invoke net aws k b)"
        using Cons.prems(1) by (auto split: if_splits)
      moreover have "adapters_loop net aws bs (m(b_name b \<mapsto> Invoke net aws k b)) n = Some f"
        using Cons.prems(2) Some by simp
      ultimately show ?thesis by (rule Cons.IH)
    qed (use Cons in auto)
  qed auto
  from this[of "\<lambda>_. None" "backends cfg"] assms obtain k b where "f = Invoke net aws k b"
    by (auto simp: server_adapters_def)
  then show ?thesis by (simp only: any_adapter.merge_is_lost)
qed

lemma exec_loop_ignores:
  "exec_loop cfg (server_adapters net aws cfg') (MergeRetrievalIntoInput req cs) i l ds x
     = exec_loop cfg (server_adapters net aws cfg') req i l ds x"
proof (induction ds arbitrary: i l x)
  case (Cons d ds)
  show ?case
  proof (cases "server_adapters net aws cfg' (backend_name d)")
    case (Some f)
    have "f t (invoke_request cfg i (MergeRetrievalIntoInput req cs)) x = f t (invoke_request cfg i req) x" for t
      using adapter_ignores[OF Some] by (simp add: invoke_request_def merged_options merged_nonstream)
    with Some show ?thesis by (auto simp: Cons.IH split: option.split sum.split prod.split)
  qed (simp add: Cons.IH)
qed simp

text \<open>
  C25. The retrieved context reaches no model: whatever chunks the retrieval step merges into the
  input, the execution with its fallbacks makes the same calls and returns the same answer as
  without them, with every adapter the server has.
\<close>

theorem execution_ignores_retrieval:
  "ExecuteWithFallback cfg (ge_adapters (NewWithDependencies os cfg)) (MergeRetrievalIntoInput req chunks) primary fb x
     = ExecuteWithFallback cfg (ge_adapters (NewWithDependencies os cfg)) req primary fb x"
  by (simp add: ExecuteWithFallback_def ExecuteWithFallbackOpts_def NewWithDependencies_def exec_loop_ignores
      del: exec_loop.simps)

end
