(* ===== verification/Sql_Store.thy ===== *)
theory Sql_Store
  imports Ledger
begin

text \<open>
  The SQL ledgers of \<open>internal/requests\<close>: \<open>sqlite.go\<close> and \<open>postgres.go\<close>. The two tables are lists of
  records with the columns of the schema; a statement of the source is the operation it denotes on
  them, with the primary keys and the foreign key it declares. What the driver answers when a
  statement cannot run (an expired context, a lost connection) is an argument. The interface they
  share with the memory store is the locale \<open>durable_store\<close>: times come back in milliseconds, and the
  steps of a request are appended in the order of their indices.
\<close>

section \<open>The tables\<close>

datatype dialect = SQLite | Postgres

text \<open>A nullable text column; \<open>Text None\<close> is the empty text.\<close>

datatype column = Null | Text "json option"

record request_columns =
  rc_request_id :: string
  rc_trace_id :: string
  rc_request_type :: string
  rc_tenant_id :: string
  rc_task_type :: string
  rc_priority :: string
  rc_pipeline_ref :: string
  rc_input_json :: column
  rc_context_json :: column
  rc_ai_request_json :: column
  rc_policy_snapshot_json :: column
  rc_status :: string
  rc_selected_backend :: string
  rc_route_reason :: string
  rc_created_at :: int
  rc_updated_at :: int

record step_columns =
  sc_request_id :: string
  sc_step_index :: int
  sc_step_type :: string
  sc_input_json :: column
  sc_output_json :: column
  sc_backend :: string
  sc_status :: string
  sc_error :: string
  sc_latency_ms :: int
  sc_metadata_json :: column

record tables =
  tb_requests :: "request_columns list"
  tb_steps :: "step_columns list"

definition no_tables :: tables where
  "no_tables = \<lparr>tb_requests = [], tb_steps = []\<rparr>"

text \<open>
  \<open>dr_query\<close> and \<open>dr_exec\<close>: the error of a query or statement that is not executed; \<open>dr_unique\<close> and
  \<open>dr_foreign\<close> the errors of a violated key.
\<close>

record driver =
  dr_query :: "goerr option"
  dr_exec :: "goerr option"
  dr_unique :: goerr
  dr_foreign :: goerr

definition nullIfEmpty :: "json option \<Rightarrow> column" where
  "nullIfEmpty d = (if d = None then Null else Text d)"

text \<open>A byte slice read from a column: nil, or the document (\<open>None\<close> when it has no bytes).\<close>

definition column_bytes :: "column \<Rightarrow> json option option" where
  "column_bytes c = (case c of Null \<Rightarrow> None | Text d \<Rightarrow> Some d)"

definition column_doc :: "column \<Rightarrow> json option" where
  "column_doc c = (case c of Null \<Rightarrow> None | Text d \<Rightarrow> d)"

section \<open>Rows and columns\<close>

definition request_values :: "dialect \<Rightarrow> RequestRow \<Rightarrow> request_columns" where
  "request_values dl row =
     \<lparr>rc_request_id = rq_request_id row, rc_trace_id = rq_trace_id row,
      rc_request_type = rq_request_type row, rc_tenant_id = rq_tenant_id row,
      rc_task_type = rq_task_type row, rc_priority = rq_priority row,
      rc_pipeline_ref = rq_pipeline_ref row, rc_input_json = Text (rq_input_json row),
      rc_context_json = Text (rq_context_json row),
      rc_ai_request_json = (case dl of SQLite \<Rightarrow> Text (rq_ai_request_json row)
                            | Postgres \<Rightarrow> nullIfEmpty (rq_ai_request_json row)),
      rc_policy_snapshot_json = Text (rq_policy_snapshot row), rc_status = rq_status row,
      rc_selected_backend = rq_selected_backend row, rc_route_reason = rq_route_reason row,
      rc_created_at = unix_milli (rq_created_at row), rc_updated_at = unix_milli (rq_updated_at row)\<rparr>"

definition scan_request :: "request_columns \<Rightarrow> RequestRow" where
  "scan_request c =
     \<lparr>rq_request_id = rc_request_id c, rq_trace_id = rc_trace_id c, rq_request_type = rc_request_type c,
      rq_tenant_id = rc_tenant_id c, rq_task_type = rc_task_type c, rq_priority = rc_priority c,
      rq_pipeline_ref = rc_pipeline_ref c, rq_input_json = column_doc (rc_input_json c),
      rq_context_json = column_doc (rc_context_json c),
      rq_ai_request_json = column_doc (rc_ai_request_json c),
      rq_policy_snapshot = column_doc (rc_policy_snapshot_json c), rq_status = rc_status c,
      rq_selected_backend = rc_selected_backend c, rq_route_reason = rc_route_reason c,
      rq_created_at = milli_time (rc_created_at c), rq_updated_at = milli_time (rc_updated_at c)\<rparr>"

definition step_values :: "dialect \<Rightarrow> StepRow \<Rightarrow> step_columns" where
  "step_values dl st =
     (let doc = (case dl of SQLite \<Rightarrow> Text | Postgres \<Rightarrow> nullIfEmpty)
      in \<lparr>sc_request_id = st_request_id st, sc_step_index = st_step_index st, sc_step_type = st_step_type st,
          sc_input_json = doc (st_input_json st), sc_output_json = doc (st_output_json st),
          sc_backend = st_backend st, sc_status = st_status st, sc_error = st_error st,
          sc_latency_ms = st_latency_ms st, sc_metadata_json = doc (st_metadata_json st)\<rparr>)"

definition scan_step :: "step_columns \<Rightarrow> StepRow" where
  "scan_step c =
     \<lparr>st_request_id = sc_request_id c, st_step_index = sc_step_index c, st_step_type = sc_step_type c,
      st_input_json = column_doc (sc_input_json c), st_output_json = column_doc (sc_output_json c),
      st_backend = sc_backend c, st_status = sc_status c, st_error = sc_error c,
      st_latency_ms = sc_latency_ms c, st_metadata_json = column_doc (sc_metadata_json c)\<rparr>"

section \<open>Operations\<close>

definition request_columns_of :: "string \<Rightarrow> tables \<Rightarrow> request_columns option" where
  "request_columns_of i db = find (\<lambda>c. rc_request_id c = i) (tb_requests db)"

definition sql_GetRequest :: "driver \<Rightarrow> string \<Rightarrow> tables \<Rightarrow> goerr + RequestRow" where
  "sql_GetRequest dr i db =
     (case dr_query dr of
        Some e \<Rightarrow> Inl e
      | None \<Rightarrow> (case request_columns_of i db of None \<Rightarrow> Inl ErrNotFound | Some c \<Rightarrow> Inr (scan_request c)))"

definition sql_CreateRequest :: "dialect \<Rightarrow> driver \<Rightarrow> RequestRow \<Rightarrow> tables \<Rightarrow> goerr option \<times> tables" where
  "sql_CreateRequest dl dr row db =
     (case dr_exec dr of
        Some e \<Rightarrow> (Some e, db)
      | None \<Rightarrow>
          if request_columns_of (rq_request_id row) db \<noteq> None then (Some (dr_unique dr), db)
          else (None, db\<lparr>tb_requests := tb_requests db @ [request_values dl row]\<rparr>))"

definition update_columns :: "RequestRow \<Rightarrow> request_columns \<Rightarrow> request_columns" where
  "update_columns r c =
     c\<lparr>rc_policy_snapshot_json := Text (rq_policy_snapshot r), rc_status := rq_status r,
       rc_selected_backend := rq_selected_backend r, rc_route_reason := rq_route_reason r,
       rc_updated_at := unix_milli (rq_updated_at r)\<rparr>"

definition sql_UpdateRequest ::
  "driver \<Rightarrow> string \<Rightarrow> RequestPatch \<Rightarrow> tables \<Rightarrow> goerr option \<times> tables" where
  "sql_UpdateRequest dr i p db =
     (case sql_GetRequest dr i db of
        Inl e \<Rightarrow> (Some e, db)
      | Inr r \<Rightarrow>
          (case dr_exec dr of
             Some e \<Rightarrow> (Some e, db)
           | None \<Rightarrow>
               (None, db\<lparr>tb_requests :=
                  map (\<lambda>c. if rc_request_id c = i then update_columns (patch_row p r) c else c)
                    (tb_requests db)\<rparr>)))"

definition sql_AppendStep :: "dialect \<Rightarrow> driver \<Rightarrow> StepRow \<Rightarrow> tables \<Rightarrow> goerr option \<times> tables" where
  "sql_AppendStep dl dr st db =
     (case dr_exec dr of
        Some e \<Rightarrow> (Some e, db)
      | None \<Rightarrow>
          if (st_request_id st, st_step_index st) \<in> set (map (\<lambda>c. (sc_request_id c, sc_step_index c)) (tb_steps db))
          then (Some (dr_unique dr), db)
          else if request_columns_of (st_request_id st) db = None then (Some (dr_foreign dr), db)
          else (None, db\<lparr>tb_steps := tb_steps db @ [step_values dl st]\<rparr>))"

definition step_columns_of :: "string \<Rightarrow> tables \<Rightarrow> step_columns list" where
  "step_columns_of i db = sort_key sc_step_index (filter (\<lambda>c. sc_request_id c = i) (tb_steps db))"

definition sql_ListSteps :: "driver \<Rightarrow> string \<Rightarrow> tables \<Rightarrow> goerr + StepRow list" where
  "sql_ListSteps dr i db =
     (case dr_query dr of
        Some e \<Rightarrow> Inl e
      | None \<Rightarrow>
          (let out = map scan_step (step_columns_of i db)
           in if out = [] then (case sql_GetRequest dr i db of Inl e \<Rightarrow> Inl e | Inr _ \<Rightarrow> Inr [])
              else Inr out))"

section \<open>Opening\<close>

text \<open>
  The statements of opening a store; \<open>run\<close> is the driver's answer to each. \<open>lower\<close> is
  \<open>strings.ToLower\<close>. The column \<open>ai_request_json\<close> is new in SQLite databases of the first release.
\<close>

datatype open_step = OpenDB | CreateTables | ForeignKeysOn | AddAIRequestColumn

definition migrateSQLiteLedger :: "(open_step \<Rightarrow> goerr option) \<Rightarrow> goerr option" where
  "migrateSQLiteLedger run =
     (case run AddAIRequestColumn of
        None \<Rightarrow> None
      | Some e \<Rightarrow> if contains (to_lower (err_text e)) ''duplicate column'' then None
                  else Some (ErrWrap ''sqlite migrate ai_request_json: '' e))"

definition NewSQLiteStore :: "(open_step \<Rightarrow> goerr option) \<Rightarrow> goerr option" where
  "NewSQLiteStore run =
     (case run OpenDB of
        Some e \<Rightarrow> Some e
      | None \<Rightarrow>
          (case run CreateTables of
             Some e \<Rightarrow> Some (ErrWrap ''sqlite migrate: '' e)
           | None \<Rightarrow>
               (case run ForeignKeysOn of
                  Some e \<Rightarrow> Some (ErrWrap ''sqlite pragma: '' e)
                | None \<Rightarrow> migrateSQLiteLedger run)))"

definition NewPostgresStore :: "(open_step \<Rightarrow> goerr option) \<Rightarrow> goerr option" where
  "NewPostgresStore run =
     (case run OpenDB of
        Some e \<Rightarrow> Some e
      | None \<Rightarrow> map_option (ErrWrap ''postgres migrate: '') (run CreateTables))"

section \<open>The interface of all the stores\<close>

text \<open>
  \<open>stored\<close> is what a store keeps of a row, \<open>wf\<close> its invariant. Only a step whose index is above those
  of the request's other steps is promised to be appended.
\<close>

definition follows :: "StepRow \<Rightarrow> StepRow list \<Rightarrow> bool" where
  "follows st xs \<longleftrightarrow> (\<forall>x \<in> set xs. st_step_index x < st_step_index st)"

locale durable_store =
  fixes create :: "RequestRow \<Rightarrow> 's \<Rightarrow> goerr option \<times> 's"
    and update :: "string \<Rightarrow> RequestPatch \<Rightarrow> 's \<Rightarrow> goerr option \<times> 's"
    and append_step :: "StepRow \<Rightarrow> 's \<Rightarrow> goerr option \<times> 's"
    and get :: "string \<Rightarrow> 's \<Rightarrow> goerr + RequestRow"
    and steps :: "string \<Rightarrow> 's \<Rightarrow> goerr + StepRow list"
    and stored :: "RequestRow \<Rightarrow> RequestRow"
    and wf :: "'s \<Rightarrow> bool"
  assumes stored_patch: "stored (patch_row p (stored r)) = stored (patch_row p r)"
    and wf_keep: "wf s \<Longrightarrow> wf (snd (create row s)) \<and> wf (snd (update i p s)) \<and> wf (snd (append_step st s))"
    and create_fresh: "wf s \<Longrightarrow> get (rq_request_id row) s = Inl ErrNotFound \<Longrightarrow>
      fst (create row s) = None
      \<and> get i (snd (create row s)) = (if i = rq_request_id row then Inr (stored row) else get i s)
      \<and> steps i (snd (create row s)) = (if i = rq_request_id row then Inr [] else steps i s)"
    and create_dup: "wf s \<Longrightarrow> get (rq_request_id row) s = Inr r \<Longrightarrow>
      fst (create row s) \<noteq> None \<and> snd (create row s) = s"
    and update_known: "wf s \<Longrightarrow> get i s = Inr r \<Longrightarrow>
      fst (update i p s) = None
      \<and> get j (snd (update i p s)) = (if j = i then Inr (stored (patch_row p r)) else get j s)
      \<and> steps j (snd (update i p s)) = steps j s"
    and update_unknown: "wf s \<Longrightarrow> get i s = Inl e \<Longrightarrow> fst (update i p s) \<noteq> None \<and> snd (update i p s) = s"
    and append_known: "wf s \<Longrightarrow> steps (st_request_id st) s = Inr xs \<Longrightarrow> follows st xs \<Longrightarrow>
      fst (append_step st s) = None
      \<and> get j (snd (append_step st s)) = get j s
      \<and> steps j (snd (append_step st s)) = (if j = st_request_id st then Inr (xs @ [st]) else steps j s)"
    and append_unknown: "wf s \<Longrightarrow> steps (st_request_id st) s = Inl e \<Longrightarrow>
      fst (append_step st s) \<noteq> None \<and> snd (append_step st s) = s"
    and steps_iff_get: "wf s \<Longrightarrow> (\<exists>xs. steps i s = Inr xs) \<longleftrightarrow> (\<exists>r. get i s = Inr r)"
    and get_error: "wf s \<Longrightarrow> get i s = Inl e \<Longrightarrow> e = ErrNotFound"
begin

text \<open>Two ways a request can stand in a store.\<close>

lemma found_split:
  assumes "wf s"
  obtains (unknown) e where "get i s = Inl ErrNotFound" "steps i s = Inl e"
  | (known) r xs where "get i s = Inr r" "steps i s = Inr xs"
  using steps_iff_get[OF assms, of i] get_error[OF assms, of i] by (cases "get i s"; cases "steps i s") auto

end

text \<open>
  The writes of a history put the steps of each request in the order of their indices, as a step
  writer does; \<open>seen\<close> are the steps written before.
\<close>

fun in_order :: "StepRow list \<Rightarrow> ledger_write list \<Rightarrow> bool" where
  "in_order seen [] = True"
| "in_order seen (WStep st # ws) =
     (follows st (filter (\<lambda>x. st_request_id x = st_request_id st) seen) \<and> in_order (st # seen) ws)"
| "in_order seen (w # ws) = in_order seen ws"

context durable_store begin

lemma create_seen:
  assumes "wf s"
  shows "found (get i (snd (create row s)))
      = (if rq_request_id row = i \<and> found (get i s) = None then Some (stored row) else found (get i s))"
    "found (steps i (snd (create row s)))
      = (if rq_request_id row = i \<and> found (steps i s) = None then Some [] else found (steps i s))"
  using create_fresh[OF assms, of row i] create_dup[OF assms, of row]
  by (cases rule: found_split[OF assms, of "rq_request_id row"]; auto)+

lemma update_seen:
  assumes "wf s"
  shows "found (get i (snd (update k p s)))
      = (if k = i then map_option (\<lambda>r. stored (patch_row p r)) (found (get i s)) else found (get i s))"
    "found (steps i (snd (update k p s))) = found (steps i s)"
  using update_known[OF assms, of k _ p i] update_unknown[OF assms, of k _ p]
  by (cases rule: found_split[OF assms, of k]; auto)+

lemma append_seen:
  assumes "wf s" "\<And>xs. steps (st_request_id st) s = Inr xs \<Longrightarrow> follows st xs"
  shows "found (get i (snd (append_step st s))) = found (get i s)"
    "found (steps i (snd (append_step st s)))
      = (if st_request_id st = i then map_option (\<lambda>l. l @ [st]) (found (steps i s)) else found (steps i s))"
  using append_known[OF assms(1) _ assms(2), where j = i] append_unknown[OF assms(1), of st] assms(2)
  by (cases rule: found_split[OF assms(1), of "st_request_id st"]; auto)+

text \<open>
  A store is the history of its writes: the readers see the row of the writes as it is stored, and the
  steps in order. \<open>seen\<close> are the steps written before.
\<close>

lemma writes_seen:
  assumes "wf s" "in_order seen ws"
    and "\<And>j xs. found (steps j s) = Some xs \<Longrightarrow> set xs \<subseteq> {x \<in> set seen. st_request_id x = j}"
    and "found (get i s) = map_option stored r"
  shows "found (get i (run_writes create update append_step ws s)) = map_option stored (row_after i ws r)
    \<and> found (steps i (run_writes create update append_step ws s)) = steps_after i ws (found (steps i s))"
  using assms
proof (induction ws arbitrary: s seen r)
  case (Cons w ws)
  note ok = wf_keep[OF Cons.prems(1)]
  show ?case
  proof (cases w)
    case (WCreate row)
    let ?r = "if rq_request_id row = i \<and> r = None then Some row else r"
    have "found (get i (snd (create row s))) = map_option stored ?r"
      using Cons.prems(4) by (simp add: create_seen(1)[OF Cons.prems(1)])
    moreover have "set xs \<subseteq> {x \<in> set seen. st_request_id x = j}" if "found (steps j (snd (create row s))) = Some xs" for j xs
      using that Cons.prems(3)[of j xs] by (auto simp: create_seen(2)[OF Cons.prems(1)] split: if_splits)
    moreover have "in_order seen ws" using Cons.prems(2) by (simp add: WCreate)
    ultimately show ?thesis
      using Cons.IH[of "snd (create row s)" seen ?r] ok by (simp add: WCreate create_seen(2)[OF Cons.prems(1)])
  next
    case (WUpdate k p)
    let ?r = "if k = i then map_option (patch_row p) r else r"
    have "found (get i (snd (update k p s))) = map_option stored ?r"
      using Cons.prems(4) by (cases r) (auto simp: update_seen(1)[OF Cons.prems(1)] stored_patch)
    moreover have "in_order seen ws" using Cons.prems(2) by (simp add: WUpdate)
    ultimately show ?thesis
      using Cons.IH[of "snd (update k p s)" seen ?r] ok Cons.prems(3)
      by (simp add: WUpdate update_seen(2)[OF Cons.prems(1)])
  next
    case (WStep x)
    have fol: "follows x xs" if "steps (st_request_id x) s = Inr xs" for xs
      using Cons.prems(2) Cons.prems(3)[of "st_request_id x" xs] that by (auto simp: WStep follows_def)
    note se = append_seen[OF Cons.prems(1) fol]
    have "set xs \<subseteq> {y \<in> set (x # seen). st_request_id y = j}" if "found (steps j (snd (append_step x s))) = Some xs" for j xs
    proof -
      from that obtain ys where "found (steps j s) = Some ys" "set xs \<subseteq> set ys \<union> (if st_request_id x = j then {x} else {})"
        by (auto simp: se(2) split: if_splits)
      with Cons.prems(3)[of j ys] show ?thesis by (auto split: if_splits)
    qed
    moreover have "in_order (x # seen) ws" using Cons.prems(2) by (simp add: WStep)
    moreover have "found (get i (snd (append_step x s))) = map_option stored r" using Cons.prems(4) by (simp add: se(1))
    ultimately show ?thesis
      using Cons.IH[of "snd (append_step x s)" "x # seen" r] ok by (simp add: WStep se(2))
  qed
qed simp

end

text \<open>The memory store keeps rows as they are: its contract gives this one.\<close>

sublocale ledger_store \<subseteq> durable: durable_store create update append_step get steps id "\<lambda>_. True"
  using create_fresh create_dup update_known update_unknown append_known append_unknown steps_iff_get get_error
  by unfold_locales auto

section \<open>The SQL stores meet the interface\<close>

text \<open>What comes back of a row: its times, cut to milliseconds.\<close>

definition milli_row :: "RequestRow \<Rightarrow> RequestRow" where
  "milli_row r = r\<lparr>rq_created_at := milli_time (unix_milli (rq_created_at r)),
     rq_updated_at := milli_time (unix_milli (rq_updated_at r))\<rparr>"

text \<open>The foreign key, and a driver that executes every statement.\<close>

definition linked :: "tables \<Rightarrow> bool" where
  "linked db \<longleftrightarrow> (\<forall>c \<in> set (tb_steps db). request_columns_of (sc_request_id c) db \<noteq> None)"

definition ready :: "goerr \<Rightarrow> goerr \<Rightarrow> driver" where
  "ready unique foreign = \<lparr>dr_query = None, dr_exec = None, dr_unique = unique, dr_foreign = foreign\<rparr>"

lemma ready_simps [simp]:
  "dr_query (ready u f) = None" "dr_exec (ready u f) = None"
  "dr_unique (ready u f) = u" "dr_foreign (ready u f) = f"
  by (simp_all add: ready_def)

lemma column_doc_simps [simp]:
  "column_doc Null = None" "column_doc (Text d) = d" "column_doc (nullIfEmpty d) = d"
  by (simp_all add: column_doc_def nullIfEmpty_def)

lemma scan_values [simp]: "scan_request (request_values dl row) = milli_row row"
  by (cases dl) (simp_all add: scan_request_def request_values_def milli_row_def)

lemma scan_update [simp]:
  "scan_request (update_columns (patch_row p (scan_request c)) c) = milli_row (patch_row p (scan_request c))"
  by (simp add: scan_request_def update_columns_def milli_row_def patch_row_def)

lemma scan_step_values [simp]: "scan_step (step_values dl st) = st"
  by (cases dl) (simp_all add: scan_step_def step_values_def)

lemma values_keys [simp]:
  "rc_request_id (request_values dl row) = rq_request_id row"
  "rc_request_id (update_columns r c) = rc_request_id c"
  "sc_request_id (step_values dl st) = st_request_id st"
  "sc_step_index (step_values dl st) = st_step_index st"
  by (simp_all add: request_values_def update_columns_def step_values_def Let_def)

lemma find_update:
  assumes "\<And>c. rc_request_id (f c) = rc_request_id c"
  shows "find (\<lambda>c. rc_request_id c = j) (map (\<lambda>c. if rc_request_id c = i then f c else c) cs)
    = map_option (\<lambda>c. if j = i then f c else c) (find (\<lambda>c. rc_request_id c = j) cs)"
  using assms by (induction cs) auto

lemma find_append:
  "find P (xs @ [x]) = (case find P xs of None \<Rightarrow> if P x then Some x else None | Some y \<Rightarrow> Some y)"
  by (induction xs) auto

lemma sort_key_last:
  assumes "\<And>x. x \<in> set xs \<Longrightarrow> f x < f y"
  shows "sort_key f (xs @ [y]) = sort_key f xs @ [y]"
proof -
  have "insort_key f x (zs @ [y]) = insort_key f x zs @ [y]" if "f x < f y" for x zs
    using that by (induction zs) auto
  with assms show ?thesis by (induction xs) auto
qed

lemma sql_get_ready:
  "sql_GetRequest (ready u f) i db
     = (case request_columns_of i db of None \<Rightarrow> Inl ErrNotFound | Some c \<Rightarrow> Inr (scan_request c))"
  by (simp add: sql_GetRequest_def)

lemma no_orphans:
  assumes "linked db" "request_columns_of i db = None"
  shows "step_columns_of i db = []"
proof -
  have "filter (\<lambda>c. sc_request_id c = i) (tb_steps db) = []"
    using assms by (auto simp: linked_def filter_empty_conv)
  then show ?thesis by (simp add: step_columns_of_def)
qed

lemma sql_steps_ready:
  assumes "linked db"
  shows "sql_ListSteps (ready u f) i db
    = (case request_columns_of i db of None \<Rightarrow> Inl ErrNotFound
       | Some _ \<Rightarrow> Inr (map scan_step (step_columns_of i db)))"
  using no_orphans[OF assms, of i]
  by (cases "request_columns_of i db") (simp_all add: sql_ListSteps_def sql_GetRequest_def Let_def)

lemma created_columns:
  "request_columns_of i (db\<lparr>tb_requests := tb_requests db @ [c]\<rparr>)
     = (case request_columns_of i db of None \<Rightarrow> if rc_request_id c = i then Some c else None | Some y \<Rightarrow> Some y)"
  by (simp add: request_columns_of_def find_append)

lemma updated_columns:
  "request_columns_of j (db\<lparr>tb_requests :=
       map (\<lambda>c. if rc_request_id c = i then update_columns r c else c) (tb_requests db)\<rparr>)
     = map_option (\<lambda>c. if j = i then update_columns r c else c) (request_columns_of j db)"
  by (simp add: request_columns_of_def find_update)

lemma step_columns_other:
  "step_columns_of i (db\<lparr>tb_requests := cs\<rparr>) = step_columns_of i db"
  "request_columns_of i (db\<lparr>tb_steps := ss\<rparr>) = request_columns_of i db"
  by (simp_all add: step_columns_of_def request_columns_of_def)

lemma step_columns_append:
  assumes "\<And>c. c \<in> set (tb_steps db) \<Longrightarrow> sc_request_id c = sc_request_id x \<Longrightarrow> sc_step_index c < sc_step_index x"
  shows "step_columns_of i (db\<lparr>tb_steps := tb_steps db @ [x]\<rparr>)
    = step_columns_of i db @ (if sc_request_id x = i then [x] else [])"
proof (cases "sc_request_id x = i")
  case True
  have "sort_key sc_step_index (filter (\<lambda>c. sc_request_id c = i) (tb_steps db) @ [x])
      = sort_key sc_step_index (filter (\<lambda>c. sc_request_id c = i) (tb_steps db)) @ [x]"
    using assms True by (intro sort_key_last) auto
  with True show ?thesis by (simp add: step_columns_of_def)
qed (simp add: step_columns_of_def)

lemma step_keys:
  "sc_request_id c = st_request_id (scan_step c)" "sc_step_index c = st_step_index (scan_step c)"
  by (simp_all add: scan_step_def)

text \<open>A step that follows the others gets a new key and comes last.\<close>

lemma append_ready:
  assumes "request_columns_of (st_request_id st) db = Some c"
    and "follows st (map scan_step (step_columns_of (st_request_id st) db))"
  shows "sql_AppendStep dl (ready u f) st db = (None, db\<lparr>tb_steps := tb_steps db @ [step_values dl st]\<rparr>)"
    and "map scan_step (step_columns_of j (db\<lparr>tb_steps := tb_steps db @ [step_values dl st]\<rparr>))
      = map scan_step (step_columns_of j db) @ (if st_request_id st = j then [st] else [])"
proof -
  have lt: "sc_step_index c < st_step_index st" if "c \<in> set (tb_steps db)" "sc_request_id c = st_request_id st" for c
    using assms(2) that by (auto simp: follows_def step_columns_of_def step_keys(2))
  then have "(st_request_id st, st_step_index st) \<notin> set (map (\<lambda>c. (sc_request_id c, sc_step_index c)) (tb_steps db))"
    by fastforce
  with assms(1) show "sql_AppendStep dl (ready u f) st db = (None, db\<lparr>tb_steps := tb_steps db @ [step_values dl st]\<rparr>)"
    by (simp add: sql_AppendStep_def)
  show "map scan_step (step_columns_of j (db\<lparr>tb_steps := tb_steps db @ [step_values dl st]\<rparr>))
      = map scan_step (step_columns_of j db) @ (if st_request_id st = j then [st] else [])"
    using step_columns_append[of db "step_values dl st" j] lt by simp
qed

lemma create_ready:
  "sql_CreateRequest dl (ready u f) row db
     = (if request_columns_of (rq_request_id row) db \<noteq> None then (Some u, db)
        else (None, db\<lparr>tb_requests := tb_requests db @ [request_values dl row]\<rparr>))"
  by (simp add: sql_CreateRequest_def)

lemma update_ready:
  "sql_UpdateRequest (ready u f) i p db
     = (case request_columns_of i db of None \<Rightarrow> (Some ErrNotFound, db)
        | Some c \<Rightarrow> (None, db\<lparr>tb_requests :=
            map (\<lambda>c'. if rc_request_id c' = i then update_columns (patch_row p (scan_request c)) c' else c')
              (tb_requests db)\<rparr>))"
  by (simp add: sql_UpdateRequest_def sql_get_ready split: option.split)

lemma linked_keep:
  assumes "linked db"
  shows "linked (snd (sql_CreateRequest dl (ready u f) row db))"
    "linked (snd (sql_UpdateRequest (ready u f) i p db))"
    "linked (snd (sql_AppendStep dl (ready u f) st db))"
  using assms
  by (auto simp: linked_def create_ready update_ready created_columns updated_columns step_columns_other
        sql_AppendStep_def split: option.splits)

interpretation sql: durable_store "sql_CreateRequest dl (ready u f)" "sql_UpdateRequest (ready u f)"
    "sql_AppendStep dl (ready u f)" "sql_GetRequest (ready u f)" "sql_ListSteps (ready u f)" milli_row linked
  for dl u f
proof (unfold_locales, goal_cases)
  case (1 p r)
  show ?case by (cases r) (simp add: milli_row_def patch_row_def split: option.split)
next
  case (2 s row i p st)
  then show ?case by (simp add: linked_keep)
next
  case (3 s row i)
  from linked_keep(1)[OF 3(1), of dl u f row] 3 show ?case
    by (auto simp: create_ready sql_get_ready sql_steps_ready created_columns step_columns_other no_orphans
        split: option.splits)
next
  case (4 s row r)
  then show ?case by (auto simp: create_ready sql_get_ready split: option.splits)
next
  case (5 s i r p j)
  from linked_keep(2)[OF 5(1), of u f i p] 5 show ?case
    by (auto simp: update_ready sql_get_ready sql_steps_ready updated_columns step_columns_other
        split: option.splits)
next
  case (6 s i e p)
  then show ?case by (auto simp: update_ready sql_get_ready split: option.splits)
next
  case (7 s st xs j)
  from 7(2,3) obtain c where c: "request_columns_of (st_request_id st) s = Some c"
    "follows st (map scan_step (step_columns_of (st_request_id st) s))"
    by (auto simp: sql_steps_ready[OF 7(1)] split: option.splits)
  from linked_keep(3)[OF 7(1), of dl u f st] 7 c show ?case
    by (auto simp: append_ready[OF c] sql_get_ready sql_steps_ready step_columns_other split: option.splits)
next
  case (8 s st e)
  then show ?case by (auto simp: sql_AppendStep_def sql_steps_ready split: option.splits)
next
  case (9 s i)
  then show ?case by (auto simp: sql_get_ready sql_steps_ready split: option.splits)
next
  case (10 s i e)
  then show ?case by (auto simp: sql_get_ready split: option.splits)
qed

section \<open>Properties\<close>


section \<open>Witness\<close>

definition demo_writes :: "ledger_write list" where
  "demo_writes =
     (let row = \<lparr>rq_request_id = ''a'', rq_trace_id = [], rq_request_type = [], rq_tenant_id = ''t1'',
                 rq_task_type = [], rq_priority = [], rq_pipeline_ref = [], rq_input_json = Some (VMap []),
                 rq_context_json = Some (VMap []), rq_ai_request_json = None, rq_policy_snapshot = None,
                 rq_status = ''running'', rq_selected_backend = [], rq_route_reason = [],
                 rq_created_at = 62135596800000000001, rq_updated_at = 62135596800000000001\<rparr>;
          step = (\<lambda>n. step_row \<lparr>sw_request_id = ''a'', sw_tenant_id = ''t1'', sw_next = n\<rparr> ''route'' [] [] None None 3)
      in [WCreate row, WStep (step 0), WStep (step 1),
          WUpdate ''a'' \<lparr>pt_status = Some ''success'', pt_selected_backend = None, pt_route_reason = None,
                         pt_policy_snapshot = None, pt_updated_at = 0\<rparr>])"


end
