(* ===== verification/Cli.thy ===== *)
theory Cli
  imports Wiring Sql_Store
begin

text \<open>
  The commands of \<open>cmd/infercore/main.go\<close>: the request ids they take, the ledger they open, and what
  \<open>trace\<close>, \<open>replay\<close>, \<open>ledger export-eval\<close> and \<open>eval run\<close> print. Files, databases, the clock and the
  environment are arguments; flag parsing is left to the library and the values of the flags are
  arguments too. The lemmas: what a printed trace needs, and that an exported dataset posts the
  requests that were served.
\<close>

section \<open>Request ids\<close>

text \<open>The limit of a \<open>bufio.Scanner\<close> without a buffer of its own.\<close>

definition token_limit :: nat where
  "token_limit = 65536"

definition id_lines :: "string list \<Rightarrow> string list" where
  "id_lines ls = filter (\<lambda>l. l \<noteq> [] \<and> \<not> starts_with ''#'' l) (map trim_space ls)"

text \<open>A file is its bytes and the error a read ends with, or the error of opening it.\<close>

type_synonym files = "string \<Rightarrow> goerr + string \<times> goerr option"

definition read_ids :: "files \<Rightarrow> string \<Rightarrow> string list \<Rightarrow> goerr + string list" where
  "read_ids file idsFile args =
     (if trim_space idsFile = [] then Inr args
      else case file idsFile of
        Inl e \<Rightarrow> Inl e
      | Inr (content, err) \<Rightarrow>
          (case scan_lines token_limit content err of
             (_, Some e) \<Rightarrow> Inl e
           | (ls, None) \<Rightarrow> Inr (id_lines ls @ args)))"

section \<open>The ledger of a command\<close>

datatype open_store = OpenMemory memoryStore | OpenSql driver tables

text \<open>A new process has a new memory store; \<open>connect\<close> opens the database of a SQL store.\<close>

definition open_ledger :: "(store_kind \<Rightarrow> goerr + driver \<times> tables) \<Rightarrow> Config \<Rightarrow> goerr + open_store" where
  "open_ledger connect cfg =
     (case NewFromConfig cfg of
        Inl e \<Rightarrow> Inl e
      | Inr None \<Rightarrow> Inl (ErrText ''ledger is disabled; set ledger.enabled=true in config'')
      | Inr (Some StoreMemory) \<Rightarrow> Inr (OpenMemory NewMemoryStore)
      | Inr (Some k) \<Rightarrow> (case connect k of Inl e \<Rightarrow> Inl e | Inr (dr, db) \<Rightarrow> Inr (OpenSql dr db)))"

fun store_get :: "open_store \<Rightarrow> string \<Rightarrow> goerr + RequestRow" where
  "store_get (OpenMemory m) i = GetRequest i m"
| "store_get (OpenSql dr db) i = sql_GetRequest dr i db"

text \<open>
  A byte slice of a row: nil, or the document it holds (\<open>None\<close> when it is empty but not nil). The
  memory store copies an empty slice to nil, a SQL store reads an empty text as an empty slice.
\<close>

type_synonym bytes = "json option option"

definition copied :: "json option \<Rightarrow> bytes" where
  "copied d = map_option Some d"

fun request_docs :: "open_store \<Rightarrow> string \<Rightarrow> bytes list" where
  "request_docs (OpenMemory m) i =
     (case map_of (ms_requests m) i of None \<Rightarrow> []
      | Some r \<Rightarrow> map copied [rq_input_json r, rq_context_json r, rq_ai_request_json r, rq_policy_snapshot r])"
| "request_docs (OpenSql dr db) i =
     (case request_columns_of i db of None \<Rightarrow> []
      | Some c \<Rightarrow> map column_bytes
          [rc_input_json c, rc_context_json c, rc_ai_request_json c, rc_policy_snapshot_json c])"

fun store_steps :: "open_store \<Rightarrow> string \<Rightarrow> goerr + (StepRow \<times> bytes list) list" where
  "store_steps (OpenMemory m) i =
     map_sum id (map (\<lambda>s. (s, map copied [st_input_json s, st_output_json s, st_metadata_json s])))
       (ListSteps i m)"
| "store_steps (OpenSql dr db) i =
     map_sum id (\<lambda>_. map (\<lambda>c. (scan_step c, map column_bytes
         [sc_input_json c, sc_output_json c, sc_metadata_json c])) (step_columns_of i db))
       (sql_ListSteps dr i db)"

section \<open>trace\<close>

text \<open>
  \<open>json.RawMessage\<close> in a document: nil is \<open>null\<close>, and a slice that is not JSON, such as the empty one,
  fails the encoder.
\<close>

definition raw_message :: "bytes \<Rightarrow> goerr + json" where
  "raw_message b =
     (case b of
        None \<Rightarrow> Inr VNil
      | Some None \<Rightarrow> Inl (ErrText ''json: error calling MarshalJSON for type json.RawMessage: unexpected end of JSON input'')
      | Some (Some j) \<Rightarrow> Inr j)"

fun raw_messages :: "bytes list \<Rightarrow> goerr + json list" where
  "raw_messages [] = Inr []"
| "raw_messages (b # bs) =
     (case raw_message b of
        Inl e \<Rightarrow> Inl e
      | Inr j \<Rightarrow> (case raw_messages bs of Inl e \<Rightarrow> Inl e | Inr js \<Rightarrow> Inr (j # js)))"

definition step_object :: "StepRow \<Rightarrow> json list \<Rightarrow> json" where
  "step_object s docs = VMap
     [(''request_id'', VStr (st_request_id s)), (''step_index'', VInt (st_step_index s)),
      (''step_type'', VStr (st_step_type s)), (''input_json'', docs ! 0), (''output_json'', docs ! 1),
      (''backend'', VStr (st_backend s)), (''status'', VStr (st_status s)), (''error'', VStr (st_error s)),
      (''latency_ms'', VInt (st_latency_ms s)), (''metadata_json'', docs ! 2)]"

fun stepsToJSON :: "(StepRow \<times> bytes list) list \<Rightarrow> goerr + json list" where
  "stepsToJSON [] = Inr []"
| "stepsToJSON ((s, bs) # ss) =
     (case raw_messages bs of
        Inl e \<Rightarrow> Inl e
      | Inr docs \<Rightarrow> (case stepsToJSON ss of Inl e \<Rightarrow> Inl e | Inr js \<Rightarrow> Inr (step_object s docs # js)))"

definition trace_object :: "(gotime \<Rightarrow> string) \<Rightarrow> RequestRow \<Rightarrow> json list \<Rightarrow> json list \<Rightarrow> json" where
  "trace_object show_time row docs steps = VMap
     [(''request'', VMap
        [(''request_id'', VStr (rq_request_id row)), (''trace_id'', VStr (rq_trace_id row)),
         (''request_type'', VStr (rq_request_type row)), (''tenant_id'', VStr (rq_tenant_id row)),
         (''task_type'', VStr (rq_task_type row)), (''priority'', VStr (rq_priority row)),
         (''pipeline_ref'', VStr (rq_pipeline_ref row)), (''input_json'', docs ! 0),
         (''context_json'', docs ! 1), (''ai_request_json'', docs ! 2), (''policy_snapshot'', docs ! 3),
         (''status'', VStr (rq_status row)), (''selected_backend'', VStr (rq_selected_backend row)),
         (''route_reason'', VStr (rq_route_reason row)),
         (''created_at'', VStr (show_time (rq_created_at row))),
         (''updated_at'', VStr (show_time (rq_updated_at row)))]),
      (''steps'', VList steps)]"

definition traceCmd ::
  "(gotime \<Rightarrow> string) \<Rightarrow> goerr + Config \<Rightarrow> (store_kind \<Rightarrow> goerr + driver \<times> tables) \<Rightarrow> string \<Rightarrow> goerr + json" where
  "traceCmd show_time load connect i =
     (case load of
        Inl e \<Rightarrow> Inl e
      | Inr cfg \<Rightarrow>
          (case open_ledger connect cfg of
             Inl e \<Rightarrow> Inl e
           | Inr st \<Rightarrow>
               (case store_get st i of
                  Inl e \<Rightarrow> Inl e
                | Inr row \<Rightarrow>
                    (case store_steps st i of
                       Inl e \<Rightarrow> Inl e
                     | Inr steps \<Rightarrow>
                         (case (raw_messages (request_docs st i), stepsToJSON steps) of
                            (Inr docs, Inr ss) \<Rightarrow> Inr (trace_object show_time row docs ss)
                          | (Inl e, _) \<Rightarrow> Inl e
                          | (Inr _, Inl e) \<Rightarrow> Inl e)))))"

section \<open>replay\<close>

definition buildAdapterMap :: "'x net \<Rightarrow> 'x aws \<Rightarrow> Config \<Rightarrow> 'x adapters" where
  "buildAdapterMap net aws cfg =
     foldl (\<lambda>m b. case NewBackend b of None \<Rightarrow> m | Some k \<Rightarrow> m(b_name b \<mapsto> Invoke net aws k b))
       (\<lambda>_. None) (backends cfg)"

text \<open>What \<open>replay\<close> wires together; \<open>now\<close> is the second the policy engine reads.\<close>

definition replay_deps :: "'x outside \<Rightarrow> int \<Rightarrow> Config \<Rightarrow> (BasicEngine \<times> 'x) Dependencies" where
  "replay_deps os now cfg =
     NewDependenciesFromConfig now None cfg (buildAdapterMap (os_net os) (os_aws os) cfg)
       (map (\<lambda>(n, a). (n, kb_retrieve (os_net os) (os_platform os) (os_budget os) a))
         (FromConfig (os_walk os) cfg))"

definition parse_mode :: "string \<Rightarrow> Mode option" where
  "parse_mode mode =
     (let m = to_lower (trim_space mode)
      in if m = ''exact'' then Some ModeExact else if m = ''current'' then Some ModeCurrent else None)"

datatype replay_output = OneResponse AIResponse | ResponseLines "(string \<times> (goerr + AIResponse)) list"

text \<open>
  The batch: one line per id, with its response or its error. \<open>clock n\<close> is the time of the \<open>n\<close>-th
  replay in milliseconds, \<open>deps n\<close> the dependencies as they find the clock then.
\<close>

fun replay_lines ::
  "(nat \<Rightarrow> int) \<Rightarrow> Config \<Rightarrow> (string \<Rightarrow> goerr + RequestRow) \<Rightarrow> Mode \<Rightarrow> (nat \<Rightarrow> 's Dependencies)
     \<Rightarrow> nat \<Rightarrow> string list \<Rightarrow> 's \<Rightarrow> (string \<times> (goerr + AIResponse)) list \<times> 's" where
  "replay_lines clock cfg get m deps n [] s = ([], s)"
| "replay_lines clock cfg get m deps n (i # ids) s =
     (let (r, s1) = Replay (clock n) cfg (Some get) i m (deps n) s;
          (ls, s2) = replay_lines clock cfg get m deps (Suc n) ids s1
      in ((i, r) # ls, s2))"

definition replayCmd ::
  "(nat \<Rightarrow> int) \<Rightarrow> goerr + Config \<Rightarrow> (store_kind \<Rightarrow> goerr + driver \<times> tables)
     \<Rightarrow> (nat \<Rightarrow> Config \<Rightarrow> 's Dependencies) \<Rightarrow> files \<Rightarrow> string \<Rightarrow> string \<Rightarrow> string list
     \<Rightarrow> 's \<Rightarrow> (goerr + replay_output) \<times> 's" where
  "replayCmd clock load connect deps file mode idsFile args s =
     (case read_ids file idsFile args of
        Inl e \<Rightarrow> (Inl e, s)
      | Inr ids \<Rightarrow>
          if ids = [] then (Inl (ErrText ''provide at least one request_id or use --ids-file''), s)
          else case load of
            Inl e \<Rightarrow> (Inl e, s)
          | Inr cfg \<Rightarrow>
              (case open_ledger connect cfg of
                 Inl e \<Rightarrow> (Inl e, s)
               | Inr st \<Rightarrow>
                   (case parse_mode mode of
                      None \<Rightarrow> (Inl (ErrText ''mode must be exact or current''), s)
                    | Some m \<Rightarrow>
                        if length ids = 1 \<and> idsFile = []
                        then (case Replay (clock 0) cfg (Some (store_get st)) (hd ids) m (deps 0 cfg) s of
                                (Inl e, s1) \<Rightarrow> (Inl e, s1)
                              | (Inr a, s1) \<Rightarrow> (Inr (OneResponse a), s1))
                        else (case replay_lines clock cfg (store_get st) m (\<lambda>n. deps n cfg) 0 ids s of
                                (ls, s1) \<Rightarrow> (Inr (ResponseLines ls), s1)))))"

section \<open>ledger export-eval\<close>

text \<open>\<open>json.Marshal\<close> of an \<open>Item\<close>, by its field tags.\<close>

definition item_json :: "Item \<Rightarrow> json" where
  "item_json it = VMap
     ([(''tenant_id'', VStr (it_tenant_id it)), (''task_type'', VStr (it_task_type it))]
      @ omit_empty ''priority'' (it_priority it) @ omit_empty ''request_type'' (it_request_type it)
      @ omit_empty ''pipeline_ref'' (it_pipeline_ref it)
      @ (case it_context it of None \<Rightarrow> [] | Some c \<Rightarrow> if c = [] then [] else [(''context'', marshal_any (VMap c))])
      @ [(''input'', marshal_map (it_input it)), (''options'', marshal_map (it_options it))]
      @ omit_empty ''expected_backend'' (it_expected_backend it))"

fun export_loop :: "(string \<Rightarrow> goerr + RequestRow) \<Rightarrow> string list \<Rightarrow> Item list \<times> goerr list" where
  "export_loop get [] = ([], [])"
| "export_loop get (i # ids) =
     (let (items, errs) = export_loop get ids
      in case get i of
           Inl e \<Rightarrow> (items, ErrWrap (i @ '': '') e # errs)
         | Inr row \<Rightarrow>
             (case ItemFromRequestRow row of Inl e \<Rightarrow> (items, e # errs) | Inr it \<Rightarrow> (it # items, errs)))"

text \<open>The warnings on the standard error, and the dataset; \<open>create\<close> makes the output file.\<close>

definition exportEval ::
  "goerr + Config \<Rightarrow> (store_kind \<Rightarrow> goerr + driver \<times> tables) \<Rightarrow> files \<Rightarrow> (string \<Rightarrow> goerr option)
     \<Rightarrow> string \<Rightarrow> string \<Rightarrow> string list \<Rightarrow> goerr list \<times> (goerr + json)" where
  "exportEval load connect file create idsFile output args =
     (case load of
        Inl e \<Rightarrow> ([], Inl e)
      | Inr cfg \<Rightarrow>
          (case open_ledger connect cfg of
             Inl e \<Rightarrow> ([], Inl e)
           | Inr st \<Rightarrow>
               (case read_ids file idsFile args of
                  Inl e \<Rightarrow> ([], Inl e)
                | Inr ids \<Rightarrow>
                    if ids = []
                    then ([], Inl (ErrText ''provide request_id arguments or --ids-file with one id per line''))
                    else (let (items, errs) = export_loop (store_get st) ids
                          in (errs,
                              if items = []
                              then Inl (ErrText (''no eval items exported ('' @ show_int (int (length errs))
                                          @ '' conversion/load errors)''))
                              else case (if trim_space output = [] then None else create output) of
                                Some e \<Rightarrow> Inl e
                              | None \<Rightarrow> Inr (VList (map item_json items)))))))"

section \<open>eval run and serve\<close>

definition evalCmd ::
  "'x net \<Rightarrow> duration \<Rightarrow> (string \<Rightarrow> string) \<Rightarrow> (string \<Rightarrow> goerr + json option) \<Rightarrow> string \<Rightarrow> string
     \<Rightarrow> string \<Rightarrow> string \<Rightarrow> 'x \<Rightarrow> (goerr + string list) \<times> 'x" where
  "evalCmd net budget getenv read dataset baseURL pipeline apiKey x =
     (if trim_space dataset = [] then (Inl (ErrText ''--dataset is required''), x)
      else (let key = trim_space apiKey
            in eval_run net budget (read dataset) baseURL pipeline
                 (if key = [] then trim_space (getenv ''INFERCORE_API_KEY'') else key) x))"

definition envOr :: "(string \<Rightarrow> string) \<Rightarrow> string \<Rightarrow> string \<Rightarrow> string" where
  "envOr getenv key dflt = (if trim_space (getenv key) \<noteq> [] then trim_space (getenv key) else dflt)"

text \<open>The \<open>http.Server\<close> of \<open>serve\<close>.\<close>

record http_server =
  hs_addr :: string
  hs_read_header_timeout :: duration
  hs_read_timeout :: duration
  hs_write_timeout :: duration
  hs_idle_timeout :: duration

definition serveCmd :: "Config \<Rightarrow> http_server" where
  "serveCmd cfg =
     (let (readTO, writeTO, idleTO) = HTTPLayerTimeouts cfg
      in \<lparr>hs_addr = ServerConfig.host (server cfg) @ '':'' @ show_int (ServerConfig.port (server cfg)),
          hs_read_header_timeout = 5 * second, hs_read_timeout = readTO, hs_write_timeout = writeTO,
          hs_idle_timeout = idleTO\<rparr>)"

section \<open>The adapters are those of the server\<close>

lemma buildAdapterMap_server: "buildAdapterMap net aws cfg = server_adapters net aws cfg"
proof -
  have "foldl (\<lambda>m b. case NewBackend b of None \<Rightarrow> m | Some k \<Rightarrow> m(b_name b \<mapsto> Invoke net aws k b)) m bs
      = adapters_loop net aws bs m" for m bs
    by (induction bs arbitrary: m) (auto split: option.split)
  then show ?thesis by (simp add: buildAdapterMap_def server_adapters_def)
qed

section \<open>Batches\<close>

lemma replay_lines_ids: "map fst (fst (replay_lines clock cfg get m deps n ids s)) = ids"
  by (induction ids arbitrary: n s) (auto simp: split_beta Let_def)

section \<open>A dataset written and read\<close>

lemma item_fields:
  assumes "item_json it = VMap m"
  shows "obj_get (Some m) ''tenant_id'' = VStr (it_tenant_id it)"
    "obj_get (Some m) ''task_type'' = VStr (it_task_type it)"
    "obj_get (Some m) ''priority'' = (if it_priority it = [] then VNil else VStr (it_priority it))"
    "obj_get (Some m) ''request_type'' = (if it_request_type it = [] then VNil else VStr (it_request_type it))"
    "obj_get (Some m) ''pipeline_ref'' = (if it_pipeline_ref it = [] then VNil else VStr (it_pipeline_ref it))"
    "obj_get (Some m) ''expected_backend'' = (if it_expected_backend it = [] then VNil else VStr (it_expected_backend it))"
    "obj_get (Some m) ''input'' = marshal_map (it_input it)"
    "obj_get (Some m) ''options'' = marshal_map (it_options it)"
    "obj_get (Some m) ''context'' = (if it_context it = Some [] then VNil else marshal_map (it_context it))"
proof -
  let ?c = "case it_context it of None \<Rightarrow> [] | Some c \<Rightarrow> if c = [] then [] else [(''context'', marshal_any (VMap c))]"
  have m: "m = [(''tenant_id'', VStr (it_tenant_id it)), (''task_type'', VStr (it_task_type it))]
      @ omit_empty ''priority'' (it_priority it) @ omit_empty ''request_type'' (it_request_type it)
      @ omit_empty ''pipeline_ref'' (it_pipeline_ref it) @ ?c
      @ [(''input'', marshal_map (it_input it)), (''options'', marshal_map (it_options it))]
      @ omit_empty ''expected_backend'' (it_expected_backend it)"
    using assms by (simp add: item_json_def)
  have c: "map_of ?c k = (if k = ''context'' \<and> it_context it \<noteq> Some []
      then map_option (\<lambda>c. marshal_any (VMap c)) (it_context it) else None)" for k
    by (cases "it_context it") auto
  show "obj_get (Some m) ''tenant_id'' = VStr (it_tenant_id it)"
    "obj_get (Some m) ''task_type'' = VStr (it_task_type it)"
    by (simp_all add: obj_get_def m)
  show "obj_get (Some m) ''priority'' = (if it_priority it = [] then VNil else VStr (it_priority it))"
    "obj_get (Some m) ''request_type'' = (if it_request_type it = [] then VNil else VStr (it_request_type it))"
    "obj_get (Some m) ''pipeline_ref'' = (if it_pipeline_ref it = [] then VNil else VStr (it_pipeline_ref it))"
    "obj_get (Some m) ''expected_backend'' = (if it_expected_backend it = [] then VNil else VStr (it_expected_backend it))"
    "obj_get (Some m) ''input'' = marshal_map (it_input it)"
    "obj_get (Some m) ''options'' = marshal_map (it_options it)"
    by (simp_all add: obj_get_def m map_of_append map_add_def map_of_omit c)
  show "obj_get (Some m) ''context'' = (if it_context it = Some [] then VNil else marshal_map (it_context it))"
    by (cases "it_context it") (simp_all add: obj_get_def m map_of_append map_add_def map_of_omit c marshal_map_def)
qed

text \<open>An item as it comes back: an empty context is left out, the numbers of the options are floats.\<close>

lemma item_read_back:
  assumes "json_stable (it_context it)" "json_stable (it_input it)" "it_options it = Some op"
  shows "item_of_json (item_json it) = Some (it
    \<lparr>it_context := (if it_context it = Some [] then None else it_context it),
     it_options := Some (map (map_prod id decode_any) (map (map_prod id marshal_any) op))\<rparr>)"
proof -
  obtain m where m: "item_json it = VMap m" by (simp add: item_json_def)
  note f = item_fields[OF m]
  have "field_any_obj m ''context'' = Some (if it_context it = Some [] then None else it_context it)"
  proof (cases "it_context it = Some []")
    case True
    with f(9) show ?thesis by (simp add: field_any_obj_def field_obj_def)
  next
    case False
    with stable_field[OF assms(1), of m] f(9) show ?thesis by simp
  qed
  moreover have "field_any_obj m ''options'' = Some (Some (map (map_prod id decode_any) (map (map_prod id marshal_any) op)))"
    by (simp add: field_any_obj_def field_obj_def f(8) assms(3) marshal_map_def)
  moreover have "field_string m ''tenant_id'' = Some (it_tenant_id it)" "field_string m ''task_type'' = Some (it_task_type it)"
    "field_string m ''priority'' = Some (it_priority it)" "field_string m ''request_type'' = Some (it_request_type it)"
    "field_string m ''pipeline_ref'' = Some (it_pipeline_ref it)" "field_string m ''expected_backend'' = Some (it_expected_backend it)"
    by (simp_all add: field_string_def f(1-6))
  ultimately show ?thesis
    using stable_field[OF assms(2) f(7)] by (simp add: m item_of_json_def)
qed

definition exportable :: "AIRequest \<Rightarrow> bool" where
  "exportable q \<longleftrightarrow> json_stable (req_context q) \<and> json_stable (req_input q)
     \<and> trim_space (pipeline_ref q) = pipeline_ref q \<and> pipeline_ref q \<noteq> []
     \<and> \<bar>opt_max_tokens (options q)\<bar> < 2 ^ 53"

definition posts :: "string \<Rightarrow> Item \<Rightarrow> AIRequest \<Rightarrow> bool" where
  "posts pipe it q \<longleftrightarrow> (\<exists>r. request_of_json (item_body pipe it) = Some r
     \<and> NormalizeAIRequest r = NormalizeAIRequest (q\<lparr>request_id := []\<rparr>))"

text \<open>\<open>max_tokens\<close> goes through a float and comes back.\<close>

lemma tokens_back:
  assumes "\<bar>n :: int\<bar> < 2 ^ 53"
  shows "marshal_any (decode_any (VInt n)) = VInt n"
proof -
  have "f_of_int n = of_int n" using fl_of_int[OF assms] by (simp add: f_of_int_def)
  moreover have "\<bar>of_int n :: rat\<bar> < 10 ^ 21"
  proof -
    have "\<bar>n\<bar> < 10 ^ 21" using assms by simp
    then have "of_int \<bar>n\<bar> < (of_int (10 ^ 21) :: rat)" by (simp only: of_int_less_iff)
    then show ?thesis by simp
  qed
  ultimately show ?thesis by simp
qed

lemma row_item_posts:
  assumes "exportable q" "rq_ai_request_json row = Some (request_json q)"
  shows "\<exists>it it'. ItemFromRequestRow row = Inr it \<and> item_of_json (item_json it) = Some it' \<and> posts pipe it' q"
proof -
  have st: "json_stable (req_context q)" "json_stable (req_input q)" using assms(1) by (auto simp: exportable_def)
  let ?c = "case req_context q of None \<Rightarrow> None | Some c \<Rightarrow> if c = [] then None else Some c"
  let ?op = "[(''stream'', VBool (opt_stream (options q))), (''max_tokens'', VInt (opt_max_tokens (options q)))]"
  let ?it = "\<lparr>it_tenant_id = tenant_id q, it_task_type = task_type q, it_priority = priority q,
    it_request_type = request_type q, it_pipeline_ref = pipeline_ref q, it_context = ?c, it_input = req_input q,
    it_options = Some ?op, it_expected_backend = rq_selected_backend row\<rparr>"
  let ?it' = "?it\<lparr>it_options := Some (map (map_prod id decode_any) (map (map_prod id marshal_any) ?op))\<rparr>"
  have "request_of_json (request_json q) = Some (q\<lparr>req_context := ?c\<rparr>)"
    using st by (intro request_json_decodes) (auto simp: json_stable_def)
  then have "ItemFromRequestRow row = Inr ?it" by (simp add: ItemFromRequestRow_def assms(2))
  moreover have sc: "json_stable ?c" using st(1) by (auto simp: json_stable_def split: option.splits)
  have ne: "?c \<noteq> Some []" by (auto split: option.splits)
  have "item_of_json (item_json ?it) = Some ?it'"
    using item_read_back[of ?it ?op] sc st(2) ne by simp
  moreover have "posts pipe ?it' q"
  proof -
    have "marshal_map (it_options ?it') = VMap ?op"
      using tokens_back[of "opt_max_tokens (options q)"] assms(1)
      by (simp add: marshal_map_def exportable_def)
    then have "request_of_json (item_body pipe ?it') = Some ((q\<lparr>request_id := []\<rparr>)\<lparr>req_context := ?c\<rparr>)"
      using posted_request[of ?it' "options q" pipe] sc st(2) assms(1)
      by (simp add: item_pipeline_def exportable_def)
    then show ?thesis
      using normalize_empty_context[of "q\<lparr>request_id := []\<rparr>"] by (auto simp: posts_def)
  qed
  ultimately show ?thesis by blast
qed

lemma export_loop_posts:
  assumes "list_all2 (\<lambda>i q. exportable q \<and> (\<exists>row. get i = Inr row \<and> rq_ai_request_json row = Some (request_json q))) ids qs"
  shows "\<exists>items read. export_loop get ids = (items, []) \<and> length items = length ids
    \<and> sequence_opt (map (\<lambda>it. item_of_json (item_json it)) items) = Some read \<and> list_all2 (posts pipe) read qs"
  using assms
proof (induction ids qs rule: list_all2_induct)
  case (Cons i ids q qs)
  then obtain row items read where
    "exportable q" "get i = Inr row" "rq_ai_request_json row = Some (request_json q)"
    "export_loop get ids = (items, [])" "length items = length ids"
    "sequence_opt (map (\<lambda>it. item_of_json (item_json it)) items) = Some read" "list_all2 (posts pipe) read qs"
    by blast
  moreover from row_item_posts[OF this(1,3)] obtain it it' where
    "ItemFromRequestRow row = Inr it" "item_of_json (item_json it) = Some it'" "posts pipe it' q" by blast
  ultimately show ?case by (intro exI[of _ "it # items"] exI[of _ "it' # read"]) simp
qed simp

section \<open>A request without a snapshot\<close>

text \<open>Without an update that carries a snapshot the column keeps its empty text.\<close>

lemma snapshot_after:
  "rq_policy_snapshot (patch_row p (scan_request c))
     = (case pt_policy_snapshot p of None \<Rightarrow> column_doc (rc_policy_snapshot_json c) | Some d \<Rightarrow> Some d)"
  by (simp add: patch_row_def scan_request_def split: option.split)

lemma snapshot_stays_empty:
  assumes "request_columns_of i db = Some c" "rc_policy_snapshot_json c = Text None"
    and "\<forall>p. WUpdate i p \<in> set ws \<longrightarrow> pt_policy_snapshot p = None"
  shows "\<exists>c'. request_columns_of i (run_writes (sql_CreateRequest dl (ready u f)) (sql_UpdateRequest (ready u f))
      (sql_AppendStep dl (ready u f)) ws db) = Some c' \<and> rc_policy_snapshot_json c' = Text None"
  using assms
proof (induction ws arbitrary: db c)
  case (Cons w ws)
  let ?step = "\<lambda>w. run_writes (sql_CreateRequest dl (ready u f)) (sql_UpdateRequest (ready u f))
      (sql_AppendStep dl (ready u f)) [w] db"
  have "\<exists>c'. request_columns_of i (?step w) = Some c' \<and> rc_policy_snapshot_json c' = Text None"
  proof (cases w)
    case (WCreate row)
    with Cons.prems(1,2) show ?thesis by (auto simp: create_ready created_columns)
  next
    case (WUpdate j p)
    have "pt_policy_snapshot p = None" if "j = i"
      using Cons.prems(3)[rule_format, of p] by (simp only: WUpdate that list.set insert_iff simp_thms)
    then have keep: "rc_policy_snapshot_json (if i = j then update_columns (patch_row p (scan_request d)) c else c) = Text None"
      if "request_columns_of j db = Some d" for d
      using that Cons.prems(1,2) by (cases "i = j") (simp_all add: update_columns_def snapshot_after)
    show ?thesis
    proof (cases "request_columns_of j db")
      case None
      with Cons.prems(1,2) show ?thesis by (simp add: WUpdate update_ready)
    next
      case (Some d)
      from keep[OF Some] Cons.prems(1) show ?thesis by (simp add: WUpdate update_ready Some updated_columns)
    qed
  next
    case (WStep st)
    with Cons.prems(1,2) show ?thesis by (auto simp: sql_AppendStep_def step_columns_other)
  qed
  then obtain c' where "request_columns_of i (?step w) = Some c'" "rc_policy_snapshot_json c' = Text None" by blast
  with Cons.IH[of "?step w" c'] Cons.prems(3) show ?case by (cases w) auto
qed simp

lemma empty_message:
  assumes "Some None \<in> set bs"
  shows "\<exists>e. raw_messages bs = Inl e"
  using assms by (induction bs) (auto simp: raw_message_def split: option.splits sum.splits)

section \<open>Properties\<close>

text \<open>
  C33. Round trip of the regression export: when the ledger holds the requests that were served,
  \<open>ledger export-eval\<close> writes, without a warning, a dataset that \<open>eval run\<close> reads back as one item per
  id, and each item posts a request that normalises to the one that was served.
\<close>

theorem exported_dataset_replays:
  assumes "open_ledger connect cfg = Inr st" "read_ids file idsFile args = Inr ids" "ids \<noteq> []"
    and "list_all2 (\<lambda>i q. exportable q \<and> (\<exists>row. store_get st i = Inr row
           \<and> rq_ai_request_json row = Some (request_json q))) ids qs"
    and "\<And>name. create name = None"
  shows "\<exists>dataset items. exportEval (Inr cfg) connect file create idsFile output args = ([], Inr dataset)
    \<and> items_of_json dataset = Some items \<and> list_all2 (posts pipe) items qs"
proof -
  from export_loop_posts[OF assms(4)] obtain items read where
    "export_loop (store_get st) ids = (items, [])" "length items = length ids"
    "sequence_opt (map (\<lambda>it. item_of_json (item_json it)) items) = Some read" "list_all2 (posts pipe) read qs"
    by blast
  with assms(1,2,3,5) show ?thesis
    by (intro exI[of _ "VList (map item_json items)"] exI[of _ read])
      (auto simp: exportEval_def items_of_json_def comp_def)
qed

text \<open>
  \<open>infercore trace\<close> fails for a request that stopped before it was routed: with SQLite and with
  Postgres the row is found, but its policy snapshot comes back as an empty slice, which is no JSON,
  and nothing is printed.
\<close>

lemma trace_fails_before_routing:
  assumes "NewFromConfig cfg = Inr (Some k)" "k \<noteq> StoreMemory" "connect k = Inr (ready u f, db)"
    and "db = run_writes (sql_CreateRequest dl (ready u f)) (sql_UpdateRequest (ready u f))
           (sql_AppendStep dl (ready u f)) (WCreate row # ws) no_tables"
    and "rq_request_id row = i" "rq_policy_snapshot row = None"
    and "\<forall>p. WUpdate i p \<in> set ws \<longrightarrow> pt_policy_snapshot p = None"
  shows "(\<exists>r. sql_GetRequest (ready u f) i db = Inr r) \<and> (\<exists>e. traceCmd show_time (Inr cfg) connect i = Inl e)"
proof -
  have "request_columns_of i (snd (sql_CreateRequest dl (ready u f) row no_tables)) = Some (request_values dl row)"
    using assms(5) by (simp add: create_ready request_columns_of_def no_tables_def)
  moreover have "rc_policy_snapshot_json (request_values dl row) = Text None"
    using assms(6) by (simp add: request_values_def)
  ultimately obtain c where c: "request_columns_of i db = Some c" "rc_policy_snapshot_json c = Text None"
    using snapshot_stays_empty[of i _ _ ws dl u f] assms(4,7) by fastforce
  have st: "open_ledger connect cfg = Inr (OpenSql (ready u f) db)"
    using assms(1-3) by (cases k) (simp_all add: open_ledger_def)
  have "\<exists>e. raw_messages (request_docs (OpenSql (ready u f) db) i) = Inl e"
    by (intro empty_message) (simp add: c column_bytes_def)
  then have "\<exists>e. traceCmd show_time (Inr cfg) connect i = Inl e"
    by (auto simp: traceCmd_def st split: sum.splits)
  then show ?thesis using c(1) by (simp add: sql_get_ready)
qed

text \<open>
  A ledger in memory is of no use to the commands: each starts with an empty one, so \<open>trace\<close> finds
  nothing, a replay fails for every id, and an export has no item.
\<close>

lemma memory_ledger_is_new:
  assumes "NewFromConfig cfg = Inr (Some StoreMemory)"
  shows "traceCmd show_time (Inr cfg) connect i = Inl ErrNotFound"
    "fst (Replay nowMs cfg (Some (store_get (OpenMemory NewMemoryStore))) i m deps s) = Inl ErrNotFound"
    "\<exists>e. snd (exportEval (Inr cfg) connect file create idsFile output args) = Inl e"
proof -
  have get: "GetRequest j NewMemoryStore = Inl ErrNotFound" for j
    by (simp add: GetRequest_def NewMemoryStore_def)
  have "fst (export_loop (store_get (OpenMemory NewMemoryStore)) ids) = []" for ids
    by (induction ids) (simp_all add: get split_beta Let_def)
  then show "\<exists>e. snd (exportEval (Inr cfg) connect file create idsFile output args) = Inl e"
    by (auto simp: exportEval_def open_ledger_def assms split_beta Let_def split: sum.split)
  show "traceCmd show_time (Inr cfg) connect i = Inl ErrNotFound"
    using get[of i] by (simp add: traceCmd_def open_ledger_def assms)
  show "fst (Replay nowMs cfg (Some (store_get (OpenMemory NewMemoryStore))) i m deps s) = Inl ErrNotFound"
    using get[of i] by (simp add: Replay_def)
qed

section \<open>Witnesses\<close>

definition sqlite_config :: Config where
  "sqlite_config = example_config\<lparr>ledger := (ledger example_config)
     \<lparr>ledger_enabled := True, ledger_driver := ''sqlite'', ledger_path := ''db''\<rparr>\<rparr>"

definition demo_db :: "ledger_write list \<Rightarrow> tables" where
  "demo_db ws = run_writes (sql_CreateRequest SQLite (ready ErrCanceled ErrCanceled))
     (sql_UpdateRequest (ready ErrCanceled ErrCanceled))
     (sql_AppendStep SQLite (ready ErrCanceled ErrCanceled)) ws no_tables"

lemma sqlite_config_store: "NewFromConfig sqlite_config = Inr (Some (StoreSQLite ''db''))"
  by code_simp

theorem exported_dataset_replays_witness:
  "\<exists>dataset items. exportEval (Inr sqlite_config)
       (\<lambda>_. Inr (ready ErrCanceled ErrCanceled, demo_db [WCreate export_row])) (\<lambda>_. Inl ErrNotFound) (\<lambda>_. None) [] [] [''a'']
       = ([], Inr dataset)
     \<and> items_of_json dataset = Some items \<and> list_all2 (posts []) items [export_request]"
proof (rule exported_dataset_replays)
  let ?db = "demo_db [WCreate export_row]"
  show "open_ledger (\<lambda>_. Inr (ready ErrCanceled ErrCanceled, ?db)) sqlite_config
      = Inr (OpenSql (ready ErrCanceled ErrCanceled) ?db)"
    by (simp add: open_ledger_def sqlite_config_store)
  show "read_ids (\<lambda>_. Inl ErrNotFound) [] [''a''] = Inr [''a'']" by code_simp
  have p: "trim_space ''p'' = ''p''" by code_simp
  have "exportable export_request"
    by (simp add: exportable_def export_request_def zero_request_def json_stable_def p)
  then show "list_all2 (\<lambda>i q. exportable q \<and> (\<exists>row. store_get (OpenSql (ready ErrCanceled ErrCanceled) ?db) i = Inr row
      \<and> rq_ai_request_json row = Some (request_json q))) [''a''] [export_request]"
    by (simp add: demo_db_def create_ready sql_get_ready request_columns_of_def no_tables_def export_row_def
        request_values_def scan_request_def)
qed simp_all

lemma trace_fails_before_routing_witness:
  "\<exists>e. traceCmd (\<lambda>_. []) (Inr sqlite_config)
     (\<lambda>_. Inr (ready ErrCanceled ErrCanceled, demo_db demo_writes)) ''a'' = Inl e"
proof -
  obtain row ws where w: "demo_writes = WCreate row # ws" "rq_request_id row = ''a''" "rq_policy_snapshot row = None"
    "\<forall>p. WUpdate ''a'' p \<in> set ws \<longrightarrow> pt_policy_snapshot p = None"
    by (simp add: demo_writes_def Let_def)
  from trace_fails_before_routing[OF sqlite_config_store, where connect = "\<lambda>_. Inr (ready ErrCanceled ErrCanceled, demo_db demo_writes)",
      OF _ refl _ w(2-4), of SQLite]
  show ?thesis by (simp add: demo_db_def w(1))
qed

end
