(* ===== verification/Exporters.thy ===== *)
theory Exporters
  imports Telemetry "HOL-Library.List_Lexorder" "HOL-Library.Char_ord"
begin

text \<open>
  The other exporters of \<open>internal/telemetry\<close> and the interface that the server uses: the lines of
  the log exporter and of the stub, the exporter on the OpenTelemetry SDK
  (\<open>otel_otlp_exporter.go\<close>), the dispatch of \<open>interfaces.TelemetryExporter\<close>, and what \<open>StatusSummary\<close>
  and \<open>Shutdown\<close> do for each. The SDK is a parameter; the lemmas rely on its counters being additive,
  as the OpenTelemetry specification defines them.
\<close>

section \<open>Formats\<close>

text \<open>\<open>%f\<close>: the exact value rounded to six decimals, ties to even.\<close>

definition show_6f :: "rat \<Rightarrow> string" where
  "show_6f x =
     (let c = nat (round_even (\<bar>x\<bar> * 1000000))
      in (if x < 0 then ''-'' else '''') @ show_nat (c div 1000000) @ ''.''
         @ map (\<lambda>p. digit_char (c div p mod 10)) [100000, 10000, 1000, 100, 10, 1])"

text \<open>\<open>%v\<close> of a map of strings: sorted by key.\<close>

definition show_labels :: "(string \<times> string) list \<Rightarrow> string" where
  "show_labels ls = ''map['' @ joined (map (\<lambda>(k, v). k @ '':'' @ v) (sort_key fst ls)) @ '']''"

section \<open>The log exporter and the stub\<close>

definition log_metric :: "string \<Rightarrow> rat \<Rightarrow> (string \<times> string) list \<Rightarrow> string" where
  "log_metric name value labels =
     ''telemetry=metric name='' @ name @ '' value='' @ show_6f value @ '' labels='' @ show_labels labels"

definition log_event :: "Event \<Rightarrow> string" where
  "log_event ev =
     ''telemetry=event name='' @ ev_name ev @ '' timestamp='' @ show_int (ev_timestamp ev)
     @ '' labels='' @ show_labels (ev_labels ev)"

definition log_trace :: "TraceRecord \<Rightarrow> string" where
  "log_trace tr =
     ''telemetry=trace trace_id='' @ tr_trace_id tr @ '' span_id='' @ tr_span_id tr
     @ '' name='' @ tr_name tr @ '' start='' @ show_int (tr_start tr) @ '' end='' @ show_int (tr_end tr)
     @ '' labels='' @ show_labels (tr_labels tr)"

definition stub_metric :: "string \<Rightarrow> string \<Rightarrow> rat \<Rightarrow> (string \<times> string) list \<Rightarrow> string" where
  "stub_metric endpoint name value labels =
     ''telemetry=otlp_http_stub kind=metric endpoint='' @ endpoint @ '' name='' @ name
     @ '' value='' @ show_6f value @ '' labels='' @ show_labels labels"

definition stub_event :: "string \<Rightarrow> Event \<Rightarrow> string" where
  "stub_event endpoint ev =
     ''telemetry=otlp_http_stub kind=event endpoint='' @ endpoint @ '' name='' @ ev_name ev
     @ '' timestamp='' @ show_int (ev_timestamp ev) @ '' labels='' @ show_labels (ev_labels ev)"

definition stub_trace :: "string \<Rightarrow> TraceRecord \<Rightarrow> string" where
  "stub_trace endpoint tr =
     ''telemetry=otlp_http_stub kind=trace endpoint='' @ endpoint
     @ '' trace_id='' @ tr_trace_id tr @ '' span_id='' @ tr_span_id tr @ '' name='' @ tr_name tr
     @ '' start='' @ show_int (tr_start tr) @ '' end='' @ show_int (tr_end tr)
     @ '' labels='' @ show_labels (tr_labels tr)"

section \<open>The OpenTelemetry exporter\<close>

text \<open>
  The SDK: instruments \<open>'c\<close> and spans \<open>'s\<close> on its state \<open>'x\<close>. \<open>sdk_start\<close> starts a root span of kind
  server with a time in milliseconds, since the code starts it with \<open>context.Background()\<close>.
\<close>

record ('c, 's, 'x) otel_sdk =
  sdk_counter :: "string \<Rightarrow> goerr + 'c"
  sdk_add :: "'c \<Rightarrow> rat \<Rightarrow> (string \<times> string) list \<Rightarrow> 'x \<Rightarrow> 'x"
  sdk_start :: "string \<Rightarrow> int \<Rightarrow> 'x \<Rightarrow> 's \<times> 'x"
  sdk_attribute :: "'s \<Rightarrow> string \<Rightarrow> string \<Rightarrow> 'x \<Rightarrow> 'x"
  sdk_end :: "'s \<Rightarrow> int \<Rightarrow> 'x \<Rightarrow> 'x"
  sdk_shutdown_metrics :: "'x \<Rightarrow> goerr option \<times> 'x"
  sdk_shutdown_traces :: "'x \<Rightarrow> goerr option \<times> 'x"

text \<open>The constructors of the SDK: the error of each, \<open>None\<close> for success.\<close>

record otel_init =
  init_resource :: "goerr option"
  init_trace :: "string \<Rightarrow> duration \<Rightarrow> goerr option"
  init_metric :: "string \<Rightarrow> duration \<Rightarrow> goerr option"

record otel_settings =
  oe_base :: string
  oe_timeout :: duration
  oe_batch_timeout :: duration
  oe_flush :: duration

definition NewOtelOTLPExporter ::
  "(string \<Rightarrow> goerr + string \<times> string) \<Rightarrow> otel_init \<Rightarrow> TelemetryConfig \<Rightarrow> goerr + otel_settings" where
  "NewOtelOTLPExporter parse ini cfg =
     (case normalizeOTLPBaseURL parse (otlp_endpoint cfg) of
        Inl e \<Rightarrow> Inl e
      | Inr base \<Rightarrow>
          (let t = dur_ms (otlp_timeout_ms cfg); timeout = (if t \<le> 0 then 10 * second else t)
           in case init_resource ini of
                Some e \<Rightarrow> Inl (ErrText (''otel resource: '' @ err_text e))
              | None \<Rightarrow>
                  (case init_trace ini base timeout of
                     Some e \<Rightarrow> Inl (ErrText (''otlp trace exporter: '' @ err_text e))
                   | None \<Rightarrow>
                       (let b = dur_ms (otlp_flush_ms cfg); batchTimeout = (if b \<le> 0 then second else b)
                        in case init_metric ini base timeout of
                             Some e \<Rightarrow> Inl (ErrText (''otlp metric exporter: '' @ err_text e))
                           | None \<Rightarrow>
                               (let f = dur_ms (otlp_flush_ms cfg); flushEvery = (if f \<le> 0 then second else f)
                                in Inr \<lparr>oe_base = base, oe_timeout = timeout,
                                        oe_batch_timeout = batchTimeout, oe_flush = flushEvery\<rparr>)))))"

text \<open>The counters created so far, by name; \<open>iter\<close> is the iteration order of the labels.\<close>

definition otel_EmitMetric ::
  "('c, 's, 'x) otel_sdk \<Rightarrow> ((string \<times> string) list \<Rightarrow> (string \<times> string) list) \<Rightarrow> string \<Rightarrow> rat
     \<Rightarrow> (string \<times> string) list \<Rightarrow> (string \<rightharpoonup> 'c) \<times> 'x \<Rightarrow> (string \<rightharpoonup> 'c) \<times> 'x" where
  "otel_EmitMetric sdk iter name value labels st =
     (case st of (counters, x) \<Rightarrow>
        (case (case counters name of Some c \<Rightarrow> Inr (c, counters)
               | None \<Rightarrow> (case sdk_counter sdk name of Inl e \<Rightarrow> Inl e | Inr c \<Rightarrow> Inr (c, counters(name \<mapsto> c)))) of
           Inl e \<Rightarrow> (counters, x)
         | Inr (c, counters') \<Rightarrow> (counters', sdk_add sdk c value (iter labels) x)))"

definition otel_EmitTrace ::
  "('c, 's, 'x) otel_sdk \<Rightarrow> ((string \<times> string) list \<Rightarrow> (string \<times> string) list) \<Rightarrow> TraceRecord \<Rightarrow> 'x \<Rightarrow> 'x" where
  "otel_EmitTrace sdk iter tr x =
     (let (s, x1) = sdk_start sdk (tr_name tr) (tr_start tr) x;
          x2 = sdk_attribute sdk s ''infercore.trace_id'' (tr_trace_id tr) x1;
          x3 = sdk_attribute sdk s ''infercore.span_id'' (tr_span_id tr) x2;
          x4 = foldl (\<lambda>x (k, v). sdk_attribute sdk s k v x) x3 (iter (tr_labels tr))
      in sdk_end sdk s (tr_end tr) x4)"

definition otel_Shutdown :: "('c, 's, 'x) otel_sdk \<Rightarrow> 'x \<Rightarrow> goerr option \<times> 'x" where
  "otel_Shutdown sdk x = (let (_, x1) = sdk_shutdown_metrics sdk x in sdk_shutdown_traces sdk x1)"

definition otel_StatusSummary :: goobj where
  "otel_StatusSummary =
     [(''type'', VStr ''otlp-http''), (''protocol'', VStr ''otlp-http-protobuf''), (''standard'', VBool True)]"

section \<open>The exporter of the server\<close>

text \<open>
  Everything that an emission may touch: the lines logged, the counters and the state of the SDK,
  the state \<open>'o\<close> of the collector of the JSON exporter.
\<close>

record ('c, 'x, 'o) telemetry_world =
  tw_log :: "string list"
  tw_counters :: "string \<rightharpoonup> 'c"
  tw_sdk :: 'x
  tw_out :: 'o

record ('c, 's, 'x, 'o) telemetry_env =
  tv_sdk :: "('c, 's, 'x) otel_sdk"
  tv_collector :: "'o collector"
  tv_labels :: "(string \<times> string) list \<Rightarrow> (string \<times> string) list"
  tv_kinds :: "record_kind list"

definition logged :: "string \<Rightarrow> ('c, 'x, 'o) telemetry_world \<Rightarrow> ('c, 'x, 'o) telemetry_world" where
  "logged line w = w\<lparr>tw_log := tw_log w @ [line]\<rparr>"

fun exporter_EmitMetric ::
  "('c, 's, 'x, 'o) telemetry_env \<Rightarrow> gotime \<Rightarrow> gotime \<Rightarrow> string \<Rightarrow> rat \<Rightarrow> (string \<times> string) list
     \<Rightarrow> telemetry_exporter \<Rightarrow> ('c, 'x, 'o) telemetry_world
     \<Rightarrow> telemetry_exporter \<times> ('c, 'x, 'o) telemetry_world" where
  "exporter_EmitMetric env now now' name value labels LogExporter w =
     (LogExporter, logged (log_metric name value labels) w)"
| "exporter_EmitMetric env now now' name value labels (StubExporter ep) w =
     (StubExporter ep, logged (stub_metric ep name value labels) w)"
| "exporter_EmitMetric env now now' name value labels OtelExporter w =
     (let (cs, x) = otel_EmitMetric (tv_sdk env) (tv_labels env) name value labels (tw_counters w, tw_sdk w)
      in (OtelExporter, w\<lparr>tw_counters := cs, tw_sdk := x\<rparr>))"
| "exporter_EmitMetric env now now' name value labels (JsonExporter e) w =
     (let (e1, x) = EmitMetric (tv_collector env) (tv_kinds env) now now' name value labels e (tw_out w)
      in (JsonExporter e1, w\<lparr>tw_out := x\<rparr>))"

text \<open>The OpenTelemetry exporter drops events.\<close>

fun exporter_EmitEvent ::
  "('c, 's, 'x, 'o) telemetry_env \<Rightarrow> gotime \<Rightarrow> gotime \<Rightarrow> Event \<Rightarrow> telemetry_exporter
     \<Rightarrow> ('c, 'x, 'o) telemetry_world \<Rightarrow> telemetry_exporter \<times> ('c, 'x, 'o) telemetry_world" where
  "exporter_EmitEvent env now now' ev LogExporter w = (LogExporter, logged (log_event ev) w)"
| "exporter_EmitEvent env now now' ev (StubExporter ep) w = (StubExporter ep, logged (stub_event ep ev) w)"
| "exporter_EmitEvent env now now' ev OtelExporter w = (OtelExporter, w)"
| "exporter_EmitEvent env now now' ev (JsonExporter e) w =
     (let (e1, x) = EmitEvent (tv_collector env) (tv_kinds env) now now' ev e (tw_out w)
      in (JsonExporter e1, w\<lparr>tw_out := x\<rparr>))"

fun exporter_EmitTrace ::
  "('c, 's, 'x, 'o) telemetry_env \<Rightarrow> gotime \<Rightarrow> gotime \<Rightarrow> TraceRecord \<Rightarrow> telemetry_exporter
     \<Rightarrow> ('c, 'x, 'o) telemetry_world \<Rightarrow> telemetry_exporter \<times> ('c, 'x, 'o) telemetry_world" where
  "exporter_EmitTrace env now now' tr LogExporter w = (LogExporter, logged (log_trace tr) w)"
| "exporter_EmitTrace env now now' tr (StubExporter ep) w = (StubExporter ep, logged (stub_trace ep tr) w)"
| "exporter_EmitTrace env now now' tr OtelExporter w =
     (OtelExporter, w\<lparr>tw_sdk := otel_EmitTrace (tv_sdk env) (tv_labels env) tr (tw_sdk w)\<rparr>)"
| "exporter_EmitTrace env now now' tr (JsonExporter e) w =
     (let (e1, x) = EmitTrace (tv_collector env) (tv_kinds env) now now' tr e (tw_out w)
      in (JsonExporter e1, w\<lparr>tw_out := x\<rparr>))"

fun telemetryStatus :: "telemetry_exporter \<Rightarrow> goobj" where
  "telemetryStatus LogExporter = [(''type'', VStr ''log'')]"
| "telemetryStatus (StubExporter ep) = [(''type'', VStr ''otlp-http-stub''), (''endpoint'', VStr ep)]"
| "telemetryStatus OtelExporter = otel_StatusSummary"
| "telemetryStatus (JsonExporter e) = StatusSummary e"

text \<open>The telemetry part of \<open>(*Server).Shutdown\<close>: only the OpenTelemetry exporter has a \<open>Shutdown\<close>.\<close>

fun exporter_Shutdown ::
  "('c, 's, 'x, 'o) telemetry_env \<Rightarrow> telemetry_exporter \<Rightarrow> ('c, 'x, 'o) telemetry_world
     \<Rightarrow> goerr option \<times> ('c, 'x, 'o) telemetry_world" where
  "exporter_Shutdown env OtelExporter w =
     (let (err, x) = otel_Shutdown (tv_sdk env) (tw_sdk w) in (err, w\<lparr>tw_sdk := x\<rparr>))"
| "exporter_Shutdown env LogExporter w = (None, w)"
| "exporter_Shutdown env (StubExporter ep) w = (None, w)"
| "exporter_Shutdown env (JsonExporter e) w = (None, w)"

section \<open>Construction\<close>

text \<open>
  The factory (\<open>NewExporterFromConfig\<close>) gives the OpenTelemetry exporter exactly when its
  construction succeeds, and then with positive times.
\<close>

lemma otel_exporter_iff:
  assumes "exporter cfg = ''otlp-http''"
    and "\<And>base. sdk base \<longleftrightarrow> init_resource ini = None
      \<and> init_trace ini base (let t = dur_ms (otlp_timeout_ms cfg) in if t \<le> 0 then 10 * second else t) = None
      \<and> init_metric ini base (let t = dur_ms (otlp_timeout_ms cfg) in if t \<le> 0 then 10 * second else t) = None"
  shows "NewExporterFromConfig parse sdk cfg now = OtelExporter \<longleftrightarrow> (\<exists>s. NewOtelOTLPExporter parse ini cfg = Inr s)"
  using assms(1)
  by (auto simp: NewExporterFromConfig_def NewOtelOTLPExporter_def assms(2) Let_def split: sum.splits option.splits)

lemma otel_times_positive:
  "NewOtelOTLPExporter parse ini cfg = Inr s \<Longrightarrow> 0 < oe_timeout s \<and> 0 < oe_batch_timeout s \<and> 0 < oe_flush s"
  by (auto simp: NewOtelOTLPExporter_def Let_def split: sum.splits option.splits if_splits)

section \<open>Counters of the OpenTelemetry exporter\<close>

fun otel_emit_all ::
  "('c, 's, 'x) otel_sdk \<Rightarrow> ((string \<times> string) list \<Rightarrow> (string \<times> string) list)
     \<Rightarrow> (string \<times> rat \<times> (string \<times> string) list) list \<Rightarrow> (string \<rightharpoonup> 'c) \<times> 'x \<Rightarrow> (string \<rightharpoonup> 'c) \<times> 'x" where
  "otel_emit_all sdk iter [] st = st"
| "otel_emit_all sdk iter ((name, value, labels) # ms) st =
     otel_emit_all sdk iter ms (otel_EmitMetric sdk iter name value labels st)"

text \<open>
  What the OpenTelemetry specification says of a counter: \<open>Add\<close> with a value that is not negative
  adds it to the sum of the instrument's series with these attributes, and to no other.
  \<open>reported n k x\<close> is the sum reported for the instrument \<open>n\<close> and the attributes \<open>k\<close>.
\<close>

definition additive_sdk :: "('c, 's, 'x) otel_sdk \<Rightarrow> (string \<Rightarrow> (string \<rightharpoonup> string) \<Rightarrow> 'x \<Rightarrow> rat) \<Rightarrow> bool" where
  "additive_sdk sdk reported \<longleftrightarrow>
     (\<forall>n c v ls x m k. sdk_counter sdk n = Inr c \<longrightarrow> 0 \<le> v \<longrightarrow>
        reported m k (sdk_add sdk c v ls x) = reported m k x + (if m = n \<and> k = map_of ls then v else 0))"

definition series_sum :: "string \<Rightarrow> (string \<rightharpoonup> string) \<Rightarrow> (string \<times> rat \<times> (string \<times> string) list) list \<Rightarrow> rat" where
  "series_sum n k ms = sum_list (map (\<lambda>(name, v, ls). if name = n \<and> map_of ls = k then v else 0) ms)"

lemma otel_emit_all_total:
  assumes "additive_sdk sdk reported" "\<And>ls. map_of (iter ls) = map_of ls"
    and "\<forall>(name, v, ls) \<in> set ms. (\<exists>c. sdk_counter sdk name = Inr c) \<and> 0 \<le> v"
    and "\<forall>name c. counters name = Some c \<longrightarrow> sdk_counter sdk name = Inr c"
  shows "reported n k (snd (otel_emit_all sdk iter ms (counters, x))) = reported n k x + series_sum n k ms"
  using assms(3,4)
proof (induction ms arbitrary: counters x)
  case (Cons m ms)
  obtain name v ls where m: "m = (name, v, ls)" by (cases m)
  obtain c where c: "sdk_counter sdk name = Inr c" "0 \<le> v" using Cons.prems(1) m by auto
  let ?cs = "if counters name = None then counters(name \<mapsto> c) else counters"
  have e: "otel_EmitMetric sdk iter name v ls (counters, x) = (?cs, sdk_add sdk c v (iter ls) x)"
    using c Cons.prems(2) by (auto simp: otel_EmitMetric_def split: option.split)
  have "\<forall>name c. ?cs name = Some c \<longrightarrow> sdk_counter sdk name = Inr c" using Cons.prems(2) c by auto
  moreover have "reported n k (sdk_add sdk c v (iter ls) x) = reported n k x + (if n = name \<and> k = map_of ls then v else 0)"
    using assms(1,2) c by (simp add: additive_sdk_def)
  ultimately show ?case using Cons.IH[of ?cs "sdk_add sdk c v (iter ls) x"] Cons.prems(1)
    by (auto simp: m e series_sum_def)
qed (simp add: series_sum_def)

section \<open>What a shutdown leaves behind\<close>

fun emit_all ::
  "'o collector \<Rightarrow> record_kind list \<Rightarrow> (gotime \<times> gotime \<times> record_kind \<times> goobj) list \<Rightarrow> OTLPHTTPExporter \<Rightarrow> 'o
     \<Rightarrow> OTLPHTTPExporter \<times> 'o" where
  "emit_all co iter [] e x = (e, x)"
| "emit_all co iter ((now, now', k, r) # es) e x =
     (let (e1, x1) = enqueue co iter now now' k r e x in emit_all co iter es e1 x1)"

text \<open>
  Fewer records than a batch, emitted within the flush interval, stay in the buffer of the JSON
  exporter, and \<open>Shutdown\<close> does not send them either: the collector never sees them.
\<close>

lemma small_buffer_kept:
  assumes "\<forall>(now, now', k, r) \<in> set es. time_sub now (te_last_flush e) < te_flush_every e"
    and "\<forall>k. int (length (te_buffer e k) + length es) < te_batch_size e"
  shows "\<exists>e'. emit_all co iter es e x = (e', x)
     \<and> (\<forall>k. te_buffer e' k = te_buffer e k @ map (\<lambda>(_, _, _, r). r) (filter (\<lambda>(_, _, q, _). q = k) es))"
  using assms
proof (induction es arbitrary: e)
  case (Cons em es)
  obtain now now' k r where em: "em = (now, now', k, r)" by (cases em)
  let ?e = "e\<lparr>te_buffer := (te_buffer e)(k := te_buffer e k @ [r])\<rparr>"
  have "\<not> te_batch_size e \<le> int (length (te_buffer e k @ [r]))" using Cons.prems(2)[rule_format, of k] by simp
  then have q: "enqueue co iter now now' k r e x = (?e, x)"
    using Cons.prems(1) em by (auto simp: enqueue_def enqueue_locked_def Let_def)
  have "\<forall>q. int (length (te_buffer ?e q) + length es) < te_batch_size ?e"
  proof
    fix q
    show "int (length (te_buffer ?e q) + length es) < te_batch_size ?e"
      using Cons.prems(2)[rule_format, of q] by auto
  qed
  moreover have "\<forall>(now, now', k, r) \<in> set es. time_sub now (te_last_flush ?e) < te_flush_every ?e"
    using Cons.prems(1) by auto
  ultimately obtain e' where "emit_all co iter es ?e x = (e', x)"
    "\<forall>p. te_buffer e' p = te_buffer ?e p @ map (\<lambda>(_, _, _, r). r) (filter (\<lambda>(_, _, q, _). q = p) es)"
    using Cons.IH[of ?e] by blast
  then show ?case using q by (auto simp: em)
qed simp

lemma shutdown_keeps_buffer:
  assumes "\<forall>(now, now', k, r) \<in> set es. time_sub now (te_last_flush e) < te_flush_every e"
    and "\<forall>k. int (length (te_buffer e k) + length es) < te_batch_size e"
    and "emit_all (tv_collector env) (tv_kinds env) es e (tw_out w) = (e', x)"
  shows "exporter_Shutdown env (JsonExporter e') (w\<lparr>tw_out := x\<rparr>) = (None, w)
     \<and> (\<forall>k. te_buffer e' k = te_buffer e k @ map (\<lambda>(_, _, _, r). r) (filter (\<lambda>(_, _, q, _). q = k) es))"
  using small_buffer_kept[OF assms(1,2), of "tv_collector env" "tv_kinds env" "tw_out w"] assms(3) by auto

section \<open>Property\<close>

text \<open>
  C30. What the OpenTelemetry exporter exports of the server's metrics is the running sum of the
  measurements: after any emissions of the new exporter, the series of a name and a set of labels
  has grown by the sum of all the values emitted with them, for latencies as for any other metric.
\<close>

theorem otel_metrics_accumulate:
  assumes "additive_sdk sdk reported" "\<And>ls. map_of (iter ls) = map_of ls"
    and "\<forall>(name, v, ls) \<in> set (gw_metrics w). (\<exists>c. sdk_counter sdk name = Inr c) \<and> 0 \<le> v"
  shows "reported n k (snd (otel_emit_all sdk iter (gw_metrics w) (\<lambda>_. None, x)))
     = reported n k x + series_sum n k (gw_metrics w)"
  by (rule otel_emit_all_total[OF assms]) simp

section \<open>Witness\<close>

text \<open>An SDK that keeps the sums of the series as a function.\<close>

definition summing_sdk :: "(string, unit, string \<Rightarrow> (string \<rightharpoonup> string) \<Rightarrow> rat) otel_sdk" where
  "summing_sdk =
     \<lparr>sdk_counter = Inr,
      sdk_add = (\<lambda>c v ls x. x(c := (x c)(map_of ls := x c (map_of ls) + v))),
      sdk_start = (\<lambda>n t x. ((), x)), sdk_attribute = (\<lambda>s k v x. x), sdk_end = (\<lambda>s t x. x),
      sdk_shutdown_metrics = (\<lambda>x. (None, x)), sdk_shutdown_traces = (\<lambda>x. (None, x))\<rparr>"

theorem otel_metrics_accumulate_witness:
  "snd (otel_emit_all summing_sdk id (gw_metrics (demo_state\<lparr>gw_metrics :=
       [(''infercore_ttft_ms'', 40, []), (''infercore_ttft_ms'', 60, [])]\<rparr>)) (\<lambda>_. None, \<lambda>_ _. 0))
     ''infercore_ttft_ms'' (\<lambda>_. None) = 100"
proof -
  let ?w = "demo_state\<lparr>gw_metrics := [(''infercore_ttft_ms'', 40, []), (''infercore_ttft_ms'', 60, [])]\<rparr>"
  have "additive_sdk summing_sdk (\<lambda>n k x. x n k)" by (auto simp: additive_sdk_def summing_sdk_def)
  moreover have "\<forall>(name, v, ls) \<in> set (gw_metrics ?w). (\<exists>c. sdk_counter summing_sdk name = Inr c) \<and> 0 \<le> v"
    by (simp add: summing_sdk_def)
  ultimately show ?thesis
    using otel_metrics_accumulate[of summing_sdk "\<lambda>n k x. x n k" id ?w "''infercore_ttft_ms''" "\<lambda>_. None"
        "\<lambda>_ _. 0"]
    by (simp add: series_sum_def fun_eq_iff)
qed

end
