(* ===== verification/Process.thy ===== *)
theory Process
  imports Cli Exporters
begin

text \<open>
  The process of \<open>infercore serve\<close>, \<open>cmd/infercore/main.go\<close>: the listener goroutine, the main
  goroutine that waits for a signal, the graceful shutdown of \<open>net/http\<close> and the deferred
  \<open>(*Server).Shutdown\<close>, as a step relation; and the entry point of the command. Of
  \<open>http.Server.Shutdown\<close> the documented behaviour is taken: it closes the listeners at once and
  returns when no connection is active any more, after closing the idle ones.
\<close>

section \<open>The entry point\<close>

definition effective_args :: "string list \<Rightarrow> string list" where
  "effective_args os_args = (if length os_args = 1 then os_args @ [''serve''] else os_args)"

text \<open>What \<open>main\<close> does with the result of the command: the line on stderr and the exit code.\<close>

definition main_exit :: "goerr option \<Rightarrow> string option \<times> int" where
  "main_exit res = (case res of Some e \<Rightarrow> (Some (err_text e), 1) | None \<Rightarrow> (None, 0))"

text \<open>The flag \<open>--config\<close>, \<open>None\<close> when it is not given, and its default.\<close>

definition config_path :: "(string \<Rightarrow> string) \<Rightarrow> string option \<Rightarrow> string" where
  "config_path getenv flag =
     (case flag of Some p \<Rightarrow> p | None \<Rightarrow> envOr getenv ''INFERCORE_CONFIG'' ''configs/infercore.example.yaml'')"

section \<open>Server.Shutdown\<close>

text \<open>\<open>close\<close> is the \<open>Close\<close> of the ledger store, \<open>None\<close> when the store is nil; its error is dropped.\<close>

definition Server_Shutdown ::
  "('l \<Rightarrow> goerr option \<times> 'l) option \<Rightarrow> ('c, 's, 'x, 'o) telemetry_env \<Rightarrow> telemetry_exporter
     \<Rightarrow> 'l \<times> ('c, 'x, 'o) telemetry_world \<Rightarrow> goerr option \<times> 'l \<times> ('c, 'x, 'o) telemetry_world" where
  "Server_Shutdown close env ex w =
     (let l1 = (case close of None \<Rightarrow> fst w | Some f \<Rightarrow> snd (f (fst w)));
          (err, tw) = exporter_Shutdown env ex (snd w)
      in (err, l1, tw))"

section \<open>The process\<close>

text \<open>
  The main goroutine: \<open>MSetup\<close> up to \<open>signal.Notify\<close>, \<open>MWaiting\<close> on the channel, \<open>MDraining\<close> in
  \<open>httpServer.Shutdown\<close>, then the two statements of the deferred \<open>Shutdown\<close>, then \<open>MExiting\<close> on the
  way out of \<open>main\<close>. The listener goroutine: \<open>LBinding\<close> is past the check for a shutdown with which
  \<open>ListenAndServe\<close> begins, \<open>LFailed\<close> is before \<open>log.Fatalf\<close>. \<open>pr_busy\<close> counts the
  connections with a request in work, \<open>pr_idle\<close> those kept alive without one. \<open>pr_signal\<close> is the
  buffered channel of one signal, \<open>pr_result\<close> what \<open>httpServer.Shutdown\<close> returned.
\<close>

datatype main_phase = MSetup | MWaiting | MDraining | MClosing | MFlushing | MExiting

datatype listener_phase = LStarting | LBinding | LServing | LStopped | LFailed

datatype exit_status = Exited int | ExitFatal | KilledBySignal

record process =
  pr_main :: main_phase
  pr_listener :: listener_phase
  pr_busy :: nat
  pr_idle :: nat
  pr_signal :: bool
  pr_ledger_open :: bool
  pr_flushed :: bool
  pr_result :: "goerr option"
  pr_exit :: "exit_status option"

definition serve_start :: process where
  "serve_start =
     \<lparr>pr_main = MSetup, pr_listener = LStarting, pr_busy = 0, pr_idle = 0, pr_signal = False,
      pr_ledger_open = True, pr_flushed = False, pr_result = None, pr_exit = None\<rparr>"

text \<open>\<open>httpServer.Shutdown\<close> was called; \<open>ListenAndServe\<close> then returns \<open>http.ErrServerClosed\<close>.\<close>

definition stopping :: "process \<Rightarrow> bool" where
  "stopping s \<longleftrightarrow> pr_main s \<notin> {MSetup, MWaiting}"

inductive serve_step :: "process \<Rightarrow> process \<Rightarrow> bool" where
  bind: "pr_exit s = None \<Longrightarrow> pr_listener s = LStarting \<Longrightarrow> \<not> stopping s \<Longrightarrow>
    serve_step s (s\<lparr>pr_listener := LBinding\<rparr>)"
| listen: "pr_exit s = None \<Longrightarrow> pr_listener s = LBinding \<Longrightarrow> \<not> stopping s \<Longrightarrow>
    serve_step s (s\<lparr>pr_listener := LServing\<rparr>)"
| listen_closed: "pr_exit s = None \<Longrightarrow> pr_listener s \<in> {LStarting, LBinding} \<Longrightarrow> stopping s \<Longrightarrow>
    serve_step s (s\<lparr>pr_listener := LStopped\<rparr>)"
| listen_fails: "pr_exit s = None \<Longrightarrow> pr_listener s = LBinding \<or> pr_listener s = LServing \<and> \<not> stopping s \<Longrightarrow>
    serve_step s (s\<lparr>pr_listener := LFailed\<rparr>)"
| fatal: "pr_exit s = None \<Longrightarrow> pr_listener s = LFailed \<Longrightarrow>
    serve_step s (s\<lparr>pr_exit := Some ExitFatal\<rparr>)"
| accept: "pr_exit s = None \<Longrightarrow> pr_listener s = LServing \<Longrightarrow>
    serve_step s (s\<lparr>pr_busy := pr_busy s + 1\<rparr>)"
| answer_keep: "pr_exit s = None \<Longrightarrow> 0 < pr_busy s \<Longrightarrow> \<not> stopping s \<Longrightarrow>
    serve_step s (s\<lparr>pr_busy := pr_busy s - 1, pr_idle := pr_idle s + 1\<rparr>)"
| answer_close: "pr_exit s = None \<Longrightarrow> 0 < pr_busy s \<Longrightarrow>
    serve_step s (s\<lparr>pr_busy := pr_busy s - 1\<rparr>)"
| next_request: "pr_exit s = None \<Longrightarrow> 0 < pr_idle s \<Longrightarrow>
    serve_step s (s\<lparr>pr_busy := pr_busy s + 1, pr_idle := pr_idle s - 1\<rparr>)"
| hang_up: "pr_exit s = None \<Longrightarrow> 0 < pr_idle s \<Longrightarrow>
    serve_step s (s\<lparr>pr_idle := pr_idle s - 1\<rparr>)"
| notify: "pr_exit s = None \<Longrightarrow> pr_main s = MSetup \<Longrightarrow>
    serve_step s (s\<lparr>pr_main := MWaiting\<rparr>)"
| early_signal: "pr_exit s = None \<Longrightarrow> pr_main s = MSetup \<Longrightarrow>
    serve_step s (s\<lparr>pr_exit := Some KilledBySignal\<rparr>)"
| signal: "pr_exit s = None \<Longrightarrow> pr_main s \<noteq> MSetup \<Longrightarrow>
    serve_step s (s\<lparr>pr_signal := True\<rparr>)"
| shut_down: "pr_exit s = None \<Longrightarrow> pr_main s = MWaiting \<Longrightarrow> pr_signal s \<Longrightarrow>
    serve_step s (s\<lparr>pr_main := MDraining, pr_signal := False,
      pr_listener := (if pr_listener s = LServing then LStopped else pr_listener s)\<rparr>)"
| drained: "pr_exit s = None \<Longrightarrow> pr_main s = MDraining \<Longrightarrow> pr_busy s = 0 \<Longrightarrow>
    serve_step s (s\<lparr>pr_main := MClosing, pr_idle := 0, pr_result := err\<rparr>)"
| close_ledger: "pr_exit s = None \<Longrightarrow> pr_main s = MClosing \<Longrightarrow>
    serve_step s (s\<lparr>pr_main := MFlushing, pr_ledger_open := False\<rparr>)"
| flush: "pr_exit s = None \<Longrightarrow> pr_main s = MFlushing \<Longrightarrow>
    serve_step s (s\<lparr>pr_main := MExiting, pr_flushed := True\<rparr>)"
| exit: "pr_exit s = None \<Longrightarrow> pr_main s = MExiting \<Longrightarrow>
    serve_step s (s\<lparr>pr_exit := Some (Exited (snd (main_exit (pr_result s))))\<rparr>)"

section \<open>Invariant\<close>

definition orderly :: "process \<Rightarrow> bool" where
  "orderly s \<longleftrightarrow>
     (stopping s \<longrightarrow> pr_listener s \<noteq> LServing)
     \<and> (pr_main s \<in> {MClosing, MFlushing, MExiting} \<longrightarrow> pr_busy s = 0 \<and> pr_idle s = 0)
     \<and> (pr_ledger_open s \<longleftrightarrow> pr_main s \<notin> {MFlushing, MExiting})
     \<and> (pr_flushed s \<longleftrightarrow> pr_main s = MExiting)
     \<and> (\<forall>n. pr_exit s = Some (Exited n) \<longrightarrow> pr_main s = MExiting)
     \<and> (pr_exit s = Some ExitFatal \<longrightarrow> pr_listener s = LFailed)
     \<and> (pr_exit s = Some KilledBySignal \<longrightarrow> pr_main s = MSetup)"

lemma orderly_start: "orderly serve_start"
  by (simp add: orderly_def serve_start_def stopping_def)

lemma orderly_step: "serve_step s s' \<Longrightarrow> orderly s \<Longrightarrow> orderly s'"
  by (induction rule: serve_step.induct) (auto simp: orderly_def stopping_def)

lemma orderly_reachable: "serve_step\<^sup>*\<^sup>* serve_start s \<Longrightarrow> orderly s"
  by (induction rule: rtranclp_induct) (auto intro: orderly_start orderly_step)

section \<open>A shutdown can always complete\<close>

lemma drain_steps:
  "pr_exit s = None \<Longrightarrow> pr_busy s = n \<Longrightarrow> serve_step\<^sup>*\<^sup>* s (s\<lparr>pr_busy := 0\<rparr>)"
proof (induction n arbitrary: s)
  case 0
  then have "s\<lparr>pr_busy := 0\<rparr> = s" by (cases s) simp
  then show ?case by simp
next
  case (Suc n)
  let ?s = "s\<lparr>pr_busy := pr_busy s - 1\<rparr>"
  have "serve_step s ?s" by (rule answer_close) (use Suc.prems in simp_all)
  moreover have "serve_step\<^sup>*\<^sup>* ?s (?s\<lparr>pr_busy := 0\<rparr>)" by (rule Suc.IH) (use Suc.prems in simp_all)
  ultimately show ?case by (simp add: converse_rtranclp_into_rtranclp)
qed

lemma shutdown_completes:
  assumes "pr_exit s = None" "pr_main s = MDraining"
  shows "\<exists>s'. serve_step\<^sup>*\<^sup>* s s' \<and> pr_exit s' = Some (Exited 0)"
proof -
  let ?a = "s\<lparr>pr_busy := 0\<rparr>"
  let ?b = "?a\<lparr>pr_main := MClosing, pr_idle := 0, pr_result := None\<rparr>"
  let ?c = "?b\<lparr>pr_main := MFlushing, pr_ledger_open := False\<rparr>"
  let ?d = "?c\<lparr>pr_main := MExiting, pr_flushed := True\<rparr>"
  let ?e = "?d\<lparr>pr_exit := Some (Exited (snd (main_exit (pr_result ?d))))\<rparr>"
  have "serve_step\<^sup>*\<^sup>* s ?a" by (rule drain_steps) (use assms in simp_all)
  also have "serve_step ?a ?b" by (rule drained) (use assms in simp_all)
  also have "serve_step ?b ?c" by (rule close_ledger) (use assms in simp_all)
  also have "serve_step ?c ?d" by (rule flush) (use assms in simp_all)
  also have "serve_step ?d ?e" by (rule exit) (use assms in simp_all)
  finally show ?thesis by (intro exI[of _ ?e]) (simp add: main_exit_def)
qed

section \<open>Property\<close>


section \<open>Witness\<close>


end
