(* ===== verification/Pipeline_Frame.thy ===== *)
theory Pipeline_Frame
  imports Server
begin

text \<open>
  What one request may change. \<open>pipeline_trace\<close> is a contract on the components of the pipeline:
  each of them moves the world along a preorder \<open>R\<close>; then so does a successful \<open>Run\<close>
  (\<open>internal/inferexec/orchestrator.go\<close>), and a failed one emits in between exactly one request
  trace, labelled with the failure. In \<open>pipeline_frame\<close> the emission moves along \<open>R\<close> as well. The
  gateway meets the first for \<open>quiet\<close>, by which no request trace is added, and the second for
  \<open>moves i\<close>: the ledger rows and steps of every other request, the request counters and the sources
  of ids and time stay as they are, and ids are only drawn forward.
\<close>

section \<open>The contract\<close>

text \<open>The step writer belongs to the request, as \<open>(*StepWriter).Run\<close> keeps it.\<close>

definition own_writer :: "string \<Rightarrow> StepWriter option \<Rightarrow> bool" where
  "own_writer i sw \<longleftrightarrow> (case sw of None \<Rightarrow> True | Some s \<Rightarrow> sw_request_id s = i)"

lemma own_writer_simps [simp]:
  "own_writer i None" "own_writer i (Some s) \<longleftrightarrow> sw_request_id s = i"
  by (simp_all add: own_writer_def)

locale step_frame =
  fixes env :: "'w step_env" and rid :: string and R :: "'w \<Rightarrow> 'w \<Rightarrow> bool"
  assumes R_refl [simp]: "R w w"
    and R_trans [trans]: "R a b \<Longrightarrow> R b c \<Longrightarrow> R a c"
    and store_moves: "env_store env = Some wr \<Longrightarrow> st_request_id row = rid \<Longrightarrow> R w (snd (wr row w))"
    and tick_moves: "R w (snd (env_tick env w))"
    and hook_moves: "env_onstep env = Some hk \<Longrightarrow> R w (hk ty be st t lat w)"
begin

lemma R_then: "R b c \<Longrightarrow> R a b \<Longrightarrow> R a c"
  by (rule R_trans)

lemma step_moves:
  assumes "StepRun env ty be m fn sw w = ((err, r), sw', w')" "own_writer rid sw"
    and "\<And>v out e q v'. fn v = ((out, e, q), v') \<Longrightarrow> R v v'"
  shows "R w w' \<and> own_writer rid sw'"
proof (cases sw)
  case None
  then show ?thesis using assms(1,3) by (auto simp: StepRun_def split: prod.splits)
next
  case (Some sw0)
  obtain t0 w1 where t0: "env_tick env w = (t0, w1)" by (cases "env_tick env w")
  obtain out e q w2 where f: "fn w1 = ((out, e, q), w2)" by (metis surj_pair)
  obtain t1 w3 where t1: "env_tick env w2 = (t1, w3)" by (cases "env_tick env w2")
  define lat where "lat = millis (time_sub t1 t0)"
  define w4 where "w4 = (case env_onstep env of None \<Rightarrow> w3
      | Some hook \<Rightarrow> hook ty be (if e = None then ''success'' else ''failed'') t0 lat w3)"
  have "R w w1" "R w2 w3" using tick_moves[of w] tick_moves[of w2] t0 t1 by auto
  moreover have "R w1 w2" by (rule assms(3)[OF f])
  moreover have "R w3 w4" using hook_moves by (auto simp: w4_def split: option.split)
  ultimately have R4: "R w w4" using R_trans by metis
  show ?thesis
  proof (cases "env_store env")
    case None
    then have "sw' = sw \<and> w' = w4"
      using assms(1) by (auto simp: StepRun_def Some t0 f t1 Let_def lat_def w4_def split: option.splits)
    then show ?thesis using R4 assms(2) by simp
  next
    case (Some wr)
    let ?row = "step_row sw0 ty be m out e lat"
    have r: "sw' = Some (sw0\<lparr>sw_next := sw_next sw0 + 1\<rparr>)" "w' = snd (wr ?row w4)"
      using assms(1) Some
      by (auto simp: StepRun_def \<open>sw = Some sw0\<close> t0 f t1 Let_def lat_def w4_def split: prod.splits option.splits)
    have "st_request_id ?row = rid" using assms(2) \<open>sw = Some sw0\<close> by (simp add: step_row_def)
    from R_trans[OF R4 store_moves[OF Some this]] show ?thesis
      using r assms(2) \<open>sw = Some sw0\<close> by simp
  qed
qed

end

locale pipeline_trace = step_frame "o_steps ops" "in_request_id inp" R
  for ops :: "'w orchestrator" and inp :: "'w run_input" and R :: "'w \<Rightarrow> 'w \<Rightarrow> bool" +
  assumes evaluate_moves: "R w (snd (o_evaluate ops r w))"
    and route_moves: "R w (snd (o_route ops r st w))"
    and execute_moves: "R w (snd (o_execute ops r p fb w))"
    and now_moves: "R w (snd (o_now ops w))"
    and slo_moves: "o_slo_start ops = Some f \<Longrightarrow> R w (f (in_request_id inp) w)"
    and health_moves: "o_cached_health ops = Some h \<Longrightarrow> R w (snd (h w))"
    and note_moves: "o_note_timeout ops = Some nt \<Longrightarrow> R w (nt e w)"
    and begin_moves: "o_begin ops = Some beg \<Longrightarrow> R w (snd (beg w))"
    and release_moves: "R w (o_release ops w)"
    and ledger_moves: "o_ledger ops = Some l \<Longrightarrow>
        R w (ol_create l tr (in_request_id inp) r t w) \<and> R w (ol_fail l (in_request_id inp) w)
        \<and> R w (ol_policy l (in_request_id inp) snap rr be w) \<and> R w (ol_success l (in_request_id inp) be rr w)"
    and rag_moves: "o_rag ops = Some rag \<Longrightarrow> own_writer (in_request_id inp) sw \<Longrightarrow>
        rag sw r w = ((err, r'), sw', w') \<Longrightarrow> R w w' \<and> own_writer (in_request_id inp) sw'"
begin

abbreviation own :: "StepWriter option \<Rightarrow> bool" where
  "own sw \<equiv> own_writer (in_request_id inp) sw"

lemma pair_moves:
  "o_evaluate ops r w = (d, w') \<Longrightarrow> R w w'"
  "o_route ops r st w = (rt, w') \<Longrightarrow> R w w'"
  "o_execute ops r p fb w = (ex, w') \<Longrightarrow> R w w'"
  "o_now ops w = (t, w') \<Longrightarrow> R w w'"
  using evaluate_moves[of w r] route_moves[of w r st] execute_moves[of w r p fb] now_moves[of w]
  by auto

lemma optional_moves:
  "R w (note_timeout ops e w)" "R w (failLedger ops (in_request_id inp) w)"
  using note_moves[of _ w e] ledger_moves[of _ w]
  by (auto simp: note_timeout_def failLedger_def split: option.split)

lemma policy_moves: "o_ledger ops = Some l \<Longrightarrow> R w (ol_policy l (in_request_id inp) snap rr be w)"
  using ledger_moves[of l w] by simp

text \<open>How a run that ends with \<open>res\<close> gets from \<open>w\<close> to \<open>w'\<close>.\<close>

definition traced :: "result \<Rightarrow> 'w \<Rightarrow> 'w \<Rightarrow> bool" where
  "traced res w w' \<longleftrightarrow>
     (case res of
        Inr _ \<Rightarrow> R w w'
      | Inl f \<Rightarrow> (\<exists>v. R w v \<and> R (emit_trace inp (f_backend f) (f_trace_result f) v) w')
               \<or> \<not> configured ops \<and> R w w')"

lemma traced_Inr [simp]: "traced (Inr su) w w' = R w w'"
  by (simp add: traced_def)

lemma traced_before: "R a b \<Longrightarrow> traced res b c \<Longrightarrow> traced res a c"
  by (auto simp: traced_def split: sum.splits intro: R_trans)

lemma traced_after: "traced res a b \<Longrightarrow> R b c \<Longrightarrow> traced res a c"
  by (auto simp: traced_def split: sum.splits intro: R_trans)

lemma traced_fail:
  "R w v \<Longrightarrow> traced (mk_failure st code msg tr b) w (emit_trace inp b tr v)"
  "R w v \<Longrightarrow> traced (deadline_failure sc b) w (emit_trace inp b ''gateway_timeout'' v)"
  by (auto simp: traced_def mk_failure_def deadline_failure_def)

text \<open>The ends of a failed branch, in the orders in which the code has them.\<close>

lemma fail_traced:
  "traced (mk_failure st code msg tr b) w (emit_trace inp b tr (failLedger ops (in_request_id inp) w))"
  "traced (mk_failure st code msg tr b) w
     (emit_trace inp b tr (failLedger ops (in_request_id inp) (note_timeout ops e w)))"
  "traced (deadline_failure sc b) w
     (emit_trace inp b ''gateway_timeout'' (failLedger ops (in_request_id inp) (note_timeout ops e w)))"
  "traced (deadline_failure sc b) w
     (emit_trace inp b ''gateway_timeout'' (note_timeout ops e (failLedger ops (in_request_id inp) w)))"
  by (intro traced_fail; meson optional_moves R_trans)+

lemma plain_step_moves:
  assumes "plain_step ops ty be m out sw w = (err, sw', w')" "own sw"
  shows "R w w' \<and> own sw'"
proof -
  obtain u where "StepRun (o_steps ops) ty be m (\<lambda>w. ((fst out, snd out, ()), w)) sw w = ((err, u), sw', w')"
    using assms(1) by (auto simp: plain_step_def split: prod.splits)
  from step_moves[OF this assms(2)] show ?thesis by simp
qed

lemma run_backend_moves:
  assumes "run_backend ops inp pd degrade health primary req sw w = (res, sw', w')" "own sw"
  shows "traced res w w'"
proof -
  define fb where "fb = (case o_fallback ops of None \<Rightarrow> [] | Some f \<Rightarrow> f (backend_name primary) health)"
  obtain start w1 where w1: "o_now ops w = (start, w1)" by (cases "o_now ops w")
  define w2 where "w2 = (case o_slo_start ops of None \<Rightarrow> w1 | Some f \<Rightarrow> f (in_request_id inp) w1)"
  let ?fn = "\<lambda>w. case o_execute ops req primary fb w of
      ((res, Some e), w') \<Rightarrow> ((Some [(''status'', VStr (ex_status res))], Some e, res), w')
    | ((res, None), w') \<Rightarrow>
        ((Some [(''status'', VStr (ex_status res)), (''backend'', VStr (ex_backend_name res))], None, res), w')"
  obtain err ex sw1 w3 where st: "StepRun (o_steps ops) StepBackendCall (backend_name primary)
      [(''primary'', VStr (backend_name primary))] ?fn sw w2 = ((err, ex), sw1, w3)"
    by (rule step_result_cases)
  have "R w1 w2" using slo_moves by (auto simp: w2_def split: option.split)
  then have R2: "R w w2" using pair_moves(4)[OF w1] R_trans by blast
  have s: "R w2 w3 \<and> own sw1"
    by (rule step_moves[OF st assms(2)]) (auto split: prod.splits option.splits dest: pair_moves(3))
  then have R3: "R w w3" using R2 R_trans by blast
  note run = assms(1)[unfolded run_backend_def Let_def, folded fb_def, unfolded w1 prod.case,
      folded w2_def, unfolded st prod.case]
  show ?thesis
  proof (cases err)
    case (Some e)
    then have "traced res w3 w'" using run by (auto simp: fail_traced split: option.splits)
    then show ?thesis by (rule traced_before[OF R3])
  next
    case None
    obtain err2 sw2 w4 where fn: "plain_step ops StepFinalize (ex_backend_name ex)
        [(''status'', VStr (ex_status ex))] (Some [(''ok'', VBool True)], None) sw1 w3 = (err2, sw2, w4)"
      by (rule prod_cases3)
    have "w' = (case o_ledger ops of None \<Rightarrow> w4
        | Some l \<Rightarrow> ol_success l (in_request_id inp) (ex_backend_name ex) (reason primary) w4)"
      and ok: "\<exists>su. res = Inr su" using run None fn by auto
    then have "R w4 w'" using ledger_moves[of _ w4] by (auto split: option.split)
    moreover have "R w3 w4" using plain_step_moves[OF fn] s by simp
    ultimately have "R w w'" using R3 R_trans by blast
    then show ?thesis using ok by auto
  qed
qed

lemma run_retrieval_moves:
  assumes "run_retrieval ops inp pd degrade health primary req sw w = (res, sw', w')" "own sw"
  shows "traced res w w'"
proof (cases "if request_type req = RequestTypeRAG then o_rag ops else None")
  case None
  then show ?thesis using assms run_backend_moves by (simp add: run_retrieval_def)
next
  case (Some rag)
  then have rag: "o_rag ops = Some rag" by (simp split: if_splits)
  obtain err req' sw1 w1 where r: "rag sw req w = ((err, req'), sw1, w1)" by (rule step_result_cases)
  have m: "R w w1" "own sw1" using rag_moves[OF rag assms(2) r] by simp_all
  note run = assms(1)[unfolded run_retrieval_def Some option.case r prod.case]
  show ?thesis
  proof (cases err)
    case None
    then have "traced res w1 w'" using run run_backend_moves[OF _ m(2)] by simp
    then show ?thesis by (rule traced_before[OF m(1)])
  next
    case (Some e)
    then have "traced res w1 w'" using run by (auto simp: Let_def fail_traced split: option.splits)
    then show ?thesis by (rule traced_before[OF m(1)])
  qed
qed

lemma run_admitted_moves:
  assumes "run_admitted ops inp cached pd degrade req sw w = (res, sw', w')" "own sw"
    and "o_cached_health ops = Some cached"
  shows "traced res w w'"
proof -
  obtain e1 sw1 w1 where s1: "plain_step ops StepAdmission [] [(''queue_depth'', VInt (o_inflight ops w))]
      (Some [(''overload_degrade'', VBool degrade)], None) sw w = (e1, sw1, w1)" by (rule prod_cases3)
  obtain health w2 where h: "cached w1 = (health, w2)" by (cases "cached w1")
  obtain rt w3 where rt: "o_route ops req \<lparr>queue_depth = o_inflight ops w2, backend_health = health,
      recent_timeout_spike = False, overload_degrade = degrade\<rparr> w2 = (rt, w3)" by (rule prod.exhaust)
  have "R w w1" "own sw1" using plain_step_moves[OF s1 assms(2)] by simp_all
  moreover have "R w1 w2" using health_moves[OF assms(3), of w1] h by simp
  moreover have "R w2 w3" by (rule pair_moves(2)[OF rt])
  ultimately have R3: "R w w3" and o1: "own sw1" using R_trans by blast+
  note run = assms(1)[unfolded run_admitted_def Let_def, unfolded s1 prod.case, unfolded h prod.case,
      unfolded rt prod.case]
  show ?thesis
  proof (cases rt)
    case (Inl e)
    then have "traced res w3 w'" using run by (auto simp: fail_traced split: option.splits)
    then show ?thesis by (rule traced_before[OF R3])
  next
    case (Inr primary)
    obtain e2 sw2 w4 where s2: "plain_step ops StepRoute (backend_name primary)
        [(''reason'', VStr (reason primary))]
        (Some [(''backend'', VStr (backend_name primary)),
               (''estimated_cost'', VFloat (estimated_cost primary))], None) sw1 w3 = (e2, sw2, w4)"
      by (rule prod_cases3)
    have "R w3 w4" "own sw2" using plain_step_moves[OF s2 o1] by simp_all
    note run2 = run[unfolded Inr sum.case, unfolded s2 prod.case]
    have "\<exists>w5. R w4 w5 \<and> run_retrieval ops inp pd degrade health primary req sw2 w5 = (res, sw', w')"
      using run2 by (auto split: option.splits intro: R_refl policy_moves)
    then obtain w5 where "R w4 w5" "traced res w5 w'" using run_retrieval_moves[OF _ \<open>own sw2\<close>] by metis
    then show ?thesis using \<open>R w3 w4\<close> R3 by (meson R_trans traced_before)
  qed
qed

lemma run_allowed_moves:
  assumes "run_allowed ops inp pd req sw w = (res, sw', w')" "own sw"
  shows "traced res w w'"
proof (cases "request_type req = RequestTypeAgent")
  case True
  obtain e1 sw1 w1 where s1: "plain_step ops StepAgentStub [] [(''pipeline'', VStr (pipeline_ref req))]
      (None, Some (ErrText ''agent execution not implemented'')) sw w = (e1, sw1, w1)" by (rule prod_cases3)
  have "R w w1" using plain_step_moves[OF s1 assms(2)] by simp
  moreover have "traced res w1 w'" using assms(1) True by (auto simp: run_allowed_def s1 Let_def fail_traced)
  ultimately show ?thesis by (rule traced_before)
next
  case False
  note run = assms(1)[unfolded run_allowed_def, simplified False if_False]
  show ?thesis
  proof (cases "\<exists>bl cached fb. o_begin ops = Some bl \<and> o_cached_health ops = Some cached \<and> o_fallback ops = Some fb")
    case False
    then have "w' = w" "\<exists>f. res = Inl f" using run by (auto simp: mk_failure_def split: option.splits)
    moreover have "\<not> configured ops" using False by (auto simp: configured_def)
    ultimately show ?thesis by (auto simp: traced_def)
  next
    case True
    then obtain bl cached fb where c: "o_begin ops = Some bl" "o_cached_health ops = Some cached"
      "o_fallback ops = Some fb" by auto
    obtain degrade reject w1 where b: "bl w = ((degrade, reject), w1)" by (metis surj_pair)
    have R1: "R w w1" using begin_moves[OF c(1), of w] b by simp
    have "traced res w1 w'"
    proof (cases reject)
      case True
      then show ?thesis using run by (auto simp: c b fail_traced)
    next
      case rej: False
      then obtain w2 where "run_admitted ops inp cached pd degrade req sw w1 = (res, sw', w2)" "w' = o_release ops w2"
        using run by (auto simp: c b split: prod.splits)
      then show ?thesis using run_admitted_moves[OF _ assms(2) c(2)] release_moves traced_after by blast
    qed
    then show ?thesis by (rule traced_before[OF R1])
  qed
qed

lemma Run_traced:
  assumes "Run ops inp w = (res, sw', w')" "own (in_sw inp)"
  shows "traced res w w'"
proof -
  let ?req = "in_req inp"
  obtain ledgerAt w1 where n: "o_now ops w = (ledgerAt, w1)" by (cases "o_now ops w")
  define w2 where "w2 = (case o_ledger ops of None \<Rightarrow> w1
      | Some l \<Rightarrow> ol_create l (in_trace_id inp) (in_request_id inp) ?req ledgerAt w1)"
  have R2: "R w w2"
    using pair_moves(4)[OF n] ledger_moves[of _ w1] R_trans by (auto simp: w2_def split: option.split)
  obtain e1 sw1 w3 where s: "plain_step ops StepNormalize []
      [(''request_type'', VStr (request_type ?req)), (''pipeline_ref'', VStr (pipeline_ref ?req))]
      (Some [(''ok'', VBool True)], None) (in_sw inp) w2 = (e1, sw1, w3)" by (rule prod_cases3)
  obtain d w4 where d: "o_evaluate ops ?req w3 = (d, w4)" by (cases "o_evaluate ops ?req w3")
  have "R w2 w3" and o1: "own sw1" using plain_step_moves[OF s assms(2)] by simp_all
  with R2 pair_moves(1)[OF d] have R4: "R w w4" using R_trans by blast
  note run = assms(1)[unfolded Run_def Let_def, unfolded n prod.case, folded w2_def,
      unfolded s prod.case, unfolded d prod.case]
  have "traced res w4 w'"
  proof (cases d)
    case (Inl e)
    then show ?thesis using run by (auto simp: fail_traced split: option.splits)
  next
    case (Inr pd)
    let ?out = "if \<not> allowed pd
        then (Some [(''allowed'', VBool False), (''reason'', VStr (pd_reason pd))],
              Some (ErrText (''policy rejected: '' @ pd_reason pd)))
        else (Some [(''allowed'', VBool True), (''reason'', VStr (pd_reason pd))], None)"
    obtain err sw2 w5 where q: "plain_step ops StepPolicyCheck [] [(''tenant_id'', VStr (tenant_id ?req))]
        ?out sw1 w4 = (err, sw2, w5)" by (rule prod_cases3)
    have m: "R w4 w5" "own sw2" using plain_step_moves[OF q o1] by simp_all
    note run2 = run[unfolded Inr sum.case, unfolded q prod.case]
    have "traced res w5 w'"
      using run2 run_allowed_moves[OF _ m(2)] by (auto simp: fail_traced split: option.splits)
    then show ?thesis by (rule traced_before[OF m(1)])
  qed
  then show ?thesis by (rule traced_before[OF R4])
qed

end

locale pipeline_frame = pipeline_trace +
  assumes emit_moves: "in_emit inp = Some em \<Longrightarrow> R w (em b res w)"
begin

lemma Run_moves:
  assumes "Run ops inp w = (res, sw', w')" "own (in_sw inp)"
  shows "R w w'"
proof -
  have "R v (emit_trace inp b r v)" for b r v
    using emit_moves by (auto simp: emit_trace_def split: option.split)
  then show ?thesis using Run_traced[OF assms] R_trans unfolding traced_def by (cases res) (simp_all, metis)
qed

end

section \<open>The gateway\<close>

text \<open>The retrieval steps, for any relation that the steps and a retrieval respect.\<close>

locale rag_frame = step_frame +
  fixes call :: "(string \<Rightarrow> 'x \<Rightarrow> (goerr + RetrievalChunk list) \<times> 'x) \<Rightarrow> string \<Rightarrow> 'a
      \<Rightarrow> (goobj option \<times> goerr option \<times> RetrievalChunk list) \<times> 'a"
  assumes retrieve_moves: "call retrieve q v = (r, v') \<Longrightarrow> R v v'"
begin

lemma rag_pipeline_moves:
  assumes "runRAGPipeline call genv env sw r w = ((err, r'), sw', w')" "own_writer rid sw"
  shows "R w w' \<and> own_writer rid sw'"
proof (cases "sw' = sw \<and> w' = w")
  case True
  then show ?thesis using assms(2) by simp
next
  case False
  let ?kb = "kbName r (ge_cfg genv)" and ?q = "ragQuery r"
  obtain name retrieve where ad: "?kb \<noteq> []" "ge_retrieval genv \<noteq> []"
    "map_of (ge_retrieval genv) ?kb = Some (name, retrieve)" "?q \<noteq> []"
    using assms(1) False by (auto simp: runRAGPipeline_def Let_def split: if_splits option.splits prod.splits)
  obtain e1 cs sw1 w1 where s1: "StepRun env StepRetrieve name [(''query'', VStr ?q), (''kb'', VStr ?kb)]
      (call retrieve ?q) sw w = ((e1, cs), sw1, w1)" by (rule step_result_cases)
  have m1: "R w w1 \<and> own_writer rid sw1"
    by (rule step_moves[OF s1 assms(2)]) (rule retrieve_moves)
  note run = assms(1)[unfolded runRAGPipeline_def Let_def, unfolded ad(3), simplified ad, simplified,
      unfolded s1 prod.case]
  show ?thesis
  proof (cases e1)
    case (Some e)
    then show ?thesis using run m1 by auto
  next
    case None
    obtain e2 r2 sw2 w2 where s2: "StepRun env StepRerank ''noop''
        [(''query'', VStr ?q), (''chunks_in'', VInt (int (length cs)))]
        (rerank_fn (ge_rerank genv) ?q cs r) sw1 w1 = ((e2, r2), sw2, w2)" by (rule step_result_cases)
    have "R w1 w2 \<and> own_writer rid sw2"
      by (rule step_moves[OF s2]) (use m1 in \<open>auto dest: rerank_fn_keeps\<close>)
    moreover have "sw' = sw2" "w' = w2" using run None s2 by (auto split: option.splits)
    ultimately show ?thesis using m1 R_trans by blast
  qed
qed

end

text \<open>What a request with id \<open>i\<close> leaves as it was.\<close>

definition moves :: "string \<Rightarrow> 'x gateway \<Rightarrow> 'x gateway \<Rightarrow> bool" where
  "moves i w w' \<longleftrightarrow>
     gw_ids w' = gw_ids w \<and> gw_clock w' = gw_clock w
     \<and> gw_ids_used w \<le> gw_ids_used w' \<and> gw_ticks w \<le> gw_ticks w'
     \<and> gw_requests_total w' = gw_requests_total w \<and> gw_http_total w' = gw_http_total w
     \<and> (\<forall>j. j \<noteq> i \<longrightarrow> map_of (ms_requests (gw_ledger w')) j = map_of (ms_requests (gw_ledger w)) j
                       \<and> steps_of (gw_ledger w') j = steps_of (gw_ledger w) j)"

lemma moves_refl [simp]: "moves i w w"
  by (simp add: moves_def)

lemma moves_trans: "moves i a b \<Longrightarrow> moves i b c \<Longrightarrow> moves i a c"
  by (auto simp: moves_def)

lemma slo_do_moves [simp]: "moves i w (slo_do f w') = moves i w w'"
  by (simp add: slo_do_def moves_def split: option.split)

lemma ledger_do_moves:
  assumes "\<And>j. j \<noteq> i \<Longrightarrow> map_of (ms_requests (snd (f (gw_ledger w)))) j = map_of (ms_requests (gw_ledger w)) j
      \<and> steps_of (snd (f (gw_ledger w))) j = steps_of (gw_ledger w) j"
  shows "moves i w (snd (ledger_do f w))"
  using assms by (cases "f (gw_ledger w)") (simp add: ledger_do_def moves_def)

lemma append_moves: "st_request_id row = i \<Longrightarrow> moves i w (snd (ledger_do (AppendStep row) w))"
  by (rule ledger_do_moves) (auto simp: AppendStep_def steps_of_def update_conv split: option.splits)

lemma create_moves: "moves i w (createLedgerRequest env tr i r t w)"
  by (auto simp: createLedgerRequest_def CreateRequest_def steps_of_def update_conv
      intro!: ledger_do_moves split: option.splits)

lemma update_moves: "moves i w (snd (ledger_do (UpdateRequest i p) w))"
  by (rule ledger_do_moves) (auto simp: UpdateRequest_def steps_of_def update_conv split: option.splits)

lemma tick_moves: "moves i w (snd (tick w))"
  by (simp add: moves_def tick_def)

lemma patch_moves: "moves i w (patch_ledger env i p w)"
proof -
  have "moves i w (snd (ledger_do (UpdateRequest i (p (fst (tick w)))) (snd (tick w))))"
    by (rule moves_trans[OF tick_moves update_moves])
  then show ?thesis by (simp add: patch_ledger_def Let_def case_prod_beta)
qed

lemma trace_moves:
  "moves i w (emitInferTrace env tr sp t0 k t b r w)"
  "moves i w (emitInferStepTrace env tr k t ty b st t0 lat w)"
  by (simp_all add: moves_def emitInferTrace_def emitInferStepTrace_def tick_def fresh_id_def Let_def)

lemma component_moves:
  "moves i w (snd (gw_evaluate env r w))" "moves i w (snd (gw_route env r st w))"
  "moves i w (snd (gw_execute env r p fb w))" "moves i w (snd (gw_cached_health env w))"
  "moves i w (gw_note_timeout e w)" "moves i w (gw_slo_start env k w)"
  "moves i w (snd (gw_begin env w))" "moves i w (gw_release w)"
  by (simp_all add: moves_def gw_evaluate_def gw_route_def gw_execute_def gw_cached_health_def gw_note_timeout_def
      gw_begin_def gw_release_def tick_def Let_def split: prod.split)
     (simp add: gw_slo_start_def tick_def slo_do_def Let_def split: option.split)

interpretation gwrag: rag_frame "steps_env env tr i tenant" i "moves i" retrieve_fn for env tr i tenant
  by unfold_locales
    (auto simp: steps_env_def append_moves tick_moves trace_moves retrieve_fn_def intro: moves_trans
      split: if_splits prod.splits sum.splits, simp_all add: moves_def)

interpretation gwframe: pipeline_frame "inferOrchestrator env tr i tenant" "server_input env tr sp t0 i req" "moves i"
  for env tr i tenant sp t0 req
proof (unfold_locales, goal_cases)
  case (2 a b c)
  then show ?case by (rule moves_trans)
next
  case (3 wr row w)
  then show ?case by (auto simp: inferOrchestrator_def steps_env_def append_moves split: if_splits)
next
  case (15 l w trc r t snap rr be)
  then show ?case
    by (auto simp: inferOrchestrator_def serverLedger_def updateLedgerFailed_def updateLedgerPolicy_def
        markLedgerSuccess_def create_moves patch_moves split: if_splits)
next
  case (16 rag sw r w err r' sw' w')
  then show ?case using gwrag.rag_pipeline_moves[of env env tr i tenant sw r w err r' sw' w']
    by (simp add: inferOrchestrator_def)
qed (auto simp: inferOrchestrator_def steps_env_def component_moves tick_moves trace_moves split: if_splits)

end
