(* ===== verification/Request_Traces.thy ===== *)
theory Request_Traces
  imports Pipeline_Frame
begin

text \<open>
  The request traces of \<open>POST /infer\<close>: \<open>emitInferTrace\<close> in \<open>internal/server/server.go\<close> is called on
  every way out of the handler, in the validation, in the pipeline through \<open>EmitRequestTrace\<close> and
  in \<open>writeAIResponse\<close>. The lemmas show that exactly one record is emitted per call, and that its
  labels agree with the answer.
\<close>

section \<open>The records named \<open>infer_request\<close>\<close>

definition request_traces :: "'x gateway \<Rightarrow> TraceRecord list" where
  "request_traces w = filter (\<lambda>r. tr_name r = ''infer_request'') (gw_traces w)"

definition quiet :: "'x gateway \<Rightarrow> 'x gateway \<Rightarrow> bool" where
  "quiet w w' \<longleftrightarrow> request_traces w' = request_traces w"

lemma quiet_refl [simp]: "quiet w w"
  by (simp add: quiet_def)

lemma quiet_trans: "quiet a b \<Longrightarrow> quiet b c \<Longrightarrow> quiet a c"
  by (simp add: quiet_def)

lemma slo_do_quiet [simp]: "quiet w (slo_do f w') = quiet w w'"
  by (simp add: slo_do_def quiet_def request_traces_def split: option.split)

lemma ledger_do_quiet: "quiet w (snd (ledger_do f w))"
  by (simp add: ledger_do_def quiet_def request_traces_def split: prod.split)

lemma tick_quiet: "quiet w (snd (tick w))"
  by (simp add: tick_def quiet_def request_traces_def)

lemma step_trace_quiet: "quiet w (emitInferStepTrace env tr k t ty b st t0 lat w)"
  by (simp add: emitInferStepTrace_def quiet_def request_traces_def fresh_id_def Let_def)

lemma patch_quiet: "quiet w (patch_ledger env i p w)"
  using quiet_trans[OF tick_quiet ledger_do_quiet, of w]
  by (simp add: patch_ledger_def Let_def case_prod_beta)

lemma create_quiet: "quiet w (createLedgerRequest env tr i r t w)"
  by (simp add: createLedgerRequest_def ledger_do_quiet)

lemma component_quiet:
  "quiet w (snd (gw_evaluate env r w))" "quiet w (snd (gw_route env r st w))"
  "quiet w (snd (gw_execute env r p fb w))" "quiet w (snd (gw_cached_health env w))"
  "quiet w (gw_note_timeout e w)" "quiet w (gw_slo_start env k w)"
  "quiet w (snd (gw_begin env w))" "quiet w (gw_release w)"
  by (simp_all add: quiet_def request_traces_def gw_evaluate_def gw_route_def gw_execute_def gw_cached_health_def
      gw_note_timeout_def gw_begin_def gw_release_def tick_def Let_def split: prod.split)
     (simp add: gw_slo_start_def tick_def slo_do_def Let_def split: option.split)

interpretation ragquiet: rag_frame "steps_env env tr i tenant" i quiet retrieve_fn for env tr i tenant
  by unfold_locales
    (auto simp: steps_env_def ledger_do_quiet tick_quiet step_trace_quiet retrieve_fn_def intro: quiet_trans
      split: if_splits prod.splits sum.splits, simp_all add: quiet_def request_traces_def)

interpretation gwtrace: pipeline_trace "inferOrchestrator env tr i tenant" "server_input env tr sp t0 i req" quiet
  for env tr i tenant sp t0 req
proof (unfold_locales, goal_cases)
  case (2 a b c)
  then show ?case by (rule quiet_trans)
next
  case (3 wr row w)
  then show ?case by (auto simp: inferOrchestrator_def steps_env_def ledger_do_quiet split: if_splits)
next
  case (15 l w trc r t snap rr be)
  then show ?case
    by (auto simp: inferOrchestrator_def serverLedger_def updateLedgerFailed_def updateLedgerPolicy_def
        markLedgerSuccess_def create_quiet patch_quiet split: if_splits)
next
  case (16 rag sw r w err r' sw' w')
  then show ?case using ragquiet.rag_pipeline_moves[of env env tr i tenant sw r w err r' sw' w']
    by (simp add: inferOrchestrator_def)
qed (auto simp: inferOrchestrator_def steps_env_def component_quiet tick_quiet step_trace_quiet split: if_splits)

section \<open>The label of a failure\<close>

definition failure_labels :: "string set" where
  "failure_labels =
     {''policy_error'', ''policy_rejected'', ''route_error'', ''agent_not_implemented'', ''overload'',
      ''execution_failed'', ''gateway_timeout''}"

definition labelled :: "'w orchestrator \<Rightarrow> result \<Rightarrow> bool" where
  "labelled ops res \<longleftrightarrow>
     (case res of Inr _ \<Rightarrow> True | Inl f \<Rightarrow> rag_failure ops f \<or> f_trace_result f \<in> failure_labels)"

lemma labelled_Inr [simp]: "labelled ops (Inr s)"
  by (simp add: labelled_def)

lemma labelled_deadline [simp]: "labelled ops (deadline_failure sc b)"
  by (simp add: labelled_def deadline_failure_def mk_failure_def failure_labels_def)

lemma labelled_failure: "tr \<in> failure_labels \<Longrightarrow> labelled ops (mk_failure st code msg tr b)"
  by (simp add: labelled_def mk_failure_def)

lemma labelled_parsed:
  "o_rag ops = Some rag \<Longrightarrow> rag sw r w = ((Some e, r'), sw', w') \<Longrightarrow> o_parse_rag ops = Some p \<Longrightarrow>
     p e = Some (tr, st, code, msg) \<Longrightarrow> labelled ops (mk_failure st code msg tr b)"
  unfolding labelled_def mk_failure_def rag_failure_def by (simp, metis fst_conv)

lemmas labelled_here = labelled_failure[unfolded failure_labels_def]

lemma run_backend_labelled: "labelled ops (fst (run_backend ops inp pd degrade health primary req sw w))"
  by (auto simp: run_backend_def Let_def labelled_here split: prod.split option.split)

lemma run_retrieval_labelled: "labelled ops (fst (run_retrieval ops inp pd degrade health primary req sw w))"
  by (auto simp: run_retrieval_def Let_def labelled_here run_backend_labelled
      split: prod.split option.split if_splits intro: labelled_parsed)

lemma run_admitted_labelled: "labelled ops (fst (run_admitted ops inp cached pd degrade req sw w))"
  by (auto simp: run_admitted_def Let_def labelled_here run_retrieval_labelled
      split: prod.split option.split sum.split)

lemma run_allowed_labelled: "labelled ops (fst (run_allowed ops inp pd req sw w))"
  using run_admitted_labelled[of ops]
  by (auto simp: run_allowed_def Let_def labelled_here split: prod.split option.split bool.split)
     (metis fst_conv)+

lemma Run_labelled: "labelled ops (fst (Run ops inp w))"
  by (auto simp: Run_def Let_def labelled_here run_allowed_labelled split: prod.split option.split sum.split)

lemma failure_not_success:
  assumes "Run (inferOrchestrator env tr i t) inp w = (Inl f, sw, w')"
  shows "f_trace_result f \<noteq> ''success''"
proof -
  have "rag_failure (inferOrchestrator env tr i t) f \<or> f_trace_result f \<in> failure_labels"
    using Run_labelled[of "inferOrchestrator env tr i t" inp w] assms by (simp add: labelled_def)
  moreover have "f_trace_result f \<noteq> ''success''" if "rag_failure (inferOrchestrator env tr i t) f"
    using that
    by (auto simp: rag_failure_def inferOrchestrator_def runRAGPipeline_def rag_error_def Let_def
        split: if_splits option.splits prod.splits)
  ultimately show ?thesis by (auto simp: failure_labels_def)
qed

section \<open>One record per call\<close>

text \<open>The request id that an answer carries.\<close>

definition answer_id :: "http_answer \<Rightarrow> string" where
  "answer_id a = (case snd a of BodyError i _ _ \<Rightarrow> i | BodyResponse r \<Rightarrow> rs_request_id r | _ \<Rightarrow> [])"

lemma emit_one:
  assumes "tracing_enabled (telemetry (ge_cfg env))"
  shows "request_traces (emitInferTrace env tr sp t0 i tenant b res w) = request_traces w @
     [\<lparr>tr_trace_id = tr, tr_span_id = sp, tr_name = ''infer_request'', tr_start = unix_milli t0,
       tr_end = unix_milli (now_of w),
       tr_labels = [(''request_id'', i), (''tenant_id'', tenant), (''backend'', b), (''result'', res)]\<rparr>]"
  using assms by (simp add: emitInferTrace_def request_traces_def tick_def now_of_def)

text \<open>
  The record \<open>r\<close> of a call that was answered with \<open>a\<close>: the ids drawn for it, the request id of the
  answer, \<open>success\<close> for 200 only, and then trace id and backend of the response.
\<close>

definition describes :: "TraceRecord \<Rightarrow> string \<Rightarrow> string \<Rightarrow> gotime \<Rightarrow> http_answer \<Rightarrow> bool" where
  "describes r trace sid start a \<longleftrightarrow>
     tr_trace_id r = trace \<and> tr_span_id r = sid \<and> tr_name r = ''infer_request''
     \<and> tr_start r = unix_milli start \<and> map_of (tr_labels r) ''request_id'' = Some (answer_id a)
     \<and> (map_of (tr_labels r) ''result'' = Some ''success'' \<longleftrightarrow> fst a = 200)
     \<and> (case snd a of
          BodyResponse resp \<Rightarrow> rs_trace_id resp = trace
            \<and> map_of (tr_labels r) ''backend'' = Some (rs_selected_backend resp)
        | _ \<Rightarrow> True)"

lemma answer_quiet:
  "quiet w (emitTelemetryMetric env n v ls w)" "quiet w (emitTelemetryEvent ev w)"
  "quiet w (gw_first_token env k ts w)" "quiet w (gw_completion env k ts w)" "quiet w (gw_fallback env k w)"
  by (simp_all add: quiet_def request_traces_def emitTelemetryMetric_def emitTelemetryEvent_def gw_first_token_def
      gw_completion_def gw_fallback_def tick_def slo_do_def Let_def split: option.split)

lemma answer_traced:
  assumes "tracing_enabled (telemetry (ge_cfg env))" "writeAIResponse env p w = (a, w')"
  shows "\<exists>r. request_traces w' = request_traces w @ [r]
     \<and> describes r (sp_trace_id p) (sp_span_id p) (sp_trace_start p) a"
proof -
  obtain v resp where v: "quiet w v" "a = (200, BodyResponse resp)"
    "rs_request_id resp = sp_request_id p" "rs_trace_id resp = sp_trace_id p"
    "rs_selected_backend resp = ex_backend_name (sp_execution p)"
    "w' = emitInferTrace env (sp_trace_id p) (sp_span_id p) (sp_trace_start p) (sp_request_id p)
       (tenant_id (sp_req p)) (ex_backend_name (sp_execution p)) ''success'' v"
  proof (rule that)
    let ?i = "sp_request_id p" and ?ex = "sp_execution p"
    let ?w2 = "gw_completion env ?i (measured (sp_execution_start p) (fst (tick w))
        (map_option bt_completion_latency_ms (ex_timing ?ex)))
        (gw_first_token env ?i (measured (sp_execution_start p) (fst (tick w)) (map_option bt_ttft_ms (ex_timing ?ex)))
          (snd (tick w)))"
    let ?w3 = "if ex_used_fallback ?ex then gw_fallback env ?i ?w2 else ?w2"
    let ?resp = "response_of env p (Snapshot ?i (gw_slo ?w3))"
    let ?labels = "[(''tenant_id'', tenant_id (sp_req p)), (''backend'', ex_backend_name ?ex)]"
    let ?w5 = "emitTelemetryMetric env ''infercore_completion_latency_ms''
        (f_of_int (am_completion_latency_ms (rs_metrics ?resp))) ?labels
        (emitTelemetryMetric env ''infercore_ttft_ms'' (f_of_int (am_ttft_ms (rs_metrics ?resp))) ?labels ?w3)"
    let ?w7 = "emitTelemetryEvent \<lparr>ev_name = ''infer_request_completed'', ev_timestamp = unix_milli (fst (tick ?w5)),
        ev_labels = [(''request_id'', ?i), (''tenant_id'', tenant_id (sp_req p)),
                     (''backend'', ex_backend_name ?ex), (''status'', ex_status ?ex)]\<rparr> (snd (tick ?w5))"
    have "quiet w ?w2" using tick_quiet answer_quiet(3,4) quiet_trans by meson
    then have "quiet w ?w3" by (cases "ex_used_fallback ?ex") (simp_all add: quiet_trans[OF _ answer_quiet(5)])
    then show "quiet w ?w7" using tick_quiet answer_quiet(1,2) quiet_trans by meson
    have r: "writeAIResponse env p w = ((200, BodyResponse ?resp),
        emitInferTrace env (sp_trace_id p) (sp_span_id p) (sp_trace_start p) ?i (tenant_id (sp_req p))
          (ex_backend_name ?ex) ''success'' ?w7)"
      unfolding writeAIResponse_def Let_def case_prod_beta by (rule refl)
    show "a = (200, BodyResponse ?resp)"
      "w' = emitInferTrace env (sp_trace_id p) (sp_span_id p) (sp_trace_start p) ?i (tenant_id (sp_req p))
          (ex_backend_name ?ex) ''success'' ?w7" using assms(2) r by simp_all
    show "rs_request_id ?resp = ?i" "rs_trace_id ?resp = sp_trace_id p"
      "rs_selected_backend ?resp = ex_backend_name ?ex" by (simp_all add: response_of_def Let_def)
  qed
  then show ?thesis
    using emit_one[OF assms(1)] by (simp add: quiet_def describes_def answer_id_def)
qed

text \<open>
  C19. One trace record per call: with tracing enabled, every \<open>POST /infer\<close>, whatever it is answered,
  adds exactly one \<open>infer_request\<close> record; it carries the trace and span id drawn for the call and
  the request id of the answer, its result is \<open>success\<close> exactly for a 200, and then the response
  has the same trace id and the backend of the label.
\<close>

theorem infer_traced_once:
  assumes "tracing_enabled (telemetry (ge_cfg env))" "infer env hr w = (a, w')"
  shows "\<exists>r. request_traces w' = request_traces w @ [r] \<and> describes r (drawn_trace w) (drawn_span w) (now_of w) a"
proof (cases "accepted hr")
  case None
  have s: "request_traces (started w) = request_traces w" by (simp add: started_def request_traces_def)
  obtain st code msg tenant result where
    "(st, code) \<in> refusal_codes" "result \<noteq> ''success''" "a = writeError st [] code msg"
    "w' = emitInferTrace env (drawn_trace w) (drawn_span w) (now_of w) [] tenant [] result (started w)"
    using infer_refuses[OF None, of env w] assms(2) unfolding refused_def by (metis prod.inject)
  then show ?thesis using emit_one[OF assms(1)] s
    by (auto simp: describes_def answer_id_def writeError_def refusal_codes_def)
next
  case (Some req)
  let ?i = "gw_ids (started w) (gw_ids_used (started w))"
  let ?w1 = "started w\<lparr>gw_ids_used := gw_ids_used (started w) + 1,
      gw_requests_total := gw_requests_total (started w) + 1, gw_ticks := gw_ticks (started w) + 1\<rparr>"
  let ?inp = "server_input env (drawn_trace w) (drawn_span w) (now_of w) ?i (req\<lparr>request_id := ?i\<rparr>)"
  have run: "infer_accepted env (drawn_trace w) (drawn_span w) (now_of w) req (started w) = (a, w')"
    unfolding infer_accepts[OF Some, symmetric] by (rule assms(2))
  have s: "request_traces ?w1 = request_traces w" by (simp add: started_def request_traces_def)
  have own: "own_writer ?i (in_sw ?inp)" by (simp add: server_input_def)
  show ?thesis
  proof (rule infer_accepted_cases[OF run])
    fix f sw w3
    assume r: "Run (inferOrchestrator env (drawn_trace w) ?i (tenant_id req)) ?inp ?w1 = (Inl f, sw, w3)"
      and a: "w' = w3" "a = writeError (f_http_status f) ?i (f_error_code f) (f_message f)"
    obtain v where v: "quiet ?w1 v" "quiet (emit_trace ?inp (f_backend f) (f_trace_result f) v) w3"
      using gwtrace.Run_traced[OF r] own by (auto simp: gwtrace.traced_def server_configured)
    have "f_http_status f \<noteq> 200" using failure_not_200[OF r] by simp
    then show ?thesis using v s a emit_one[OF assms(1)] failure_not_success[OF r]
      by (simp add: quiet_def emit_trace_def describes_def answer_id_def writeError_def)
  next
    fix su sw w3 p
    assume r: "Run (inferOrchestrator env (drawn_trace w) ?i (tenant_id req)) ?inp ?w1 = (Inr su, sw, w3)"
      and p: "writeAIResponse env p w3 = (a, w')" "sp_trace_id p = drawn_trace w"
        "sp_span_id p = drawn_span w" "sp_trace_start p = now_of w"
    have "quiet ?w1 w3" using gwtrace.Run_traced[OF r] own by (simp add: gwtrace.traced_def)
    then show ?thesis using answer_traced[OF assms(1) p(1)] s by (simp add: quiet_def p)
  qed
qed

section \<open>Witness\<close>

theorem infer_traced_once_witness:
  "\<exists>a w' r. infer (demo_env\<lparr>ge_cfg := demo_config\<lparr>telemetry := (telemetry demo_config)\<lparr>tracing_enabled := True\<rparr>\<rparr>\<rparr>)
       demo_post demo_state = (a, w') \<and> request_traces w' = [r] \<and> tr_trace_id r = ''id0''
     \<and> map_of (tr_labels r) ''request_id'' = Some (answer_id a)"
proof -
  let ?env = "demo_env\<lparr>ge_cfg := demo_config\<lparr>telemetry := (telemetry demo_config)\<lparr>tracing_enabled := True\<rparr>\<rparr>\<rparr>"
  obtain a w' where r: "infer ?env demo_post demo_state = (a, w')" by (metis prod.exhaust)
  have "tracing_enabled (telemetry (ge_cfg ?env))" by simp
  from infer_traced_once[OF this r] obtain rec where
    "request_traces w' = request_traces demo_state @ [rec]"
    "describes rec (drawn_trace demo_state) (drawn_span demo_state) (now_of demo_state) a" by blast
  moreover have "request_traces demo_state = []" by (simp add: request_traces_def demo_state_def)
  moreover have "drawn_trace demo_state = ''id0''" by code_simp
  ultimately show ?thesis using r by (auto simp: describes_def)
qed

end
