(* ===== verification/Service.thy ===== *)
theory Service
  imports Request_Traces Wiring
begin

text \<open>
  The running gateway: a server built by \<open>NewWithDependencies\<close> that answers one request after the
  other through \<open>Routes\<close> (\<open>internal/server/server.go\<close>). The lemmas give what a single call leaves
  of the counters and the ledger, and by induction what any history of calls adds up to: counters
  and ledger tell exactly which requests were answered and how. (Calls that overlap are
  the subject of \<open>Overlap\<close>, and the admission among them that of \<open>Admission\<close>.)
\<close>

section \<open>A history of calls\<close>

text \<open>Each call has the context of its own request, as a function of the time, and the request.\<close>

type_synonym call = "(gotime \<Rightarrow> goerr option) \<times> http_request"

definition serve_call ::
  "'x gateway_env \<Rightarrow> ('x gateway \<Rightarrow> string) \<Rightarrow> call \<Rightarrow> 'x gateway \<Rightarrow> http_answer \<times> 'x gateway" where
  "serve_call env prom c w = Routes (env\<lparr>ge_ctx := fst c\<rparr>) prom (snd c) w"

fun serve_calls ::
  "'x gateway_env \<Rightarrow> ('x gateway \<Rightarrow> string) \<Rightarrow> call list \<Rightarrow> 'x gateway \<Rightarrow> http_answer list \<times> 'x gateway" where
  "serve_calls env prom [] w = ([], w)"
| "serve_calls env prom (c # cs) w =
     (let (a, w1) = serve_call env prom c w; (as, w2) = serve_calls env prom cs w1 in (a # as, w2))"

text \<open>The requests that pass the key check, and among them those that are taken into the pipeline.\<close>

definition passes :: "'x gateway_env \<Rightarrow> http_request \<Rightarrow> bool" where
  "passes env hr \<longleftrightarrow>
     (let key = effectiveInfercoreAPIKey env in key = [] \<or> hr_path hr = ''/health'' \<or> infercoreAuthOK hr key)"

definition taken :: "'x gateway_env \<Rightarrow> http_request \<Rightarrow> AIRequest option" where
  "taken env hr = (if passes env hr \<and> hr_path hr = ''/infer'' then accepted hr else None)"

lemma with_ctx [simp]:
  "ledger_on (env\<lparr>ge_ctx := c\<rparr>) = ledger_on env"
  "passes (env\<lparr>ge_ctx := c\<rparr>) hr = passes env hr"
  "taken (env\<lparr>ge_ctx := c\<rparr>) hr = taken env hr"
  by (auto simp: ledger_on_def passes_def taken_def effectiveInfercoreAPIKey_def Let_def)

section \<open>One call\<close>

lemma answer_moves:
  "moves i w (emitTelemetryMetric env n v ls w)" "moves i w (emitTelemetryEvent ev w)"
  "moves i w (gw_first_token env k ts w)" "moves i w (gw_completion env k ts w)" "moves i w (gw_fallback env k w)"
  by (simp_all add: moves_def emitTelemetryMetric_def emitTelemetryEvent_def gw_first_token_def gw_completion_def
      gw_fallback_def tick_def slo_do_def Let_def split: option.split)

lemma writeAIResponse_moves: "moves i w (snd (writeAIResponse env p w))"
  unfolding writeAIResponse_def Let_def case_prod_beta snd_conv
  by (rule moves_trans[OF _ trace_moves(1)] moves_trans[OF _ answer_moves(1)] moves_trans[OF _ answer_moves(2)]
      moves_trans[OF _ answer_moves(4)] moves_trans[OF _ answer_moves(3)]
      moves_trans[OF _ answer_moves(5)] moves_trans[OF _ tick_moves]
      | (intro conjI impI) | simp add: answer_moves tick_moves)+

lemma writeAIResponse_id: "answer_id (fst (writeAIResponse env p w)) = sp_request_id p"
  by (simp add: writeAIResponse_def answer_id_def response_of_def Let_def split: prod.split)

lemma infer_moves:
  assumes "accepted hr = Some req" "infer env hr w = (a, w')"
  shows "moves (drawn_request w) (w\<lparr>gw_requests_total := gw_requests_total w + 1\<rparr>) w'"
    and "gw_ids_used w + 3 \<le> gw_ids_used w'" and "answer_id a = drawn_request w"
proof -
  let ?i = "drawn_request w"
  have run: "infer_accepted env (drawn_trace w) (drawn_span w) (now_of w) req (started w) = (a, w')"
    unfolding infer_accepts[OF assms(1), symmetric] by (rule assms(2))
  have st: "gw_ids (started w) (gw_ids_used (started w)) = ?i"
    "gw_ids_used (started w) = gw_ids_used w + 2" "gw_requests_total (started w) = gw_requests_total w"
    by (simp_all add: started_def drawn_request_def)
  let ?w1 = "started w\<lparr>gw_ids_used := gw_ids_used (started w) + 1,
      gw_requests_total := gw_requests_total (started w) + 1, gw_ticks := gw_ticks (started w) + 1\<rparr>"
  have "moves ?i ?w1 w' \<and> answer_id a = ?i"
  proof (rule infer_accepted_cases[OF run], unfold st(1))
    fix f sw w3
    assume "Run (inferOrchestrator env (drawn_trace w) ?i (tenant_id req))
        (server_input env (drawn_trace w) (drawn_span w) (now_of w) ?i (req\<lparr>request_id := ?i\<rparr>)) ?w1 = (Inl f, sw, w3)"
      and a: "w' = w3" "a = writeError (f_http_status f) ?i (f_error_code f) (f_message f)"
    from gwframe.Run_moves[OF this(1)] a show ?thesis
      by (simp add: server_input_def answer_id_def writeError_def)
  next
    fix su sw w3 p
    assume "Run (inferOrchestrator env (drawn_trace w) ?i (tenant_id req))
        (server_input env (drawn_trace w) (drawn_span w) (now_of w) ?i (req\<lparr>request_id := ?i\<rparr>)) ?w1 = (Inr su, sw, w3)"
      and a: "writeAIResponse env p w3 = (a, w')" "sp_request_id p = ?i"
    from gwframe.Run_moves[OF this(1)] have "moves ?i ?w1 w3" by (simp add: server_input_def)
    moreover have "moves ?i w3 w'" using writeAIResponse_moves[of ?i w3 env p] a(1) by simp
    ultimately show ?thesis
      using writeAIResponse_id[of env p w3] a moves_trans[of ?i ?w1 w3 w'] by simp
  qed
  then show "moves ?i (w\<lparr>gw_requests_total := gw_requests_total w + 1\<rparr>) w'"
    "gw_ids_used w + 3 \<le> gw_ids_used w'" "answer_id a = ?i"
    by (auto simp: moves_def started_def)
qed

text \<open>A call that does not enter the pipeline leaves counters, ledger and slots alone.\<close>

definition idle :: "'x gateway \<Rightarrow> 'x gateway \<Rightarrow> bool" where
  "idle w w' \<longleftrightarrow>
     gw_ids w' = gw_ids w \<and> gw_ids_used w \<le> gw_ids_used w' \<and> gw_inflight w' = gw_inflight w
     \<and> gw_requests_total w' = gw_requests_total w \<and> gw_http_total w' = gw_http_total w
     \<and> gw_ledger w' = gw_ledger w"

lemma infer_idle: "accepted hr = None \<Longrightarrow> idle w (snd (infer env hr w))"
  using infer_refuses[of hr env w]
  by (auto simp: refused_def idle_def emitInferTrace_def started_def tick_def Let_def)

lemma mux_idle:
  assumes "hr_path hr = ''/infer'' \<Longrightarrow> accepted hr = None"
  shows "idle w (snd (mux env prom hr w))"
proof (cases "hr_path hr = ''/infer''")
  case True
  then show ?thesis using infer_idle[OF assms] by (simp add: mux_def)
next
  case False
  have "idle w (snd (status_handler env w))"
    using component_moves(4)[of "[]" w env] component_frame(7,8)[of env w]
    by (cases "gw_cached_health env w") (simp add: status_handler_def idle_def moves_def tick_def Let_def)
  then show ?thesis using False by (simp add: mux_def idle_def)
qed

lemma Routes_outcome:
  assumes "Routes env prom hr w = (a, w')"
  shows "(passes env hr \<longrightarrow> (\<exists>w1. mux env prom hr w = (a, w1)
            \<and> w' = w1\<lparr>gw_http_total := (gw_http_total w1)((hr_path hr, hr_method hr, fst a)
                := gw_http_total w1 (hr_path hr, hr_method hr, fst a) + 1)\<rparr>))
       \<and> (\<not> passes env hr \<longrightarrow> w' = w)"
  using assms
  by (auto simp: Routes_def withOptionalInfercoreAuth_def passes_def withRequestLoggingAndMetrics_def Let_def
      split: if_splits prod.splits)

text \<open>The ids of the rows are ids drawn before, so that the next one is new.\<close>

definition known_ids :: "'x gateway \<Rightarrow> bool" where
  "known_ids w \<longleftrightarrow> inj (gw_ids w)
     \<and> dom (map_of (ms_requests (gw_ledger w))) \<subseteq> gw_ids w ` {..<gw_ids_used w}"

lemma next_id_new: "known_ids w \<Longrightarrow> map_of (ms_requests (gw_ledger w)) (drawn_request w) = None"
  by (fastforce simp: known_ids_def drawn_request_def dom_def subset_iff dest: injD)

lemma call_refused: "serve_call env prom c w = (a, w') \<Longrightarrow> \<not> passes env (snd c) \<Longrightarrow> w' = w"
  using Routes_outcome[of "env\<lparr>ge_ctx := fst c\<rparr>" prom "snd c" w a w'] by (simp add: serve_call_def)

lemma call_passed:
  assumes "serve_call env prom c w = (a, w')" "passes env (snd c)"
  obtains w1 where "mux (env\<lparr>ge_ctx := fst c\<rparr>) prom (snd c) w = (a, w1)"
    and "w' = w1\<lparr>gw_http_total := gw_http_total w'\<rparr>"
    and "gw_http_total w' = (gw_http_total w1)((hr_path (snd c), hr_method (snd c), fst a)
            := gw_http_total w1 (hr_path (snd c), hr_method (snd c), fst a) + 1)"
proof -
  obtain w1 where "mux (env\<lparr>ge_ctx := fst c\<rparr>) prom (snd c) w = (a, w1)"
    "w' = w1\<lparr>gw_http_total := (gw_http_total w1)((hr_path (snd c), hr_method (snd c), fst a)
            := gw_http_total w1 (hr_path (snd c), hr_method (snd c), fst a) + 1)\<rparr>"
    using Routes_outcome[OF assms(1)[unfolded serve_call_def]] assms(2) by auto
  then show ?thesis by (intro that) simp_all
qed

lemma call_idle:
  assumes "serve_call env prom c w = (a, w')" "taken env (snd c) = None"
  shows "idle w (w'\<lparr>gw_http_total := gw_http_total w\<rparr>)"
proof (cases "passes env (snd c)")
  case False
  then show ?thesis using call_refused[OF assms(1)] by (simp add: idle_def)
next
  case True
  obtain w1 where w1: "mux (env\<lparr>ge_ctx := fst c\<rparr>) prom (snd c) w = (a, w1)"
    "w' = w1\<lparr>gw_http_total := gw_http_total w'\<rparr>" by (rule call_passed[OF assms(1) True])
  have "accepted (snd c) = None" if "hr_path (snd c) = ''/infer''"
    using assms(2) True that by (simp add: taken_def)
  then have "idle w w1" using mux_idle[of "snd c" w "env\<lparr>ge_ctx := fst c\<rparr>" prom] w1(1) by simp
  then show ?thesis by (subst w1(2)) (simp add: idle_def)
qed

lemma call_taken:
  assumes "serve_call env prom c w = (a, w')" "taken env (snd c) = Some req" "known_ids w"
  shows "answer_id a = drawn_request w \<and> gw_inflight w' = gw_inflight w \<and> gw_ids_used w + 3 \<le> gw_ids_used w'
     \<and> moves (drawn_request w) (w\<lparr>gw_requests_total := gw_requests_total w + 1\<rparr>) (w'\<lparr>gw_http_total := gw_http_total w\<rparr>)
     \<and> (ledger_on env \<longrightarrow> settled (drawn_request w) (request_type req) (fst a) (gw_ledger w'))"
proof -
  let ?env = "env\<lparr>ge_ctx := fst c\<rparr>"
  have t: "passes env (snd c)" "hr_path (snd c) = ''/infer''" "accepted (snd c) = Some req"
    using assms(2) by (auto simp: taken_def split: if_splits)
  obtain w1 where "mux ?env prom (snd c) w = (a, w1)" and w1h: "w' = w1\<lparr>gw_http_total := gw_http_total w'\<rparr>"
    by (rule call_passed[OF assms(1) t(1)])
  then have w1: "infer ?env (snd c) w = (a, w1)" "w' = w1\<lparr>gw_http_total := gw_http_total w'\<rparr>"
    using t(2) by (simp_all add: mux_def)
  have "infer ?env (snd c) w = ((fst a, snd a), w1)" using w1(1) by simp
  note o = infer_settled[OF t(3) next_id_new[OF assms(3)] this] and m = infer_moves[OF t(3) w1(1)]
  have "gw_inflight w' = gw_inflight w1" "gw_ids_used w' = gw_ids_used w1" "gw_ledger w' = gw_ledger w1"
    by (subst w1(2), simp)+
  moreover have "w'\<lparr>gw_http_total := gw_http_total w\<rparr> = w1\<lparr>gw_http_total := gw_http_total w\<rparr>"
    by (subst w1(2)) simp
  moreover have "w1\<lparr>gw_http_total := gw_http_total w\<rparr> = w1" using m(1) by (simp add: moves_def)
  ultimately show ?thesis using o m by simp
qed

section \<open>Any history of calls\<close>

text \<open>The calls that entered the pipeline, with their answers.\<close>

definition entered :: "'x gateway_env \<Rightarrow> call list \<Rightarrow> http_answer list \<Rightarrow> (call \<times> http_answer) list" where
  "entered env cs as = filter (\<lambda>(c, a). taken env (snd c) \<noteq> None) (zip cs as)"

definition answered_ids :: "'x gateway_env \<Rightarrow> call list \<Rightarrow> http_answer list \<Rightarrow> string list" where
  "answered_ids env cs as = map (answer_id \<circ> snd) (entered env cs as)"

definition http_calls ::
  "'x gateway_env \<Rightarrow> call list \<Rightarrow> http_answer list \<Rightarrow> string \<times> string \<times> int \<Rightarrow> nat" where
  "http_calls env cs as k =
     length (filter (\<lambda>(c, a). passes env (snd c) \<and> (hr_path (snd c), hr_method (snd c), fst a) = k) (zip cs as))"

lemma entered_Cons:
  "entered env (c # cs) (a # as) = (if taken env (snd c) = None then [] else [(c, a)]) @ entered env cs as"
  by (simp add: entered_def)

lemma answered_ids_Cons:
  "answered_ids env (c # cs) (a # as)
     = (if taken env (snd c) = None then [] else [answer_id a]) @ answered_ids env cs as"
  by (simp add: answered_ids_def entered_Cons)

lemma serve_calls_counts:
  assumes "serve_calls env prom cs w = (as, w')"
  shows "length as = length cs \<and> (\<forall>k. gw_http_total w' k = gw_http_total w k + http_calls env cs as k)"
  using assms
proof (induction cs arbitrary: w as)
  case Nil
  then show ?case by (simp add: http_calls_def)
next
  case (Cons c cs)
  obtain a w1 where c: "serve_call env prom c w = (a, w1)" by (cases "serve_call env prom c w")
  obtain as1 where r: "serve_calls env prom cs w1 = (as1, w')" "as = a # as1"
    using Cons.prems c by (auto split: prod.splits)
  have "gw_http_total w1 k = gw_http_total w k + (if passes env (snd c)
      \<and> (hr_path (snd c), hr_method (snd c), fst a) = k then 1 else 0)" for k
  proof (cases "passes env (snd c)")
    case False
    then show ?thesis using call_refused[OF c] by simp
  next
    case True
    obtain w2 where w2: "mux (env\<lparr>ge_ctx := fst c\<rparr>) prom (snd c) w = (a, w2)"
      "gw_http_total w1 = (gw_http_total w2)((hr_path (snd c), hr_method (snd c), fst a)
          := gw_http_total w2 (hr_path (snd c), hr_method (snd c), fst a) + 1)"
      by (rule call_passed[OF c True])
    have "gw_http_total w2 = gw_http_total w"
    proof (cases "taken env (snd c)")
      case None
      then have "hr_path (snd c) = ''/infer'' \<Longrightarrow> accepted (snd c) = None" using True by (simp add: taken_def)
      then show ?thesis using mux_idle[of "snd c" w "env\<lparr>ge_ctx := fst c\<rparr>" prom] w2(1) by (simp add: idle_def)
    next
      case (Some req)
      then have "accepted (snd c) = Some req" "infer (env\<lparr>ge_ctx := fst c\<rparr>) (snd c) w = (a, w2)"
        using w2(1) by (auto simp: taken_def mux_def split: if_splits)
      from infer_moves(1)[OF this] show ?thesis by (simp add: moves_def)
    qed
    then show ?thesis using w2(2) True by auto
  qed
  then show ?case using Cons.IH[OF r(1)] r(2) by (auto simp: http_calls_def)
qed

text \<open>What a ledger says of a request.\<close>

definition same_row :: "string \<Rightarrow> 'x gateway \<Rightarrow> 'x gateway \<Rightarrow> bool" where
  "same_row j w w' \<longleftrightarrow> map_of (ms_requests (gw_ledger w')) j = map_of (ms_requests (gw_ledger w)) j
     \<and> steps_of (gw_ledger w') j = steps_of (gw_ledger w) j"

lemma same_row_trans: "same_row j a b \<Longrightarrow> same_row j b c \<Longrightarrow> same_row j a c"
  by (simp add: same_row_def)

lemma settled_same_row: "same_row i w w' \<Longrightarrow> settled i ty st (gw_ledger w') = settled i ty st (gw_ledger w)"
  by (simp add: same_row_def settled_def)

lemma known_ids_more:
  assumes "known_ids w" "gw_ids w' = gw_ids w" "gw_ids_used w \<le> gw_ids_used w'"
    and "\<And>j. j \<noteq> gw_ids w n \<Longrightarrow> same_row j w w'" "n < gw_ids_used w'"
  shows "known_ids w'"
proof -
  have "j \<in> gw_ids w ` {..<gw_ids_used w'}" if "map_of (ms_requests (gw_ledger w')) j \<noteq> None" for j
  proof (cases "j = gw_ids w n")
    case True
    then show ?thesis using assms(5) by simp
  next
    case False
    then have "j \<in> gw_ids w ` {..<gw_ids_used w}"
      using that assms(1,4) by (auto simp: same_row_def known_ids_def)
    then show ?thesis using assms(3) by (force simp: image_iff)
  qed
  then show ?thesis using assms(1,2) by (auto simp: known_ids_def)
qed

lemma call_step:
  assumes "serve_call env prom c w = (a, w1)" "known_ids w"
  shows "known_ids w1 \<and> gw_ids w1 = gw_ids w \<and> gw_ids_used w \<le> gw_ids_used w1 \<and> gw_inflight w1 = gw_inflight w
     \<and> gw_requests_total w1 = gw_requests_total w + (if taken env (snd c) = None then 0 else 1)
     \<and> (\<forall>j. taken env (snd c) = None \<or> j \<noteq> answer_id a \<longrightarrow> same_row j w w1)
     \<and> (\<forall>req. taken env (snd c) = Some req \<longrightarrow>
           (\<exists>n. gw_ids_used w \<le> n \<and> n < gw_ids_used w1 \<and> answer_id a = gw_ids w n)
           \<and> (ledger_on env \<longrightarrow> settled (answer_id a) (request_type req) (fst a) (gw_ledger w1)))"
proof (cases "taken env (snd c)")
  case None
  have i: "idle w (w1\<lparr>gw_http_total := gw_http_total w\<rparr>)" by (rule call_idle[OF assms(1) None])
  then show ?thesis using None assms(2) by (auto simp: idle_def known_ids_def same_row_def)
next
  case (Some req)
  note t = call_taken[OF assms(1) Some assms(2)]
  have a: "answer_id a = gw_ids w (gw_ids_used w + 2)" using t by (simp add: drawn_request_def)
  have m: "gw_ids w1 = gw_ids w" "gw_requests_total w1 = gw_requests_total w + 1"
    "\<And>j. j \<noteq> answer_id a \<Longrightarrow> same_row j w w1"
    using t by (auto simp: moves_def same_row_def)
  have n: "gw_ids_used w + 2 < gw_ids_used w1" using t by simp
  have "known_ids w1" by (rule known_ids_more[OF assms(2) m(1) _ _ n]) (use n m(3) a in auto)
  moreover have "\<exists>n. gw_ids_used w \<le> n \<and> n < gw_ids_used w1 \<and> answer_id a = gw_ids w n"
    using n a by (intro exI[of _ "gw_ids_used w + 2"]) simp
  ultimately show ?thesis using Some t m by simp
qed

lemma serve_calls_ledger:
  assumes "serve_calls env prom cs w = (as, w')" "known_ids w"
  shows "gw_ids w' = gw_ids w \<and> gw_ids_used w \<le> gw_ids_used w' \<and> gw_inflight w' = gw_inflight w
     \<and> gw_requests_total w' = gw_requests_total w + length (entered env cs as)
     \<and> distinct (answered_ids env cs as)
     \<and> set (answered_ids env cs as) \<subseteq> gw_ids w ` {gw_ids_used w..<gw_ids_used w'}
     \<and> (\<forall>j. j \<notin> set (answered_ids env cs as) \<longrightarrow> same_row j w w')
     \<and> (ledger_on env \<longrightarrow> (\<forall>(c, a) \<in> set (entered env cs as).
           settled (answer_id a) (request_type (the (taken env (snd c)))) (fst a) (gw_ledger w')))"
  using assms
proof (induction cs arbitrary: w as)
  case Nil
  then show ?case by (simp add: entered_def answered_ids_def same_row_def)
next
  case (Cons c cs)
  obtain a w1 where c: "serve_call env prom c w = (a, w1)" by (cases "serve_call env prom c w")
  obtain as1 where r: "serve_calls env prom cs w1 = (as1, w')" "as = a # as1"
    using Cons.prems(1) c by (auto split: prod.splits)
  note st = call_step[OF c Cons.prems(2)]
  then have "known_ids w1" by simp
  note IH = Cons.IH[OF r(1) this]
  have ids: "gw_ids w1 = gw_ids w" "gw_ids_used w \<le> gw_ids_used w1" "gw_ids_used w1 \<le> gw_ids_used w'" "inj (gw_ids w)"
    using st IH Cons.prems(2) by (simp_all add: known_ids_def)
  have later: "set (answered_ids env cs as1) \<subseteq> gw_ids w ` {gw_ids_used w1..<gw_ids_used w'}"
    using IH ids(1) by simp
  show ?case
  proof (cases "taken env (snd c)")
    case None
    have "gw_ids w ` {gw_ids_used w1..<gw_ids_used w'} \<subseteq> gw_ids w ` {gw_ids_used w..<gw_ids_used w'}"
      using ids(2) by (intro image_mono) auto
    then show ?thesis using st IH later None ids
      by (auto simp: r(2) entered_Cons answered_ids_Cons intro: same_row_trans)
  next
    case (Some req)
    obtain n where n: "gw_ids_used w \<le> n" "n < gw_ids_used w1" "answer_id a = gw_ids w n" using st Some by auto
    have new: "answer_id a \<notin> set (answered_ids env cs as1)"
    proof
      assume "answer_id a \<in> set (answered_ids env cs as1)"
      then have "gw_ids w n \<in> gw_ids w ` {gw_ids_used w1..<gw_ids_used w'}" using later n(3) by (auto dest: subsetD)
      then obtain k where "gw_ids_used w1 \<le> k" "gw_ids w k = gw_ids w n" by auto
      then show False using n(2) ids(4) by (simp add: inj_eq)
    qed
    have "same_row (answer_id a) w1 w'" using IH new by simp
    then have "ledger_on env \<Longrightarrow> settled (answer_id a) (request_type req) (fst a) (gw_ledger w')"
      using st Some by (simp add: settled_same_row)
    moreover have "set (answered_ids env (c # cs) as) \<subseteq> gw_ids w ` {gw_ids_used w..<gw_ids_used w'}"
    proof -
      have "gw_ids w ` {gw_ids_used w1..<gw_ids_used w'} \<subseteq> gw_ids w ` {gw_ids_used w..<gw_ids_used w'}"
        using ids(2) by (intro image_mono) auto
      then show ?thesis using later n ids(3) Some by (auto simp: r(2) answered_ids_Cons)
    qed
    ultimately show ?thesis using st IH new ids Some
      by (auto simp: r(2) entered_Cons answered_ids_Cons intro: same_row_trans)
  qed
qed

section \<open>Properties\<close>

lemma fresh_gateway_known: "inj ids \<Longrightarrow> known_ids (fresh_gateway cfg clock ids x)"
  by (simp add: known_ids_def fresh_gateway_def NewMemoryStore_def)


section \<open>Witness\<close>

definition demo_outside :: "nat outside" where
  "demo_outside =
     \<lparr>os_net = echo_net (sse_in [] None) (\<lambda>_. None), os_aws = no_aws,
      os_platform = \<lparr>pl_lower = id, pl_word = (\<lambda>_. True), pl_sort = id, pl_status = (\<lambda>_. [])\<rparr>,
      os_walk = (\<lambda>_. Inr []), os_budget = second, os_ctx = (\<lambda>_. None), os_iter = id, os_sorter = id,
      os_api_key = [], os_telemetry = []\<rparr>"

definition demo_calls :: "call list" where
  "demo_calls = [((\<lambda>_. None), demo_post), ((\<lambda>_. None), demo_post\<lparr>hr_api_key := ''x''\<rparr>),
     ((\<lambda>_. None), demo_post\<lparr>hr_method := ''GET''\<rparr>)]"


end
