(* ===== verification/Shared_State.thy ===== *)
theory Shared_State
  imports Service
begin

text \<open>
  The pipeline on a state that other goroutines change. \<open>Run\<close> (\<open>internal/inferexec/orchestrator.go\<close>)
  works on the shared state of the server through its components, and each use of a component is
  atomic (a mutex, an atomic counter, or a state of the request's own); between two uses others may
  run. \<open>disturbed\<close> gives the components on a shared state: before each action the state becomes
  what the others made of it, and each action is logged. \<open>shared_alone\<close>: when nobody else acts, this
  is \<open>Run\<close>.
\<close>

section \<open>Actions on a shared state\<close>

text \<open>
  The state as a call left it and the log of its actions: the state each action found and the one
  it left. \<open>es k\<close> is what the others make of the state before the call's action number \<open>k\<close>.
\<close>

type_synonym 'g log = "('g \<times> 'g) list"
type_synonym 'g others = "nat \<Rightarrow> 'g \<Rightarrow> 'g"

definition found_at :: "'g others \<Rightarrow> 'g \<times> 'g log \<Rightarrow> 'g" where
  "found_at es w = es (length (snd w)) (fst w)"

definition act :: "'g others \<Rightarrow> ('g \<Rightarrow> 'r \<times> 'g) \<Rightarrow> 'g \<times> 'g log \<Rightarrow> 'r \<times> ('g \<times> 'g log)" where
  "act es f w = (let b = found_at es w; (r, a) = f b in (r, (a, snd w @ [(b, a)])))"

definition act_on :: "'g others \<Rightarrow> ('g \<Rightarrow> 'g) \<Rightarrow> 'g \<times> 'g log \<Rightarrow> 'g \<times> 'g log" where
  "act_on es f w = snd (act es (\<lambda>g. ((), f g)) w)"

lemma act_simps:
  "fst (act es f w) = fst (f (found_at es w))"
  "snd (act es f w) = (snd (f (found_at es w)), snd w @ [(found_at es w, snd (f (found_at es w)))])"
  "act_on es h w = (h (found_at es w), snd w @ [(found_at es w, h (found_at es w))])"
  by (simp_all add: act_def act_on_def Let_def case_prod_beta)

section \<open>The components on a shared state\<close>

definition disturbed_steps :: "'g others \<Rightarrow> 'g step_env \<Rightarrow> ('g \<times> 'g log) step_env" where
  "disturbed_steps es se =
     \<lparr>env_store = map_option (\<lambda>wr row. act es (wr row)) (env_store se),
      env_onstep = map_option (\<lambda>hk ty be st t lat. act_on es (hk ty be st t lat)) (env_onstep se),
      env_tick = act es (env_tick se)\<rparr>"

definition disturbed_ledger :: "'g others \<Rightarrow> 'g orch_ledger \<Rightarrow> ('g \<times> 'g log) orch_ledger" where
  "disturbed_ledger es l =
     \<lparr>ol_create = (\<lambda>tr i r t. act_on es (ol_create l tr i r t)), ol_fail = (\<lambda>i. act_on es (ol_fail l i)),
      ol_policy = (\<lambda>i s rr be. act_on es (ol_policy l i s rr be)),
      ol_success = (\<lambda>i be rr. act_on es (ol_success l i be rr))\<rparr>"

text \<open>The reads of \<open>o_inflight\<close> and \<open>o_ctx_err\<close> see the state that the next action finds.\<close>

definition disturbed ::
  "'g others \<Rightarrow> 'g orchestrator
     \<Rightarrow> (StepWriter option \<Rightarrow> AIRequest \<Rightarrow> 'g \<times> 'g log
          \<Rightarrow> (goerr option \<times> AIRequest) \<times> StepWriter option \<times> ('g \<times> 'g log))
     \<Rightarrow> ('g \<times> 'g log) orchestrator" where
  "disturbed es ops rag =
     \<lparr>o_evaluate = (\<lambda>r. act es (o_evaluate ops r)), o_route = (\<lambda>r st. act es (o_route ops r st)),
      o_execute = (\<lambda>r p fb. act es (o_execute ops r p fb)),
      o_slo_start = map_option (\<lambda>f i. act_on es (f i)) (o_slo_start ops),
      o_ledger = map_option (disturbed_ledger es) (o_ledger ops),
      o_cached_health = map_option (act es) (o_cached_health ops),
      o_inflight = (\<lambda>w. o_inflight ops (found_at es w)),
      o_begin = map_option (act es) (o_begin ops), o_release = act_on es (o_release ops),
      o_rag = Some rag, o_fallback = o_fallback ops,
      o_note_timeout = map_option (\<lambda>f e. act_on es (f e)) (o_note_timeout ops),
      o_parse_rag = o_parse_rag ops, o_ctx_err = (\<lambda>w. o_ctx_err ops (found_at es w)),
      o_now = act es (o_now ops), o_steps = disturbed_steps es (o_steps ops)\<rparr>"

definition disturbed_input :: "'g others \<Rightarrow> 'g run_input \<Rightarrow> ('g \<times> 'g log) run_input" where
  "disturbed_input es inp =
     \<lparr>in_trace_id = in_trace_id inp, in_request_id = in_request_id inp, in_req = in_req inp,
      in_sw = in_sw inp, in_emit = map_option (\<lambda>em b r. act_on es (em b r)) (in_emit inp)\<rparr>"

definition sharedOrchestrator ::
  "'x gateway others \<Rightarrow> 'x gateway_env \<Rightarrow> string \<Rightarrow> string \<Rightarrow> string
     \<Rightarrow> ('x gateway \<times> 'x gateway log) orchestrator" where
  "sharedOrchestrator es env tr i tenant =
     disturbed es (inferOrchestrator env tr i tenant)
       (runRAGPipeline (\<lambda>retrieve q. act es (retrieve_fn retrieve q)) env
         (disturbed_steps es (steps_env env tr i tenant)))"

lemma disturbed_input_simps [simp]:
  "in_request_id (disturbed_input es inp) = in_request_id inp" "in_req (disturbed_input es inp) = in_req inp"
  "in_sw (disturbed_input es inp) = in_sw inp"
  by (simp_all add: disturbed_input_def)

section \<open>A call alone\<close>

text \<open>When nobody else acts, the pipeline on the shared state is \<open>Run\<close> on the state.\<close>

definition nobody :: "'g others" where
  "nobody k g = g"

lemma act_nobody [simp]:
  "fst (act nobody f w) = fst (f (fst w))" "fst (snd (act nobody f w)) = snd (f (fst w))"
  "fst (act_on nobody h w) = h (fst w)" "found_at nobody w = fst w"
  by (simp_all add: act_simps found_at_def nobody_def)

definition state_of :: "'a \<times> 'b \<times> ('g \<times> 'g log) \<Rightarrow> 'a \<times> 'b \<times> 'g" where
  "state_of = map_prod id (map_prod id fst)"

lemma state_of_eq:
  "state_of x = y \<longleftrightarrow> fst x = fst y \<and> fst (snd x) = fst (snd y) \<and> fst (snd (snd x)) = snd (snd y)"
  by (auto simp: state_of_def prod_eq_iff)

lemma state_of_pair: "state_of x = (r, sw, g) \<Longrightarrow> \<exists>l. x = (r, sw, (g, l))"
  by (cases x) (auto simp: state_of_def)

lemma step_alone:
  assumes "\<And>v. fst (fn' v) = fst (fn (fst v)) \<and> fst (snd (fn' v)) = snd (fn (fst v))"
  shows "state_of (StepRun (disturbed_steps nobody se) ty be m fn' sw w) = StepRun se ty be m fn sw (fst w)"
proof (cases sw)
  case None
  then show ?thesis using assms[of w] by (simp add: state_of_eq StepRun_def case_prod_beta)
next
  case (Some sw0)
  then show ?thesis
    by (auto simp: state_of_eq StepRun_def disturbed_steps_def case_prod_beta Let_def assms split: option.split)
qed

lemma plain_step_alone:
  "state_of (plain_step (disturbed nobody ops rag) ty be m out sw w) = plain_step ops ty be m out sw (fst w)"
  using step_alone[of "\<lambda>w. ((fst out, snd out, ()), w)" "\<lambda>w. ((fst out, snd out, ()), w)" "o_steps ops" ty be m sw w]
  by (simp add: state_of_eq plain_step_def disturbed_def case_prod_beta)

lemma plain_step_pair:
  "plain_step ops ty be m out sw g = (e, sw', g') \<Longrightarrow>
     \<exists>l'. plain_step (disturbed nobody ops rag) ty be m out sw (g, l) = (e, sw', (g', l'))"
  using state_of_pair[of "plain_step (disturbed nobody ops rag) ty be m out sw (g, l)" e sw' g']
  by (simp add: plain_step_alone)

lemma optional_alone [simp]:
  "fst (note_timeout (disturbed nobody ops rag) e w) = note_timeout ops e (fst w)"
  "fst (emit_trace (disturbed_input nobody inp) b r w) = emit_trace inp b r (fst w)"
  "fst (failLedger (disturbed nobody ops rag) i w) = failLedger ops i (fst w)"
  by (simp_all add: note_timeout_def emit_trace_def failLedger_def disturbed_def disturbed_input_def disturbed_ledger_def
      split: option.split)

lemmas plain_alone [simp] = plain_step_alone[unfolded state_of_eq]

lemma run_backend_alone:
  "state_of (run_backend (disturbed nobody ops rag) (disturbed_input nobody inp) pd dg h pr req sw w)
     = run_backend ops inp pd dg h pr req sw (fst w)"
proof -
  define fb where "fb = (case o_fallback ops of None \<Rightarrow> [] | Some f \<Rightarrow> f (backend_name pr) h)"
  have ex: "state_of (StepRun (disturbed_steps nobody (o_steps ops)) StepBackendCall (backend_name pr) m
       (\<lambda>w. case act nobody (o_execute ops req pr fb) w of
          ((res, Some e), w') \<Rightarrow> ((Some [(''status'', VStr (ex_status res))], Some e, res), w')
        | ((res, None), w') \<Rightarrow>
           ((Some [(''status'', VStr (ex_status res)), (''backend'', VStr (ex_backend_name res))], None, res), w'))
       sw v)
     = StepRun (o_steps ops) StepBackendCall (backend_name pr) m
       (\<lambda>w. case o_execute ops req pr fb w of
          ((res, Some e), w') \<Rightarrow> ((Some [(''status'', VStr (ex_status res))], Some e, res), w')
        | ((res, None), w') \<Rightarrow>
           ((Some [(''status'', VStr (ex_status res)), (''backend'', VStr (ex_backend_name res))], None, res), w'))
       sw (fst v)" for m v
    by (rule step_alone) (simp add: case_prod_beta split: option.split)
  note [simp] = ex[unfolded state_of_eq]
  have proj: "o_fallback (disturbed nobody ops rag) = o_fallback ops" "o_now (disturbed nobody ops rag) = act nobody (o_now ops)"
    "o_steps (disturbed nobody ops rag) = disturbed_steps nobody (o_steps ops)"
    "o_execute (disturbed nobody ops rag) q p f = act nobody (o_execute ops q p f)"
    "o_ctx_err (disturbed nobody ops rag) v = o_ctx_err ops (fst v)" for q p f v
    by (simp_all add: disturbed_def)
  have slo: "fst (case o_slo_start (disturbed nobody ops rag) of None \<Rightarrow> v | Some f \<Rightarrow> f i v)
      = (case o_slo_start ops of None \<Rightarrow> fst v | Some f \<Rightarrow> f i (fst v))" for i v
    by (simp add: disturbed_def split: option.split)
  have suc: "fst (case o_ledger (disturbed nobody ops rag) of None \<Rightarrow> v | Some l \<Rightarrow> ol_success l i a b v)
      = (case o_ledger ops of None \<Rightarrow> fst v | Some l \<Rightarrow> ol_success l i a b (fst v))" for i a b v
    by (simp add: disturbed_def disturbed_ledger_def split: option.split)
  obtain start g1 where n: "o_now ops (fst w) = (start, g1)" by (cases "o_now ops (fst w)")
  then obtain l1 where n': "act nobody (o_now ops) w = (start, (g1, l1))" by (metis act_nobody(1,2) fst_conv prod.collapse snd_conv)
  define w2 where "w2 = (case o_slo_start (disturbed nobody ops rag) of None \<Rightarrow> (g1, l1) | Some f \<Rightarrow> f (in_request_id inp) (g1, l1))"
  define g2 where "g2 = (case o_slo_start ops of None \<Rightarrow> g1 | Some f \<Rightarrow> f (in_request_id inp) g1)"
  have w2: "fst w2 = g2" unfolding w2_def g2_def slo by (simp only: fst_conv)
  let ?m = "[(''primary'', VStr (backend_name pr))]"
  let ?fn = "\<lambda>w. case o_execute ops req pr fb w of
          ((res, Some e), w') \<Rightarrow> ((Some [(''status'', VStr (ex_status res))], Some e, res), w')
        | ((res, None), w') \<Rightarrow>
           ((Some [(''status'', VStr (ex_status res)), (''backend'', VStr (ex_backend_name res))], None, res), w')"
  obtain err xr sw1 g3 where st: "StepRun (o_steps ops) StepBackendCall (backend_name pr) ?m ?fn sw g2 = ((err, xr), sw1, g3)"
    by (rule step_result_cases)
  obtain l3 where st': "StepRun (disturbed_steps nobody (o_steps ops)) StepBackendCall (backend_name pr) ?m
      (\<lambda>w. case act nobody (o_execute ops req pr fb) w of
          ((res, Some e), w') \<Rightarrow> ((Some [(''status'', VStr (ex_status res))], Some e, res), w')
        | ((res, None), w') \<Rightarrow>
           ((Some [(''status'', VStr (ex_status res)), (''backend'', VStr (ex_backend_name res))], None, res), w'))
      sw w2 = ((err, xr), sw1, (g3, l3))"
    using state_of_pair[OF ex[of ?m w2, unfolded w2 st]] by blast
  show ?thesis
  proof (cases err)
    case (Some e)
    then show ?thesis
      unfolding run_backend_def Let_def proj fb_def[symmetric] disturbed_input_simps n n' prod.case
        w2_def[symmetric] g2_def[symmetric] st st'
      by (auto simp: state_of_eq split: option.split)
  next
    case None
    obtain e2 sw2 g4 where fn: "plain_step ops StepFinalize (ex_backend_name xr) [(''status'', VStr (ex_status xr))]
        (Some [(''ok'', VBool True)], None) sw1 g3 = (e2, sw2, g4)" by (rule prod_cases3)
    then obtain l4 where fn': "plain_step (disturbed nobody ops rag) StepFinalize (ex_backend_name xr)
        [(''status'', VStr (ex_status xr))] (Some [(''ok'', VBool True)], None) sw1 (g3, l3) = (e2, sw2, (g4, l4))"
      using plain_step_pair[OF fn] by blast
    show ?thesis using None
      unfolding run_backend_def Let_def proj fb_def[symmetric] disturbed_input_simps n n' prod.case
        w2_def[symmetric] g2_def[symmetric] st st'
      by (simp add: fn fn' state_of_eq suc split: option.split)
  qed
qed

definition rag_alone ::
  "'g orchestrator
     \<Rightarrow> (StepWriter option \<Rightarrow> AIRequest \<Rightarrow> 'g \<times> 'g log
          \<Rightarrow> (goerr option \<times> AIRequest) \<times> StepWriter option \<times> ('g \<times> 'g log)) \<Rightarrow> bool" where
  "rag_alone ops rag \<longleftrightarrow> (\<exists>rag0. o_rag ops = Some rag0 \<and> (\<forall>sw r w. state_of (rag sw r w) = rag0 sw r (fst w)))"

lemma run_retrieval_alone:
  assumes "rag_alone ops rag"
  shows "state_of (run_retrieval (disturbed nobody ops rag) (disturbed_input nobody inp) pd dg h pr req sw w)
     = run_retrieval ops inp pd dg h pr req sw (fst w)"
proof (cases "request_type req = RequestTypeRAG")
  case True
  obtain rag0 where r0: "o_rag ops = Some rag0" "\<And>sw r w. state_of (rag sw r w) = rag0 sw r (fst w)"
    using assms by (auto simp: rag_alone_def)
  obtain e req' sw1 g1 where r: "rag0 sw req (fst w) = ((e, req'), sw1, g1)" by (rule step_result_cases)
  then obtain l1 where r': "rag sw req w = ((e, req'), sw1, (g1, l1))"
    using state_of_pair r0(2) by metis
  have proj: "o_rag (disturbed nobody ops rag) = Some rag" "o_parse_rag (disturbed nobody ops rag) = o_parse_rag ops"
    by (simp_all add: disturbed_def)
  show ?thesis
    using run_backend_alone[of ops rag inp pd dg h pr req' sw1 "(g1, l1)"] True
    by (cases e) (auto simp: run_retrieval_def proj r0(1) r r' Let_def state_of_def split: option.split prod.split)
qed (simp add: run_retrieval_def run_backend_alone)

lemma run_admitted_alone:
  assumes "rag_alone ops rag"
  shows "state_of (run_admitted (disturbed nobody ops rag) (disturbed_input nobody inp) (act nobody cached) pd dg req sw (g, l))
     = run_admitted ops inp cached pd dg req sw g"
proof -
  have proj: "o_inflight (disturbed nobody ops rag) v = o_inflight ops (fst v)"
    "o_route (disturbed nobody ops rag) q st = act nobody (o_route ops q st)"
    "o_ctx_err (disturbed nobody ops rag) v = o_ctx_err ops (fst v)" for v q st
    by (simp_all add: disturbed_def)
  have pol: "fst (case o_ledger (disturbed nobody ops rag) of None \<Rightarrow> v | Some l \<Rightarrow> ol_policy l i sn a b v)
      = (case o_ledger ops of None \<Rightarrow> fst v | Some l \<Rightarrow> ol_policy l i sn a b (fst v))" for i sn a b v
    by (simp add: disturbed_def disturbed_ledger_def split: option.split)
  have pair: "\<exists>l'. act nobody f (s, l) = (r, (s', l'))" if "f s = (r, s')" for f :: "'a \<Rightarrow> 'r \<times> 'a" and s l r s'
    using that by (simp add: act_def found_at_def nobody_def)
  obtain e1 sw1 g1 where s1: "plain_step ops StepAdmission [] [(''queue_depth'', VInt (o_inflight ops g))]
      (Some [(''overload_degrade'', VBool dg)], None) sw g = (e1, sw1, g1)" by (rule prod_cases3)
  then obtain l1 where s1': "plain_step (disturbed nobody ops rag) StepAdmission [] [(''queue_depth'', VInt (o_inflight ops g))]
      (Some [(''overload_degrade'', VBool dg)], None) sw (g, l) = (e1, sw1, (g1, l1))"
    using plain_step_pair[OF s1] by blast
  obtain health g2 where h: "cached g1 = (health, g2)" by (cases "cached g1")
  obtain l2 where h': "act nobody cached (g1, l1) = (health, (g2, l2))" using pair[of cached, OF h] by blast
  let ?st = "\<lparr>queue_depth = o_inflight ops g2, backend_health = health, recent_timeout_spike = False,
      overload_degrade = dg\<rparr>"
  obtain rt g3 where rt: "o_route ops req ?st g2 = (rt, g3)" by (cases "o_route ops req ?st g2")
  obtain l3 where rt': "act nobody (o_route ops req ?st) (g2, l2) = (rt, (g3, l3))" using pair[of "o_route ops req ?st", OF rt] by blast
  note unf = run_admitted_def Let_def proj disturbed_input_simps fst_conv s1 s1' prod.case h h' rt rt'
  show ?thesis
  proof (cases rt)
    case (Inl e)
    then show ?thesis unfolding unf by (auto simp: state_of_eq proj split: option.split)
  next
    case (Inr primary)
    let ?o = "(Some [(''backend'', VStr (backend_name primary)),
        (''estimated_cost'', VFloat (estimated_cost primary))], None)" and ?m = "[(''reason'', VStr (reason primary))]"
    obtain e2 sw2 g4 where s2: "plain_step ops StepRoute (backend_name primary) ?m ?o sw1 g3 = (e2, sw2, g4)"
      by (rule prod_cases3)
    then obtain l4 where s2': "plain_step (disturbed nobody ops rag) StepRoute (backend_name primary) ?m ?o sw1 (g3, l3)
        = (e2, sw2, (g4, l4))" using plain_step_pair[OF s2] by blast
    show ?thesis unfolding unf Inr sum.case s2 s2' run_retrieval_alone[OF assms] pol ..
  qed
qed

lemma run_allowed_alone:
  assumes "rag_alone ops rag"
  shows "state_of (run_allowed (disturbed nobody ops rag) (disturbed_input nobody inp) pd req sw (g, l))
     = run_allowed ops inp pd req sw g"
proof -
  have proj: "o_begin (disturbed nobody ops rag) = map_option (act nobody) (o_begin ops)"
    "o_cached_health (disturbed nobody ops rag) = map_option (act nobody) (o_cached_health ops)"
    "o_fallback (disturbed nobody ops rag) = o_fallback ops"
    "o_release (disturbed nobody ops rag) = act_on nobody (o_release ops)"
    by (simp_all add: disturbed_def)
  obtain e1 sw1 g1 where s1: "plain_step ops StepAgentStub [] [(''pipeline'', VStr (pipeline_ref req))]
      (None, Some (ErrText ''agent execution not implemented'')) sw g = (e1, sw1, g1)" by (rule prod_cases3)
  then obtain l1 where s1': "plain_step (disturbed nobody ops rag) StepAgentStub [] [(''pipeline'', VStr (pipeline_ref req))]
      (None, Some (ErrText ''agent execution not implemented'')) sw (g, l) = (e1, sw1, (g1, l1))"
    using plain_step_pair[OF s1] by blast
  have run: "state_of (case run_admitted (disturbed nobody ops rag) (disturbed_input nobody inp) (act nobody cached)
        pd dg req sw (s, m) of (res, sw1, w2) \<Rightarrow> (res, sw1, act_on nobody (o_release ops) w2))
     = (case run_admitted ops inp cached pd dg req sw s of (res, sw1, w2) \<Rightarrow> (res, sw1, o_release ops w2))"
    for cached dg s m
    using run_admitted_alone[OF assms, of inp cached pd dg req sw s m] by (auto simp: state_of_eq split: prod.split)
  show ?thesis
  proof (cases "request_type req = RequestTypeAgent")
    case True
    then show ?thesis by (simp add: run_allowed_def s1 s1' Let_def state_of_eq)
  next
    case False
    show ?thesis
    proof (cases "o_begin ops")
      case (Some bl)
      obtain dg rej g2 where b: "bl g = ((dg, rej), g2)" by (metis surj_pair)
      then have b': "\<exists>l2. act nobody bl (g, l) = ((dg, rej), (g2, l2))" by (simp add: act_def found_at_def nobody_def)
      then show ?thesis using False Some b run
        by (cases rej) (auto simp: run_allowed_def proj state_of_eq split: option.split)
    qed (use False in \<open>simp add: run_allowed_def proj state_of_eq\<close>)
  qed
qed

lemma Run_alone:
  assumes "rag_alone ops rag"
  shows "state_of (Run (disturbed nobody ops rag) (disturbed_input nobody inp) (g, l)) = Run ops inp g"
proof -
  let ?d = "disturbed nobody ops rag" and ?req = "in_req inp" and ?i = "in_request_id inp"
  have proj: "o_now ?d = act nobody (o_now ops)" "o_evaluate ?d r = act nobody (o_evaluate ops r)"
    "o_ctx_err ?d v = o_ctx_err ops (fst v)" for r v
    by (simp_all add: disturbed_def)
  have pair: "\<exists>l'. act nobody f (s, l) = (r, (s', l'))" if "f s = (r, s')" for f :: "'a \<Rightarrow> 'r \<times> 'a" and s l r s'
    using that by (simp add: act_def found_at_def nobody_def)
  have created: "\<exists>l'. (case o_ledger ?d of None \<Rightarrow> (s, l) | Some x \<Rightarrow> ol_create x tr i r t (s, l))
      = ((case o_ledger ops of None \<Rightarrow> s | Some x \<Rightarrow> ol_create x tr i r t s), l')" for tr i r t s l
    by (auto simp: disturbed_def disturbed_ledger_def act_simps found_at_def nobody_def split: option.split)
  obtain t g1 where n: "o_now ops g = (t, g1)" by (cases "o_now ops g")
  obtain l1 where n': "act nobody (o_now ops) (g, l) = (t, (g1, l1))" using pair[of "o_now ops", OF n] by blast
  define g2 where "g2 = (case o_ledger ops of None \<Rightarrow> g1 | Some x \<Rightarrow> ol_create x (in_trace_id inp) ?i ?req t g1)"
  obtain l2 where c': "(case o_ledger ?d of None \<Rightarrow> (g1, l1)
      | Some x \<Rightarrow> ol_create x (in_trace_id inp) ?i ?req t (g1, l1)) = (g2, l2)"
    using created[of g1 l1] unfolding g2_def by blast
  let ?m = "[(''request_type'', VStr (request_type ?req)), (''pipeline_ref'', VStr (pipeline_ref ?req))]"
  obtain e1 sw1 g3 where s1: "plain_step ops StepNormalize [] ?m (Some [(''ok'', VBool True)], None) (in_sw inp) g2
      = (e1, sw1, g3)" by (rule prod_cases3)
  obtain l3 where s1': "plain_step ?d StepNormalize [] ?m (Some [(''ok'', VBool True)], None) (in_sw inp) (g2, l2)
      = (e1, sw1, (g3, l3))" using plain_step_pair[OF s1] by blast
  obtain d g4 where v: "o_evaluate ops ?req g3 = (d, g4)" by (cases "o_evaluate ops ?req g3")
  obtain l4 where v': "act nobody (o_evaluate ops ?req) (g3, l3) = (d, (g4, l4))"
    using pair[of "o_evaluate ops ?req", OF v] by blast
  have in_d: "in_trace_id (disturbed_input nobody inp) = in_trace_id inp" by (simp add: disturbed_input_def)
  note unf = Run_def Let_def proj disturbed_input_simps in_d n n' prod.case c' g2_def[symmetric] s1 s1' v v'
  show ?thesis
  proof (cases d)
    case (Inl e)
    then show ?thesis unfolding unf by (auto simp: state_of_eq proj split: option.split)
  next
    case (Inr pd)
    let ?o = "if \<not> allowed pd then (Some [(''allowed'', VBool False), (''reason'', VStr (pd_reason pd))],
                Some (ErrText (''policy rejected: '' @ pd_reason pd)))
              else (Some [(''allowed'', VBool True), (''reason'', VStr (pd_reason pd))], None)"
    obtain e2 sw2 g5 where s2: "plain_step ops StepPolicyCheck [] [(''tenant_id'', VStr (tenant_id ?req))] ?o sw1 g4
        = (e2, sw2, g5)" by (rule prod_cases3)
    obtain l5 where s2': "plain_step ?d StepPolicyCheck [] [(''tenant_id'', VStr (tenant_id ?req))] ?o sw1 (g4, l4)
        = (e2, sw2, (g5, l5))" using plain_step_pair[OF s2] by blast
    show ?thesis
      unfolding unf Inr sum.case s2 s2'
      by (cases e2) (simp_all add: run_allowed_alone[OF assms], simp add: state_of_eq)
  qed
qed

lemma rag_pipeline_alone:
  "state_of (runRAGPipeline (\<lambda>retrieve q. act nobody (retrieve_fn retrieve q)) env (disturbed_steps nobody se) sw r w)
     = runRAGPipeline retrieve_fn env se sw r (fst w)"
proof (cases "kbName r (ge_cfg env) = [] \<or> ge_retrieval env = [] \<or> ragQuery r = []")
  case True
  show ?thesis
  proof (cases "kbName r (ge_cfg env) = [] \<or> ge_retrieval env = []")
    case False
    then have "ragQuery r = []" using True by simp
    then show ?thesis using False
      by (cases "map_of (ge_retrieval env) (kbName r (ge_cfg env))")
        (simp_all add: runRAGPipeline_def Let_def state_of_eq case_prod_beta)
  qed (simp add: runRAGPipeline_def Let_def state_of_eq)
next
  case False
  let ?kb = "kbName r (ge_cfg env)" and ?q = "ragQuery r"
  show ?thesis
  proof (cases "map_of (ge_retrieval env) ?kb")
    case None
    then show ?thesis using False by (simp add: runRAGPipeline_def Let_def state_of_eq)
  next
    case (Some nr)
    obtain name retrieve where nr: "nr = (name, retrieve)" by (cases nr)
    let ?m = "[(''query'', VStr ?q), (''kb'', VStr ?kb)]"
    obtain e cs sw1 g1 where s1: "StepRun se StepRetrieve name ?m (retrieve_fn retrieve ?q) sw (fst w) = ((e, cs), sw1, g1)"
      by (rule step_result_cases)
    have "state_of (StepRun (disturbed_steps nobody se) StepRetrieve name ?m (act nobody (retrieve_fn retrieve ?q)) sw w)
        = ((e, cs), sw1, g1)"
      unfolding s1[symmetric] by (rule step_alone) simp
    from state_of_pair[OF this] obtain l1 where s1': "StepRun (disturbed_steps nobody se) StepRetrieve name ?m
        (act nobody (retrieve_fn retrieve ?q)) sw w = ((e, cs), sw1, (g1, l1))" ..
    let ?n = "[(''query'', VStr ?q), (''chunks_in'', VInt (int (length cs)))]"
    obtain e2 r2 sw2 g2 where s2: "StepRun se StepRerank ''noop'' ?n (rerank_fn (ge_rerank env) ?q cs r) sw1 g1
        = ((e2, r2), sw2, g2)" by (rule step_result_cases)
    have "state_of (StepRun (disturbed_steps nobody se) StepRerank ''noop'' ?n (rerank_fn (ge_rerank env) ?q cs r)
        sw1 (g1, l1)) = ((e2, r2), sw2, g2)"
      unfolding s2[symmetric] by (rule step_alone[where w = "(g1, l1)", unfolded fst_conv])
        (simp add: rerank_fn_def split: sum.split)
    from state_of_pair[OF this] obtain l2 where s2': "StepRun (disturbed_steps nobody se) StepRerank ''noop'' ?n
        (rerank_fn (ge_rerank env) ?q cs r) sw1 (g1, l1) = ((e2, r2), sw2, (g2, l2))" ..
    have c: "(?kb = [] \<or> ge_retrieval env = []) = False" "(?q = []) = False" using False by auto
    note unf = runRAGPipeline_def Let_def c if_False Some nr option.case prod.case s1 s1'
    show ?thesis
    proof (cases e)
      case None
      show ?thesis unfolding unf None option.case prod.case s2 s2' by (cases e2) (simp_all add: state_of_eq)
    qed (unfold unf, simp add: state_of_eq)
  qed
qed

text \<open>The validation of \<open>sharedOrchestrator\<close>: alone on the shared state, a call is a call of \<open>Run\<close>.\<close>

lemma shared_alone:
  "state_of (Run (sharedOrchestrator nobody env tr i tenant) (disturbed_input nobody inp) (g, l))
     = Run (inferOrchestrator env tr i tenant) inp g"
  unfolding sharedOrchestrator_def
  by (rule Run_alone) (simp add: rag_alone_def inferOrchestrator_def rag_pipeline_alone)

end
