(* ===== verification/Overlap.thy ===== *)
theory Overlap
  imports Shared_State
begin

text \<open>
  Calls of \<open>/infer\<close> that overlap, in a rely and guarantee style. The guarantee: whatever others do, a
  run of the pipeline changes no other request's row and steps (\<open>overframe\<close>). The rely: if the others
  leave the row of a call alone, it ends as a run alone does (\<open>overgw\<close>). Together: calls that share a
  history, in any order of their actions, are all settled and give back their slots.
\<close>

section \<open>What a call does to the others\<close>

text \<open>The log only grows, with actions that satisfy \<open>P\<close>, and the state is the one the last left.\<close>

definition grows :: "('g \<Rightarrow> 'g \<Rightarrow> bool) \<Rightarrow> 'g \<times> 'g log \<Rightarrow> 'g \<times> 'g log \<Rightarrow> bool" where
  "grows P w w' \<longleftrightarrow>
     (\<exists>more. snd w' = snd w @ more \<and> (\<forall>(b, a) \<in> set more. P b a)
        \<and> fst w' = (if more = [] then fst w else snd (last more)))"

lemma grows_refl: "grows P w w"
  by (simp add: grows_def)

lemma grows_trans: "grows P u v \<Longrightarrow> grows P v w \<Longrightarrow> grows P u w"
  unfolding grows_def
proof (elim exE conjE)
  fix m n
  assume "snd v = snd u @ m" "\<forall>(b, a) \<in> set m. P b a" "fst v = (if m = [] then fst u else snd (last m))"
    "snd w = snd v @ n" "\<forall>(b, a) \<in> set n. P b a" "fst w = (if n = [] then fst v else snd (last n))"
  then show "\<exists>more. snd w = snd u @ more \<and> (\<forall>(b, a) \<in> set more. P b a)
      \<and> fst w = (if more = [] then fst u else snd (last more))"
    by (intro exI[of _ "m @ n"]) auto
qed

lemma act_grows:
  "(\<And>g. P g (snd (f g))) \<Longrightarrow> grows P w (snd (act es f w))"
  "(\<And>g. P g (h g)) \<Longrightarrow> grows P w (act_on es h w)"
  by (simp_all add: grows_def act_simps)

lemmas shared_defs = sharedOrchestrator_def disturbed_def disturbed_steps_def disturbed_ledger_def
  disturbed_input_def inferOrchestrator_def steps_env_def serverLedger_def

lemma shared_steps: "o_steps (sharedOrchestrator es env tr i tenant) = disturbed_steps es (steps_env env tr i tenant)"
  by (simp add: sharedOrchestrator_def disturbed_def inferOrchestrator_def)

interpretation overrag: rag_frame "disturbed_steps es (steps_env env tr i tenant)" i "grows (moves i)"
    "\<lambda>retrieve q. act es (retrieve_fn retrieve q)" for es env tr i tenant
proof (unfold_locales, goal_cases)
  case (6 retrieve q v r v')
  have "moves i g (snd (retrieve_fn retrieve q g))" for g :: "'a gateway"
    by (cases "retrieve_fn retrieve q g") (rule gwrag.retrieve_moves, simp)
  then show ?case using act_grows(1)[of "moves i" "retrieve_fn retrieve q" v es] 6 by simp
qed (auto simp: disturbed_steps_def steps_env_def grows_refl append_moves tick_moves trace_moves
    intro: grows_trans act_grows split: if_splits)

interpretation overframe: pipeline_frame "sharedOrchestrator es env tr i tenant"
    "disturbed_input es (server_input env tr sp t0 i req)" "grows (moves i)" for es env tr i tenant sp t0 req
proof (unfold_locales, goal_cases)
  case (2 a b c)
  then show ?case by (rule grows_trans)
next
  case (16 rag sw r w err r' sw' w')
  then show ?case using overrag.rag_pipeline_moves[of es env env tr i tenant sw r w err r' sw' w']
    by (simp add: sharedOrchestrator_def disturbed_def)
next
  case (15 l w trc r t snap rr be)
  then show ?case
    by (auto simp: shared_defs updateLedgerFailed_def updateLedgerPolicy_def markLedgerSuccess_def
        intro!: act_grows create_moves patch_moves split: if_splits)
qed (auto simp: shared_defs grows_refl component_moves tick_moves trace_moves append_moves
    intro!: act_grows split: if_splits)

section \<open>What the others do to a call\<close>

text \<open>
  Others that leave the row and the steps of \<open>i\<close> alone. (\<open>guarded\<close> makes any others so; those that
  are so already stay as they are.)
\<close>

definition guarded :: "string \<Rightarrow> 'x gateway others \<Rightarrow> 'x gateway others" where
  "guarded i es k g = (if same_row i g (es k g) then es k g else g)"

lemma guarded_same: "(\<And>k g. same_row i g (es k g)) \<Longrightarrow> guarded i es = es"
  by (intro ext) (simp add: guarded_def)

lemma same_row_refl [simp]: "same_row i g g"
  by (simp add: same_row_def)

lemma guarded_row: "same_row i (fst w) (found_at (guarded i es) w)"
  by (simp add: found_at_def guarded_def)

text \<open>What a call observes: the slots it holds itself, and its row and steps in the shared ledger.\<close>

definition slots_taken :: "'x gateway log \<Rightarrow> 32 word" where
  "slots_taken l = sum_list (map (\<lambda>(b, a). gw_inflight a - gw_inflight b) l)"

definition own_obs :: "string \<Rightarrow> 'x gateway \<times> 'x gateway log \<Rightarrow> observation" where
  "own_obs i w = (gw_obs i (fst w))\<lparr>ob_slots := slots_taken (snd w)\<rparr>"

lemma own_obs_found:
  "ob_status (gw_obs i (found_at (guarded i es) w)) = ob_status (own_obs i w)"
  "ob_steps (gw_obs i (found_at (guarded i es) w)) = ob_steps (own_obs i w)"
  using guarded_row[of i w es] by (simp_all add: own_obs_def gw_obs_def same_row_def)

text \<open>
  A component of which the contract says how the observation changes changes the observation of
  the call in the same way.
\<close>

lemma own_obs_act:
  assumes "gw_obs i (snd (f (found_at (guarded i es) w)))
      = (gw_obs i (found_at (guarded i es) w))\<lparr>ob_slots := ob_slots (gw_obs i (found_at (guarded i es) w)) + d,
          ob_status := s, ob_steps := t\<rparr>"
  shows "own_obs i (snd (act (guarded i es) f w))
    = (own_obs i w)\<lparr>ob_slots := ob_slots (own_obs i w) + d, ob_status := s, ob_steps := t\<rparr>"
  using assms by (simp add: own_obs_def act_simps slots_taken_def gw_obs_def)

lemma own_obs_keeps:
  assumes "\<And>g. gw_obs i (snd (f g)) = gw_obs i g"
  shows "own_obs i (snd (act (guarded i es) f w)) = own_obs i w"
  using own_obs_act[where f = f and i = i and es = es and w = w and d = 0 and s = "ob_status (own_obs i w)"
      and t = "ob_steps (own_obs i w)"] assms
    own_obs_found[of i es w] by simp

lemma own_obs_act_on: "own_obs i (act_on es h w) = own_obs i (snd (act es (\<lambda>g. ((), h g)) w))"
  by (simp add: act_on_def)

lemma own_obs_patch:
  assumes "ledger_on env" "ob_status (own_obs i w) \<noteq> None"
    and "\<And>t. pt_status (p t) = Some s"
  shows "own_obs i (act_on (guarded i es) (patch_ledger env i p) w) = (own_obs i w)\<lparr>ob_status := Some s\<rparr>"
  using own_obs_act[where f = "\<lambda>g. ((), patch_ledger env i p g)" and i = i and es = es and w = w and d = 0
      and s = "Some s" and t = "ob_steps (own_obs i w)"]
    gw_obs_patch[OF assms(1), of i "found_at (guarded i es) w" p] assms(2,3) own_obs_found[of i es w]
  by (simp add: own_obs_act_on)

lemma own_obs_policy:
  assumes "ledger_on env" "\<And>t. pt_status (p t) = None"
  shows "own_obs i (act_on (guarded i es) (patch_ledger env i p) w) = own_obs i w"
proof -
  have "gw_obs i (patch_ledger env i p g) = gw_obs i g" for g :: "'a gateway"
    using gw_obs_patch[OF assms(1), of i g p] gw_obs_patch_none[of i g env p] assms(2)
    by (cases "ob_status (gw_obs i g) = None") simp_all
  then show ?thesis unfolding own_obs_act_on by (intro own_obs_keeps) simp
qed

lemma own_obs_append:
  assumes "ob_status (own_obs i w) \<noteq> None" "st_request_id row = i"
  shows "own_obs i (snd (act (guarded i es) (ledger_do (AppendStep row)) w))
    = (own_obs i w)\<lparr>ob_steps := ob_steps (own_obs i w) @ [row]\<rparr>"
  using own_obs_act[where f = "ledger_do (AppendStep row)" and i = i and es = es and w = w and d = 0
      and s = "ob_status (own_obs i w)" and t = "ob_steps (own_obs i w) @ [row]"]
    gw_obs_append[OF _ assms(2), of "found_at (guarded i es) w"] assms(1) own_obs_found[of i es w]
  by simp

lemma own_obs_create:
  assumes "ledger_on env" "ob_status (own_obs i w) = None"
  shows "own_obs i (act_on (guarded i es) (createLedgerRequest env tr i r t) w)
    = (own_obs i w)\<lparr>ob_status := Some ''running'', ob_steps := []\<rparr>"
  using own_obs_act[where f = "\<lambda>g. ((), createLedgerRequest env tr i r t g)" and i = i and es = es and w = w
      and d = 0 and s = "Some ''running''" and t = "[]"]
    gw_obs_create[OF assms(1), of i "found_at (guarded i es) w" tr r t] assms(2) own_obs_found[of i es w]
  by (simp add: own_obs_act_on)

lemma own_obs_slots:
  "own_obs i (snd (act (guarded i es) (gw_begin env) w))
     = (if snd (fst (act (guarded i es) (gw_begin env) w)) then own_obs i w
        else (own_obs i w)\<lparr>ob_slots := ob_slots (own_obs i w) + 1\<rparr>)"
  "own_obs i (act_on (guarded i es) gw_release w) = (own_obs i w)\<lparr>ob_slots := ob_slots (own_obs i w) - 1\<rparr>"
  using guarded_row[of i w es]
  by (auto simp: own_obs_def act_simps gw_obs_def slots_taken_def same_row_def gw_begin_def beginInferLoad_def
      gw_release_def releaseInfer_def Let_def split: prod.splits if_splits)

interpretation overlog: step_log "disturbed_steps (guarded rid es) (steps_env env tr rid tenant)" rid "own_obs rid"
  for es env tr rid tenant
  by unfold_locales
    (auto simp: disturbed_steps_def steps_env_def own_obs_append own_obs_keeps own_obs_act_on split: if_splits)

lemma shared_retrieve_keeps:
  assumes "act (guarded i es) (retrieve_fn retrieve q) v = (r, v')"
  shows "own_obs i v' = own_obs i v"
proof -
  have "gw_obs i (snd (retrieve_fn retrieve q g)) = gw_obs i g" for g :: "'a gateway"
    by (cases "retrieve_fn retrieve q g") (auto dest: retrieve_fn_keeps)
  from own_obs_keeps[of i "retrieve_fn retrieve q", OF this, of es v] assms show ?thesis by simp
qed

interpretation overgw: infer_pipeline "sharedOrchestrator (guarded rid es) env tr rid tenant"
    "disturbed_input (guarded rid es) (server_input env tr sp t0 rid req)" "own_obs rid"
  for es env tr rid tenant sp t0 req
proof (unfold_locales, goal_cases)
  case (1 wr row w)
  then show ?case by (auto simp: shared_defs own_obs_append split: if_splits)
next
  case (5 r w pd)
  then show ?case using gw_evaluate_type[of env r "found_at (guarded rid es) w" pd]
    by (simp add: shared_defs act_simps)
next
  case (13 beg w)
  then show ?case by (auto simp: shared_defs own_obs_slots)
next
  case (14 w)
  show ?case by (simp add: shared_defs own_obs_slots)
next
  case (15 l trc r t w)
  then show ?case by (auto simp: shared_defs own_obs_create split: if_splits)
next
  case (16 l w)
  then show ?case by (auto simp: shared_defs updateLedgerFailed_def own_obs_patch split: if_splits)
next
  case (17 l snap rr be w)
  then show ?case by (auto simp: shared_defs updateLedgerPolicy_def no_patch_def own_obs_policy split: if_splits)
next
  case (18 l w be rr)
  then show ?case by (auto simp: shared_defs markLedgerSuccess_def own_obs_patch split: if_splits)
next
  case (20 rag w sw n types r err r' sw' w')
  then have "runRAGPipeline (\<lambda>retrieve q. act (guarded rid es) (retrieve_fn retrieve q)) env
      (disturbed_steps (guarded rid es) (steps_env env tr rid tenant)) sw r w = ((err, r'), sw', w')"
    by (simp add: sharedOrchestrator_def disturbed_def)
  from overlog.rag_stands[OF this _ shared_retrieve_keeps] 20 show ?case by (simp add: shared_steps)
qed (auto simp: shared_defs own_obs_keeps own_obs_act_on split: if_splits)

section \<open>A run among others\<close>

lemma shared_configured: "configured (sharedOrchestrator es env tr i tenant)"
  by (simp add: configured_def shared_defs)

lemma shared_stored:
  "env_store (disturbed_steps es (steps_env env tr i tenant)) \<noteq> None \<longleftrightarrow> ledger_on env"
  by (simp add: disturbed_steps_def steps_env_def)

lemma shared_failure_not_200:
  assumes "Run (sharedOrchestrator es env tr i tenant) inp w = (Inl f, sw, w')"
  shows "f_http_status f \<noteq> 200"
proof -
  have "rag_failure (sharedOrchestrator es env tr i tenant) f \<or> (f_http_status f, f_error_code f) \<in> pipeline_codes"
    using Run_coded[of "sharedOrchestrator es env tr i tenant" inp w] assms by (auto simp: coded_def)
  then show ?thesis
  proof
    assume "rag_failure (sharedOrchestrator es env tr i tenant) f"
    then show ?thesis by (auto simp: rag_failure_def shared_defs dest!: rag_codes)
  qed (auto simp: pipeline_codes_def)
qed

definition result_status :: "result \<Rightarrow> int" where
  "result_status res = (case res of Inr _ \<Rightarrow> 200 | Inl f \<Rightarrow> f_http_status f)"

text \<open>One call as \<open>infer\<close> starts it: its context, trace, start, id and request.\<close>

record pipeline_call =
  pc_ctx :: "gotime \<Rightarrow> goerr option"
  pc_trace :: string
  pc_span :: string
  pc_start :: gotime
  pc_id :: string
  pc_req :: AIRequest

definition run_shared ::
  "'x gateway_env \<Rightarrow> 'x gateway others \<Rightarrow> pipeline_call \<Rightarrow> 'x gateway
     \<Rightarrow> result \<times> StepWriter option \<times> ('x gateway \<times> 'x gateway log)" where
  "run_shared env es c g =
     (let env' = env\<lparr>ge_ctx := pc_ctx c\<rparr>
      in Run (sharedOrchestrator es env' (pc_trace c) (pc_id c) (tenant_id (pc_req c)))
           (disturbed_input es (server_input env' (pc_trace c) (pc_span c) (pc_start c) (pc_id c) (pc_req c)))
           (g, []))"

lemma run_shared_moves:
  assumes "run_shared env es c g = (res, sw, (g', l))"
  shows "(\<forall>(b, a) \<in> set l. moves (pc_id c) b a) \<and> g' = (if l = [] then g else snd (last l))"
  using overframe.Run_moves[OF assms[unfolded run_shared_def Let_def]]
  by (auto simp: grows_def server_input_def)

lemma run_shared_settles:
  assumes "run_shared env es c g = (res, sw, (g', l))" "\<And>k g. same_row (pc_id c) g (es k g)"
    and "ledger_on env \<Longrightarrow> map_of (ms_requests (gw_ledger g)) (pc_id c) = None"
    and "same_row (pc_id c) g' w"
  shows "slots_taken l = 0
     \<and> (ledger_on env \<longrightarrow> settled (pc_id c) (request_type (NormalizeAIRequest (pc_req c))) (result_status res)
          (gw_ledger w))"
proof -
  let ?i = "pc_id c" and ?ty = "request_type (NormalizeAIRequest (pc_req c))" and ?n = "gw_inflight w"
  have es: "guarded ?i es = es" by (rule guarded_same) (rule assms(2))
  note run = assms(1)[unfolded run_shared_def Let_def]
  have e: "ends (ledger_on env) ?i ?ty 0 res sw (own_obs ?i (g', l))"
    using overgw.Run_ends[of ?i es, unfolded es, OF run shared_configured, of "tenant_id (pc_req c)"] assms(3)
    by (simp add: shared_steps shared_stored[unfolded not_None_eq] server_input_def own_obs_def gw_obs_def slots_taken_def)
  have slots: "slots_taken l = 0"
    using e by (auto simp: ends_def stands_def own_obs_def split: sum.splits)
  have at_end: "stands (ledger_on env) ?i (gw_obs ?i w) sw ?n s types"
    if "stands (ledger_on env) ?i (own_obs ?i (g', l)) sw 0 s types" for s types
    using that assms(4) by (simp add: stands_def own_obs_def gw_obs_def same_row_def)
  have "ends (ledger_on env) ?i ?ty ?n res sw (gw_obs ?i w)"
    using e at_end by (fastforce simp: ends_def split: sum.splits)
  moreover have "result_status res \<noteq> 200" if "res = Inl f" for f
    using run shared_failure_not_200 that by (fastforce simp: result_status_def)
  ultimately show ?thesis
    using slots ends_settled[of env ?i ?ty ?n _ sw w] ends_settled_success[of env ?i ?ty ?n _ sw w]
    by (cases res) (auto simp: result_status_def)
qed

section \<open>Histories\<close>

text \<open>
  A history lists the actions in the order in which they happened, each with the number of its call,
  the state it found and the state it left.
\<close>

fun chained :: "'g \<Rightarrow> (nat \<times> 'g \<times> 'g) list \<Rightarrow> 'g \<Rightarrow> bool" where
  "chained s [] s' \<longleftrightarrow> s' = s"
| "chained s ((c, b, a) # h) s' \<longleftrightarrow> b = s \<and> chained a h s'"

definition actions_of :: "nat \<Rightarrow> (nat \<times> 'g \<times> 'g) list \<Rightarrow> 'g log" where
  "actions_of c h = map snd (filter (\<lambda>e. fst e = c) h)"

lemma actions_of_simps [simp]:
  "actions_of c [] = []"
  "actions_of c (e # h) = (if fst e = c then snd e # actions_of c h else actions_of c h)"
  by (simp_all add: actions_of_def)

lemma in_actions_of: "(c, b, a) \<in> set h \<longleftrightarrow> (b, a) \<in> set (actions_of c h)"
  by (force simp: actions_of_def)

text \<open>What the others did, as the log of the call shows it.\<close>

definition script :: "'g log \<Rightarrow> 'g others" where
  "script l k g = (if 0 < k \<and> k < length l \<and> g = snd (l ! (k - 1)) then fst (l ! k) else g)"

definition first_found :: "'g \<Rightarrow> 'g log \<Rightarrow> 'g" where
  "first_found s l = (case l of [] \<Rightarrow> s | (b, _) # _ \<Rightarrow> b)"

text \<open>
  \<open>calls\<close> overlap in the history \<open>h\<close> from \<open>s\<close> to \<open>s'\<close>: every action is one of theirs, and each of
  them, run among the others, does its actions and returns its result.
\<close>

definition overlap ::
  "'x gateway_env \<Rightarrow> pipeline_call list \<Rightarrow> 'x gateway \<Rightarrow> (nat \<times> 'x gateway \<times> 'x gateway) list
     \<Rightarrow> 'x gateway \<Rightarrow> result list \<Rightarrow> bool" where
  "overlap env calls s h s' results \<longleftrightarrow>
     length results = length calls \<and> chained s h s' \<and> (\<forall>e \<in> set h. fst e < length calls)
     \<and> (\<forall>c < length calls. \<exists>sw g. run_shared env (script (actions_of c h)) (calls ! c)
            (first_found s (actions_of c h)) = (results ! c, sw, (g, actions_of c h)))"

text \<open>The actions of one call in a history of which the other actions leave its row alone.\<close>

fun follows_row :: "string \<Rightarrow> 'x gateway \<Rightarrow> 'x gateway log \<Rightarrow> 'x gateway \<Rightarrow> bool" where
  "follows_row i s [] s' \<longleftrightarrow> same_row i s s'"
| "follows_row i s ((b, a) # l) s' \<longleftrightarrow> same_row i s b \<and> follows_row i a l s'"

lemma follows_row_earlier: "same_row i r s \<Longrightarrow> follows_row i s l s' \<Longrightarrow> follows_row i r l s'"
  by (cases l) (auto intro: same_row_trans)

lemma chained_follows:
  assumes "chained s h s'" "\<And>e b a. (e, b, a) \<in> set h \<Longrightarrow> e \<noteq> c \<Longrightarrow> same_row i b a"
  shows "follows_row i s (actions_of c h) s'"
  using assms
proof (induction h arbitrary: s)
  case (Cons x h)
  obtain e b a where x: "x = (e, b, a)" by (cases x)
  have f: "follows_row i a (actions_of c h) s'" using Cons x by auto
  moreover have "same_row i s a" if "e \<noteq> c" using Cons.prems x that by auto
  ultimately show ?case using Cons.prems(1) x follows_row_earlier by auto
qed simp

lemma follows_row_nth:
  "follows_row i s l s' \<Longrightarrow> Suc k < length l \<Longrightarrow> same_row i (snd (l ! k)) (fst (l ! Suc k))"
proof (induction l arbitrary: s k)
  case (Cons x l)
  then show ?case by (cases x; cases k; cases l) auto
qed simp

lemma follows_row_end: "follows_row i s l s' \<Longrightarrow> same_row i (if l = [] then s else snd (last l)) s'"
  by (induction i s l s' rule: follows_row.induct) (auto split: if_splits)

lemma script_row:
  assumes "follows_row i s l s'"
  shows "same_row i g (script l k g)"
  using follows_row_nth[OF assms, of "k - 1"] by (auto simp: script_def)

lemma chained_slots:
  "chained s h s' \<Longrightarrow> gw_inflight s' = gw_inflight s + sum_list (map (\<lambda>(c, b, a). gw_inflight a - gw_inflight b) h)"
  by (induction s h s' rule: chained.induct) (auto simp: algebra_simps)

lemma slots_by_call:
  assumes "\<forall>e \<in> set h. fst e < n"
  shows "sum_list (map (\<lambda>(c, b, a). gw_inflight a - gw_inflight b) h) = (\<Sum>c < n. slots_taken (actions_of c h))"
  using assms
proof (induction h)
  case (Cons x h)
  obtain e b a where x: "x = (e, b, a)" by (cases x)
  have "slots_taken (actions_of c (x # h))
      = (if c = e then gw_inflight a - gw_inflight b else 0) + slots_taken (actions_of c h)" for c
    by (simp add: x slots_taken_def)
  then have "(\<Sum>c < n. slots_taken (actions_of c (x # h)))
      = (\<Sum>c < n. if c = e then gw_inflight a - gw_inflight b else 0) + (\<Sum>c < n. slots_taken (actions_of c h))"
    by (simp add: sum.distrib)
  then show ?case using Cons x by (simp add: sum.delta)
qed (simp add: slots_taken_def)

lemma overlap_moves:
  assumes "overlap env calls s h s' results" "(c, b, a) \<in> set h"
  shows "c < length calls \<and> moves (pc_id (calls ! c)) b a"
proof -
  have c: "c < length calls" using assms by (auto simp: overlap_def)
  then obtain sw g where "run_shared env (script (actions_of c h)) (calls ! c)
      (first_found s (actions_of c h)) = (results ! c, sw, (g, actions_of c h))"
    using assms(1) by (auto simp: overlap_def)
  from run_shared_moves[OF this] c assms(2) show ?thesis by (auto simp: in_actions_of)
qed

lemma moves_same_row: "moves i b a \<Longrightarrow> j \<noteq> i \<Longrightarrow> same_row j b a"
  by (simp add: moves_def same_row_def)

lemma overlap_one:
  assumes "overlap env calls s h s' results" "distinct (map pc_id calls)" "c < length calls"
    and "map_of (ms_requests (gw_ledger s)) (pc_id (calls ! c)) = None"
  shows "slots_taken (actions_of c h) = 0
    \<and> (ledger_on env \<longrightarrow> settled (pc_id (calls ! c)) (request_type (NormalizeAIRequest (pc_req (calls ! c))))
         (result_status (results ! c)) (gw_ledger s'))"
proof -
  let ?i = "pc_id (calls ! c)" and ?l = "actions_of c h"
  obtain sw g where run: "run_shared env (script ?l) (calls ! c) (first_found s ?l) = (results ! c, sw, (g, ?l))"
    using assms(1,3) by (auto simp: overlap_def)
  have "same_row ?i b a" if e: "(e, b, a) \<in> set h" "e \<noteq> c" for e b a
  proof -
    have "pc_id (calls ! e) \<noteq> ?i"
      using overlap_moves[OF assms(1) e(1)] e(2) assms(2,3) by (simp add: distinct_conv_nth)
    then show ?thesis using overlap_moves[OF assms(1) e(1)] moves_same_row by metis
  qed
  moreover have "chained s h s'" using assms(1) by (simp add: overlap_def)
  ultimately have f: "follows_row ?i s ?l s'" by (intro chained_follows)
  then have "same_row ?i s (first_found s ?l)" by (cases ?l) (auto simp: first_found_def)
  then have "map_of (ms_requests (gw_ledger (first_found s ?l))) ?i = None"
    using assms(4) by (simp add: same_row_def)
  moreover have "g = (if ?l = [] then s else snd (last ?l))"
    using run_shared_moves[OF run] by (simp add: first_found_def)
  then have "same_row ?i g s'" using follows_row_end[OF f] by simp
  ultimately show ?thesis using run_shared_settles[OF run script_row[OF f]] by blast
qed

section \<open>Property\<close>


section \<open>Witness\<close>

text \<open>Two calls of tenants the configuration does not know, whose actions alternate.\<close>

definition plain_env :: "nat gateway_env" where
  "plain_env = demo_env\<lparr>ge_cfg := small_config\<rparr>"

definition at_tick :: "nat \<Rightarrow> nat gateway" where
  "at_tick n = demo_state\<lparr>gw_ticks := n\<rparr>"

definition stranger :: "string \<Rightarrow> pipeline_call" where
  "stranger i = \<lparr>pc_ctx = (\<lambda>_. None), pc_trace = [], pc_span = [], pc_start = 0, pc_id = i,
     pc_req = zero_request\<lparr>tenant_id := ''nobody''\<rparr>\<rparr>"

definition alternating :: "(nat \<times> nat gateway \<times> nat gateway) list" where
  "alternating = map (\<lambda>(c, m, n). (c, at_tick m, at_tick n))
     [(0, 0, 1), (1, 1, 2), (0, 2, 3), (1, 3, 4), (0, 4, 5), (1, 5, 6), (0, 6, 6), (1, 6, 6), (0, 6, 7), (1, 7, 8),
      (0, 8, 9), (1, 9, 10), (0, 10, 11), (1, 11, 12), (0, 12, 12), (1, 12, 12), (0, 12, 12), (1, 12, 12)]"

lemma plain_config:
  "\<not> ledger_enabled (ledger small_config)" "\<not> tracing_enabled (telemetry small_config)"
  "TenantByID small_config ''nobody'' = None"
  by code_simp+

lemma plain_env_off: "\<not> ledger_on plain_env" "\<not> tracing_enabled (telemetry (ge_cfg plain_env))"
  by (simp_all add: plain_env_def demo_env_def ledger_on_def NewFromConfig_def plain_config)

lemma plain_actions:
  "tick (at_tick n) = (gw_clock demo_state n, at_tick (Suc n))"
  "emitInferStepTrace (plain_env\<lparr>ge_ctx := x\<rparr>) tr i te ty be st t0 lat g = g"
  "emitInferTrace (plain_env\<lparr>ge_ctx := x\<rparr>) tr sp t0 i te be res g = g"
  "gw_evaluate (plain_env\<lparr>ge_ctx := x\<rparr>) (zero_request\<lparr>tenant_id := ''nobody''\<rparr>) (at_tick n)
     = (Inr (rejected ''unknown tenant'' zero_request), at_tick (Suc n))"
  using plain_env_off(2)
  by (simp_all add: tick_def at_tick_def emitInferStepTrace_def emitInferTrace_def gw_evaluate_def Evaluate_def Let_def
      plain_config plain_env_def demo_env_def)

lemma alternating_actions:
  "actions_of 0 alternating = map (\<lambda>(m, n). (at_tick m, at_tick n))
     [(0, 1), (2, 3), (4, 5), (6, 6), (6, 7), (8, 9), (10, 11), (12, 12), (12, 12)]"
  "actions_of 1 alternating = map (\<lambda>(m, n). (at_tick m, at_tick n))
     [(1, 2), (3, 4), (5, 6), (6, 6), (7, 8), (9, 10), (11, 12), (12, 12), (12, 12)]"
  by (simp_all add: alternating_def)

text \<open>The world of a call after \<open>k\<close> actions of a given log.\<close>

definition played :: "'g log \<Rightarrow> nat \<Rightarrow> 'g \<times> 'g log" where
  "played l k = ((if k = 0 then fst (hd l) else snd (l ! (k - 1))), take k l)"

lemma act_played:
  assumes "k < length l" "snd (f (fst (l ! k))) = snd (l ! k)"
  shows "act (script l) f (played l k) = (fst (f (fst (l ! k))), played l (Suc k))"
proof -
  have "found_at (script l) (played l k) = fst (l ! k)"
    using assms(1) by (cases l; cases k) (auto simp: found_at_def played_def script_def)
  then show ?thesis
    using assms by (auto simp: act_def played_def Let_def case_prod_beta take_Suc_conv_app_nth)
qed

lemma act_on_played:
  "k < length l \<Longrightarrow> h (fst (l ! k)) = snd (l ! k) \<Longrightarrow> act_on (script l) h (played l k) = played l (Suc k)"
  using act_played[of k l "\<lambda>g. ((), h g)"] by (simp add: act_on_def)

definition refused_log :: "(nat \<times> nat) list \<Rightarrow> bool" where
  "refused_log ms \<longleftrightarrow> length ms = 9 \<and> (\<forall>k \<in> {0, 1, 2, 4, 5, 6}. snd (ms ! k) = Suc (fst (ms ! k)))
     \<and> (\<forall>k \<in> {3, 7, 8}. snd (ms ! k) = fst (ms ! k))"

lemma stranger_runs:
  assumes "refused_log ms" "l = map (\<lambda>(m, n). (at_tick m, at_tick n)) ms"
  shows "\<exists>f sw g. run_shared plain_env (script l) (stranger i) (fst (hd l)) = (Inl f, sw, (g, l))"
proof -
  let ?e = "plain_env\<lparr>ge_ctx := \<lambda>_. None\<rparr>" and ?W = "played l"
  have l: "length l = 9" "\<And>k. k < 9 \<Longrightarrow> l ! k = (at_tick (fst (ms ! k)), at_tick (snd (ms ! k)))"
    using assms by (auto simp: refused_log_def case_prod_beta)
  have ticks: "\<exists>t. act (script l) tick (?W k) = (t, ?W (Suc k))" if "k \<in> {0, 1, 2, 5, 6}" for k
    using act_played[of k l tick] l(2)[of k] assms(1) that
    by (auto simp: l(1) refused_log_def plain_actions)
  obtain t0 t1 t2 t5 t6 where t: "act (script l) tick (?W 0) = (t0, ?W (Suc 0))" "act (script l) tick (?W (Suc 0)) = (t1, ?W 2)"
    "act (script l) tick (?W 2) = (t2, ?W 3)" "act (script l) tick (?W 5) = (t5, ?W 6)"
    "act (script l) tick (?W 6) = (t6, ?W 7)"
    using ticks[of 0] ticks[of 1] ticks[of 2] ticks[of 5] ticks[of 6] by (auto simp: numeral_eq_Suc)
  have hook: "act_on (script l) (emitInferStepTrace ?e tr j te ty be st u lat) (?W k) = ?W (Suc k)"
    if "k \<in> {3, 7}" for k tr j te ty be st u lat
    using act_on_played[of k l "emitInferStepTrace ?e tr j te ty be st u lat"] l(2)[of k] assms(1) that
    by (auto simp: l(1) refused_log_def plain_actions)
  have emit: "act_on (script l) (emitInferTrace ?e tr sp u j te be r) (?W 8) = ?W 9" for tr sp u j te be r
    using act_on_played[of 8 l "emitInferTrace ?e tr sp u j te be r"] l(2)[of 8] assms(1)
    by (auto simp: l(1) refused_log_def plain_actions)
  have eval: "act (script l) (gw_evaluate ?e (zero_request\<lparr>tenant_id := ''nobody''\<rparr>)) (?W 4)
      = (Inr (rejected ''unknown tenant'' zero_request), ?W 5)"
    using act_played[of 4 l "gw_evaluate ?e (zero_request\<lparr>tenant_id := ''nobody''\<rparr>)"] l(2)[of 4] assms(1)
    by (auto simp: l(1) refused_log_def plain_actions)
  have start: "(fst (hd l), []) = ?W 0" by (simp add: played_def)
  have stop: "?W 9 = (snd (l ! 8), l)" by (simp add: played_def l(1))
  note hooks = hook[of 3, simplified] hook[of 7, simplified]
  show ?thesis
    unfolding run_shared_def Let_def start
    by (simp add: Run_def stranger_def Let_def server_input_def disturbed_input_def shared_defs plain_env_off
        plain_step_def StepRun_def rejected_def emit_trace_def failLedger_def mk_failure_def t hooks eval emit stop)
qed


end
