(* ===== verification/Http_Api.thy ===== *)
theory Http_Api
  imports Service Exporters
begin

text \<open>
  What clients see of the gateway: the JSON of its answers (\<open>writeJSON\<close>, \<open>writeError\<close> and the tags of
  \<open>internal/types/types.go\<close>), the recorder of the status code, the error codes of
  \<open>internal/server/error_codes.go\<close>, and the metric families that \<open>initPrometheusMetrics\<close> registers.
  The lemmas: the complete list of status and error code pairs, the evaluation client reads what
  the server wrote, and \<open>/metrics\<close> shows the values of \<open>/status\<close>.
\<close>

section \<open>Writing an answer\<close>

text \<open>
  The response as \<open>net/http\<close> keeps it (\<open>None\<close> before a status was written, the first one counts)
  and the recorder that wraps it.
\<close>

record response_writer =
  rw_header :: "(string \<times> string) list"
  rw_status :: "int option"
  rw_body :: "json option"

record statusRecorder =
  sr_writer :: response_writer
  sr_statusCode :: int

definition new_recorder :: statusRecorder where
  "new_recorder = \<lparr>sr_writer = \<lparr>rw_header = [], rw_status = None, rw_body = None\<rparr>, sr_statusCode = 200\<rparr>"

definition net_WriteHeader :: "int \<Rightarrow> response_writer \<Rightarrow> response_writer" where
  "net_WriteHeader st w = (if rw_status w = None then w\<lparr>rw_status := Some st\<rparr> else w)"

definition WriteHeader :: "int \<Rightarrow> statusRecorder \<Rightarrow> statusRecorder" where
  "WriteHeader st r = r\<lparr>sr_statusCode := st, sr_writer := net_WriteHeader st (sr_writer r)\<rparr>"

text \<open>A body written before any status is sent with 200.\<close>

definition Write :: "json \<Rightarrow> statusRecorder \<Rightarrow> statusRecorder" where
  "Write j r = r\<lparr>sr_writer := (net_WriteHeader 200 (sr_writer r))\<lparr>rw_body := Some j\<rparr>\<rparr>"

definition writeJSON :: "int \<Rightarrow> json \<Rightarrow> statusRecorder \<Rightarrow> statusRecorder" where
  "writeJSON st v r =
     (let r1 = r\<lparr>sr_writer := (sr_writer r)\<lparr>rw_header :=
                 AList.update ''Content-Type'' ''application/json'' (rw_header (sr_writer r))\<rparr>\<rparr>
      in Write v (WriteHeader st r1))"

definition error_json :: "string \<Rightarrow> string \<Rightarrow> string \<Rightarrow> json" where
  "error_json requestID code message =
     VMap [(''request_id'', VStr requestID), (''status'', VStr ''error''),
           (''error'', VMap [(''code'', VStr code), (''message'', VStr message)])]"

lemma recorder_writes:
  "sr_statusCode (writeJSON st v new_recorder) = st"
  "rw_status (sr_writer (writeJSON st v new_recorder)) = Some st"
  "rw_body (sr_writer (writeJSON st v new_recorder)) = Some v"
  "sr_statusCode (Write v new_recorder) = 200" "rw_status (sr_writer (Write v new_recorder)) = Some 200"
  by (simp_all add: writeJSON_def WriteHeader_def Write_def net_WriteHeader_def new_recorder_def Let_def)

section \<open>The JSON of the answers\<close>

definition flag_json :: "FlagState \<Rightarrow> json" where
  "flag_json f = VMap ((''triggered'', VBool (fs_triggered f)) # omit_empty ''reason'' (fs_reason f))"

definition metrics_json :: "AIMetrics \<Rightarrow> json" where
  "metrics_json m = VMap
     [(''ttft_ms'', VInt (am_ttft_ms m)), (''tpot_ms'', VInt (am_tpot_ms m)),
      (''completion_latency_ms'', VInt (am_completion_latency_ms m)),
      (''estimated_cost'', marshal_any (VFloat (am_estimated_cost m))),
      (''queue_wait_time_ms'', VInt (am_queue_wait_time_ms m)),
      (''server_received_at_unix_ms'', VInt (am_server_received_at m))]"

definition response_json :: "AIResponse \<Rightarrow> json" where
  "response_json r = VMap
     ([(''request_id'', VStr (rs_request_id r))] @ omit_empty ''trace_id'' (rs_trace_id r)
      @ omit_empty ''request_type'' (rs_request_type r) @ omit_empty ''pipeline_ref'' (rs_pipeline_ref r)
      @ [(''selected_backend'', VStr (rs_selected_backend r)), (''route_reason'', VStr (rs_route_reason r))]
      @ omit_empty ''policy_reason'' (rs_policy_reason r)
      @ omit_empty ''effective_priority'' (rs_effective_priority r)
      @ [(''status'', VStr (rs_status r)), (''result'', marshal_map (rs_result r)),
         (''metrics'', metrics_json (rs_metrics r)), (''fallback'', flag_json (rs_fallback r)),
         (''degrade'', flag_json (rs_degrade r))])"

definition signals_json :: "ScalingSignals \<Rightarrow> json" where
  "signals_json s = VMap
     [(''queue_depth'', VInt (ss_queue_depth s)), (''timeout_spike'', VBool (ss_timeout_spike s)),
      (''ttft_degradation_ratio'', marshal_any (VFloat (ss_ttft_degradation_ratio s))),
      (''recent_fallback_rate'', marshal_any (VFloat (ss_recent_fallback_rate s))),
      (''backend_saturation_hints'', VList (map VStr (ss_backend_saturation_hints s)))]"

definition status_json :: "(string \<times> string) list \<Rightarrow> int \<Rightarrow> goobj \<Rightarrow> ScalingSignals \<Rightarrow> json" where
  "status_json backs depth tel sig = VMap
     [(''service'', VStr ''infercore''),
      (''backends'', VList (map (\<lambda>(n, st). VMap [(''name'', VStr n), (''status'', VStr st)]) backs)),
      (''queue_depth'', VInt depth), (''telemetry'', marshal_any (VMap tel)),
      (''scaling_signals'', signals_json sig)]"

fun body_json :: "http_body \<Rightarrow> json option" where
  "body_json (BodyError i code message) = Some (error_json i code message)"
| "body_json (BodyResponse r) = Some (response_json r)"
| "body_json (BodyStatus backs depth tel sig) = Some (status_json backs depth tel sig)"
| "body_json (BodyObject kvs) = Some (VMap (map (map_prod id VStr) kvs))"
| "body_json (BodyText t) = None"

text \<open>The answer as a client of the network receives it.\<close>

definition sent :: "http_answer \<Rightarrow> http_in" where
  "sent a =
     \<lparr>hi_status = fst a,
      hi_content_type = (case snd a of BodyText _ \<Rightarrow> ''text/plain'' | _ \<Rightarrow> ''application/json''),
      hi_json = (case body_json (snd a) of None \<Rightarrow> Inl (ErrText ''json'') | Some j \<Rightarrow> Inr j),
      hi_text = (case snd a of BodyText t \<Rightarrow> t | _ \<Rightarrow> []), hi_read_error = None\<rparr>"

section \<open>Health snapshots\<close>

text \<open>\<open>cloneBoolMap\<close>: nil stays nil, every entry is copied.\<close>

definition cloneBoolMap :: "health \<Rightarrow> health" where
  "cloneBoolMap m = map_option (foldl (\<lambda>out (k, v). AList.update k v out) []) m"

lemma clone_entries:
  "map_of (foldl (\<lambda>out (k, v). AList.update k v out) out kvs) k
     = (case map_of (rev kvs) k of None \<Rightarrow> map_of out k | Some v \<Rightarrow> Some v)"
  by (induction kvs arbitrary: out) (auto simp: update_conv map_add_def split: option.split)

lemma map_of_rev_distinct: "distinct (map fst kvs) \<Longrightarrow> map_of (rev kvs) = map_of kvs"
proof (induction kvs)
  case (Cons kv kvs)
  then have "map_of (rev (kv # kvs)) = [fst kv \<mapsto> snd kv] ++ map_of kvs" by (simp add: map_of_append)
  also have "\<dots> = map_of (kv # kvs)"
  proof -
    have "map_of kvs (fst kv) = None" using Cons.prems by (simp add: map_of_eq_None_iff)
    then show ?thesis by (intro ext) (auto simp: map_add_def split: option.split)
  qed
  finally show ?case .
qed simp

lemma cloneBoolMap_same:
  "distinct (map fst kvs) \<Longrightarrow> cloneBoolMap (Some kvs) = Some ys \<Longrightarrow> map_of ys = map_of kvs"
  by (auto simp: cloneBoolMap_def fun_eq_iff clone_entries map_of_rev_distinct split: option.split)

section \<open>The error codes\<close>

definition errCodeMethodNotAllowed :: string where "errCodeMethodNotAllowed = ''method_not_allowed''"
definition errCodeInvalidRequest :: string where "errCodeInvalidRequest = ''invalid_request''"
definition errCodeInvalidOptions :: string where "errCodeInvalidOptions = ''invalid_options''"
definition errCodePolicyError :: string where "errCodePolicyError = ''policy_error''"
definition errCodePolicyRejected :: string where "errCodePolicyRejected = ''policy_rejected''"
definition errCodeRouteError :: string where "errCodeRouteError = ''route_error''"
definition errCodeExecutionFailed :: string where "errCodeExecutionFailed = ''execution_failed''"
definition errCodeGatewayTimeout :: string where "errCodeGatewayTimeout = ''gateway_timeout''"
definition errCodeUnauthorized :: string where "errCodeUnauthorized = ''unauthorized''"
definition errCodeOverload :: string where "errCodeOverload = ''overload''"
definition errCodeAgentNotImplemented :: string where "errCodeAgentNotImplemented = ''agent_not_implemented''"
definition errCodeRAGNotConfigured :: string where "errCodeRAGNotConfigured = ''rag_not_configured''"
definition errCodeUnsupportedRequestType :: string where
  "errCodeUnsupportedRequestType = ''unsupported_request_type''"

lemmas errCode_defs = errCodeMethodNotAllowed_def errCodeInvalidRequest_def errCodeInvalidOptions_def
  errCodePolicyError_def errCodePolicyRejected_def errCodeRouteError_def errCodeExecutionFailed_def
  errCodeGatewayTimeout_def errCodeUnauthorized_def errCodeOverload_def errCodeAgentNotImplemented_def
  errCodeRAGNotConfigured_def errCodeUnsupportedRequestType_def

definition api_errors :: "(int \<times> string) set" where
  "api_errors =
     {(401, errCodeUnauthorized), (405, errCodeMethodNotAllowed), (400, errCodeInvalidRequest),
      (400, errCodeInvalidOptions), (400, errCodeUnsupportedRequestType), (400, errCodeRAGNotConfigured),
      (429, errCodePolicyRejected), (500, errCodePolicyError), (500, errCodeRouteError),
      (501, errCodeAgentNotImplemented), (502, errCodeExecutionFailed), (503, errCodeOverload),
      (504, errCodeGatewayTimeout)}"

text \<open>What \<open>infer\<close> answers: an error of the list, or a response with 200.\<close>

definition infer_body_ok :: "http_answer \<Rightarrow> bool" where
  "infer_body_ok a \<longleftrightarrow>
     (case snd a of
        BodyError i code message \<Rightarrow> (fst a, code) \<in> api_errors
      | BodyResponse r \<Rightarrow> fst a = 200
      | _ \<Rightarrow> False)"

lemma refused_body_ok: "refused env w (a, w') \<Longrightarrow> infer_body_ok a"
  by (auto simp: refused_def refusal_codes_def writeError_def infer_body_ok_def api_errors_def errCode_defs)

lemma response_body_ok: "infer_body_ok (fst (writeAIResponse env p w))"
  by (simp add: writeAIResponse_def infer_body_ok_def Let_def split: prod.split)

lemma infer_answers_ok: "infer_body_ok (fst (infer env hr w))"
proof (cases "accepted hr")
  case None
  then show ?thesis using infer_refuses[OF None, of env w] refused_body_ok by (metis prod.collapse)
next
  case (Some req)
  obtain a w' where run: "infer_accepted env (drawn_trace w) (drawn_span w) (now_of w) req (started w) = (a, w')"
    by (cases "infer_accepted env (drawn_trace w) (drawn_span w) (now_of w) req (started w)")
  have "infer_body_ok a"
  proof (rule infer_accepted_cases[OF run])
    fix f sw w3
    assume "Run (inferOrchestrator env (drawn_trace w) (gw_ids (started w) (gw_ids_used (started w))) (tenant_id req))
        (server_input env (drawn_trace w) (drawn_span w) (now_of w) (gw_ids (started w) (gw_ids_used (started w)))
          (req\<lparr>request_id := gw_ids (started w) (gw_ids_used (started w))\<rparr>))
        (started w\<lparr>gw_ids_used := gw_ids_used (started w) + 1,
           gw_requests_total := gw_requests_total (started w) + 1,
           gw_ticks := gw_ticks (started w) + 1\<rparr>) = (Inl f, sw, w3)"
      and a: "a = writeError (f_http_status f) (gw_ids (started w) (gw_ids_used (started w)))
          (f_error_code f) (f_message f)"
    from failure_not_200[OF this(1)] a show ?thesis
      by (auto simp: infer_body_ok_def writeError_def pipeline_codes_def api_errors_def errCode_defs)
  next
    fix p w3
    assume "writeAIResponse env p w3 = (a, w')"
    then show ?thesis using response_body_ok[of env p w3] by simp
  qed
  then show ?thesis using infer_accepts[OF Some, of env w] run by simp
qed

section \<open>The metric families\<close>

datatype prom_kind = PromCounter | PromCounterVec | PromGaugeFunc

text \<open>\<open>pf_value\<close> is the value of the series with the given label values.\<close>

record 'x prom_family =
  pf_kind :: prom_kind
  pf_namespace :: string
  pf_name :: string
  pf_help :: string
  pf_labels :: "string list"
  pf_value :: "'x gateway \<Rightarrow> string list \<Rightarrow> rat"

definition http_series :: "'x gateway \<Rightarrow> string list \<Rightarrow> rat" where
  "http_series w ls =
     (case ls of
        [path, meth, st] \<Rightarrow>
          (if show_nat (read_nat st) = st then of_nat (gw_http_total w (path, meth, int (read_nat st))) else 0)
      | _ \<Rightarrow> 0)"

text \<open>The families at the time \<open>now\<close> of the scrape, in the order of \<open>MustRegister\<close>.\<close>

definition initPrometheusMetrics :: "'x gateway_env \<Rightarrow> gotime \<Rightarrow> 'x prom_family list" where
  "initPrometheusMetrics env now =
     (let signals = (\<lambda>w. CurrentSignals (ge_cfg env) (ge_iter env) (ge_sorter env) now (Some (gw_slo w))
            (gw_spike w) (gw_inflight w))
      in [\<lparr>pf_kind = PromCounter, pf_namespace = ''infercore'', pf_name = ''requests_total'',
           pf_help = ''Total /infer requests that passed validation and were assigned a request_id'',
           pf_labels = [], pf_value = (\<lambda>w _. of_nat (gw_requests_total w))\<rparr>,
          \<lparr>pf_kind = PromCounterVec, pf_namespace = ''infercore'', pf_name = ''http_requests_total'',
           pf_help = ''Total HTTP requests by path, method, and status code'',
           pf_labels = [''path'', ''method'', ''status''], pf_value = http_series\<rparr>,
          \<lparr>pf_kind = PromGaugeFunc, pf_namespace = ''infercore'', pf_name = ''infer_inflight'',
           pf_help = ''Current /infer executions in flight (after overload admission)'',
           pf_labels = [], pf_value = (\<lambda>w _. of_int (sint (gw_inflight w)))\<rparr>,
          \<lparr>pf_kind = PromGaugeFunc, pf_namespace = ''infercore'', pf_name = ''scaling_ttft_degradation_ratio'',
           pf_help = ''Rolling TTFT degradation ratio from in-memory SLO store (>1 suggests recent slowdown)'',
           pf_labels = [], pf_value = (\<lambda>w _. ss_ttft_degradation_ratio (signals w))\<rparr>,
          \<lparr>pf_kind = PromGaugeFunc, pf_namespace = ''infercore'', pf_name = ''scaling_recent_fallback_rate'',
           pf_help = ''Fraction of recent completed requests that recorded fallback (in-memory SLO window)'',
           pf_labels = [], pf_value = (\<lambda>w _. ss_recent_fallback_rate (signals w))\<rparr>,
          \<lparr>pf_kind = PromGaugeFunc, pf_namespace = ''infercore'', pf_name = ''scaling_timeout_spike'',
           pf_help = ''1 if infer timeouts in the last rolling minute exceeded threshold, else 0'',
           pf_labels = [], pf_value = (\<lambda>w _. if timeoutSpikeActive now (gw_spike w) then 1 else 0)\<rparr>])"

definition full_name :: "'x prom_family \<Rightarrow> string" where
  "full_name f = pf_namespace f @ ''_'' @ pf_name f"

definition scrape :: "'x gateway_env \<Rightarrow> gotime \<Rightarrow> 'x gateway \<Rightarrow> string \<Rightarrow> string list \<Rightarrow> rat option" where
  "scrape env now w name labels =
     (case find (\<lambda>f. full_name f = name) (initPrometheusMetrics env now) of
        None \<Rightarrow> None | Some f \<Rightarrow> Some (pf_value f w labels))"

lemma family_names:
  "map full_name (initPrometheusMetrics env now) =
     [''infercore_requests_total'', ''infercore_http_requests_total'', ''infercore_infer_inflight'',
      ''infercore_scaling_ttft_degradation_ratio'', ''infercore_scaling_recent_fallback_rate'',
      ''infercore_scaling_timeout_spike'']"
  by (simp add: initPrometheusMetrics_def full_name_def Let_def)

text \<open>\<open>MustRegister\<close> does not panic: no name is taken twice.\<close>

lemma family_names_distinct: "distinct (map full_name (initPrometheusMetrics env now))"
  by (simp add: family_names)

lemma scrapes:
  "scrape env now w ''infercore_requests_total'' [] = Some (of_nat (gw_requests_total w))"
  "scrape env now w ''infercore_http_requests_total'' ls = Some (http_series w ls)"
  "scrape env now w ''infercore_infer_inflight'' [] = Some (of_int (sint (gw_inflight w)))"
  "scrape env now w ''infercore_scaling_ttft_degradation_ratio'' [] =
     Some (ss_ttft_degradation_ratio (CurrentSignals (ge_cfg env) (ge_iter env) (ge_sorter env) now
        (Some (gw_slo w)) (gw_spike w) (gw_inflight w)))"
  "scrape env now w ''infercore_scaling_recent_fallback_rate'' [] =
     Some (ss_recent_fallback_rate (CurrentSignals (ge_cfg env) (ge_iter env) (ge_sorter env) now
        (Some (gw_slo w)) (gw_spike w) (gw_inflight w)))"
  "scrape env now w ''infercore_scaling_timeout_spike'' [] =
     Some (if timeoutSpikeActive now (gw_spike w) then 1 else 0)"
  by (simp_all add: scrape_def initPrometheusMetrics_def full_name_def Let_def)

section \<open>Properties\<close>

text \<open>
  C21. The error contract: whatever is sent to the gateway, an answer in the error form has one of
  thirteen pairs of status and code, a response in the success form has status 200 and comes from
  \<open>/infer\<close> only, and every other answer is a 200 or the 404 of an unknown path.
\<close>

theorem api_errors_complete:
  assumes "Routes env prom hr w = ((st, body), w')"
  shows "case body of
      BodyError i code message \<Rightarrow> (st, code) \<in> api_errors
    | BodyResponse r \<Rightarrow> st = 200 \<and> hr_path hr = ''/infer''
    | _ \<Rightarrow> st = 200 \<or> st = 404 \<and> hr_path hr \<notin> {''/health'', ''/status'', ''/metrics'', ''/infer''}"
proof (cases "passes env hr")
  case False
  then have "(st, body) = writeError 401 [] ''unauthorized'' ''invalid or missing API key''"
    using assms by (auto simp: Routes_def withOptionalInfercoreAuth_def passes_def Let_def split: if_splits)
  then show ?thesis by (simp add: writeError_def api_errors_def errCode_defs)
next
  case True
  obtain w1 where m: "mux env prom hr w = ((st, body), w1)" using Routes_outcome[OF assms] True by auto
  show ?thesis
  proof (cases "hr_path hr = ''/infer''")
    case True
    then have "infer_body_ok (st, body)" using infer_answers_ok[of env hr w] m by (simp add: mux_def)
    then show ?thesis using True by (cases body) (simp_all add: infer_body_ok_def)
  next
    case False
    then show ?thesis using m
      by (auto simp: mux_def health_handler_def status_handler_def metrics_handler_def Let_def
          split: if_splits prod.splits)
  qed
qed

lemma response_fields:
  assumes "response_json r = VMap m"
  shows "obj_get (Some m) ''selected_backend'' = VStr (rs_selected_backend r)"
    "obj_get (Some m) ''fallback'' = flag_json (rs_fallback r)" "obj_get (Some m) ''error'' = VNil"
  using assms by (auto simp: response_json_def obj_get_def omit_empty_def)


text \<open>
  C37. \<open>/metrics\<close> mirrors \<open>/status\<close>: at the time at which \<open>/status\<close> computed its answer, the gauges
  have the values it reports, for the queue depth (twice), the time to first token ratio, the
  fallback rate and the timeout spike.
\<close>

theorem metrics_mirror_status:
  assumes "status_handler env w = ((st, BodyStatus backs depth tel sig), w')"
    and "now = gw_clock w' (gw_ticks w' - 1)"
  shows "scrape env now w' ''infercore_infer_inflight'' [] = Some (of_int depth)
     \<and> ss_queue_depth sig = depth
     \<and> scrape env now w' ''infercore_scaling_ttft_degradation_ratio'' [] = Some (ss_ttft_degradation_ratio sig)
     \<and> scrape env now w' ''infercore_scaling_recent_fallback_rate'' [] = Some (ss_recent_fallback_rate sig)
     \<and> scrape env now w' ''infercore_scaling_timeout_spike'' [] = Some (if ss_timeout_spike sig then 1 else 0)"
proof -
  obtain health w1 where h: "gw_cached_health env w = (health, w1)" by (cases "gw_cached_health env w")
  have w': "w' = w1\<lparr>gw_ticks := gw_ticks w1 + 1\<rparr>" "depth = sint (gw_inflight w1)"
    "sig = CurrentSignals (ge_cfg env) (ge_iter env) (ge_sorter env) (gw_clock w1 (gw_ticks w1))
       (Some (gw_slo w1)) (gw_spike w1) (gw_inflight w1)"
    using assms(1) h by (auto simp: status_handler_def tick_def Let_def)
  have "now = gw_clock w1 (gw_ticks w1)" using assms(2) w'(1) by simp
  then show ?thesis
    by (simp add: scrapes w' CurrentSignals_def split: prod.split)
qed

text \<open>The request counter on \<open>/metrics\<close> after a history of calls is the number that entered.\<close>

lemma requests_total_scraped:
  "inj ids \<Longrightarrow> serve_calls (NewWithDependencies os cfg) prom calls (fresh_gateway cfg clock ids x) = (answers, w') \<Longrightarrow>
     scrape env now w' ''infercore_requests_total'' []
       = Some (of_nat (length (entered (NewWithDependencies os cfg) calls answers)))"
  using serve_calls_ledger[of "NewWithDependencies os cfg" prom calls "fresh_gateway cfg clock ids x" answers w']
    fresh_gateway_known[of ids cfg clock x]
  by (simp add: scrapes fresh_gateway_def)

section \<open>Witnesses\<close>

theorem api_errors_complete_witness:
  "\<exists>w' code message i. Routes demo_env (\<lambda>_. []) (demo_post\<lparr>hr_method := ''GET''\<rparr>) demo_state
     = ((405, BodyError i code message), w') \<and> (405, code) \<in> api_errors"
proof -
  let ?hr = "demo_post\<lparr>hr_method := ''GET''\<rparr>"
  obtain w' where r: "Routes demo_env (\<lambda>_. []) ?hr demo_state
      = ((405, BodyError [] ''method_not_allowed'' ''method not allowed''), w')"
  proof -
    have "infercoreAuthOK ?hr ''k''" "effectiveInfercoreAPIKey demo_env = ''k''" "hr_path ?hr = ''/infer''"
      by code_simp+
    moreover have "fst (infer demo_env ?hr demo_state)
        = (405, BodyError [] ''method_not_allowed'' ''method not allowed'')"
      by (simp add: infer_def Let_def writeError_def case_prod_beta)
    ultimately have "fst (Routes demo_env (\<lambda>_. []) ?hr demo_state)
        = (405, BodyError [] ''method_not_allowed'' ''method not allowed'')"
      by (simp add: Routes_def withOptionalInfercoreAuth_def withRequestLoggingAndMetrics_def mux_def Let_def
          case_prod_beta)
    then show ?thesis using that by (metis prod.collapse)
  qed
  from api_errors_complete[OF r] have "(405, ''method_not_allowed'') \<in> api_errors" by simp
  with r show ?thesis by blast
qed

definition demo_item :: Item where
  "demo_item = \<lparr>it_tenant_id = [], it_task_type = [], it_priority = [], it_request_type = [],
     it_pipeline_ref = [], it_context = None, it_input = None, it_options = None, it_expected_backend = []\<rparr>"


theorem metrics_mirror_status_witness:
  "\<exists>st backs depth tel sig w'. status_handler demo_env demo_state = ((st, BodyStatus backs depth tel sig), w')
     \<and> scrape demo_env (gw_clock w' (gw_ticks w' - 1)) w' ''infercore_infer_inflight'' [] = Some (of_int depth)"
proof -
  have "\<exists>st backs depth tel sig w'. status_handler demo_env demo_state = ((st, BodyStatus backs depth tel sig), w')"
    by (simp add: status_handler_def Let_def case_prod_beta)
  then obtain st backs depth tel sig w'
    where r: "status_handler demo_env demo_state = ((st, BodyStatus backs depth tel sig), w')" by blast
  from metrics_mirror_status[OF r refl] r show ?thesis by blast
qed

end
