(* ===== verification/Replicas.thy ===== *)
theory Replicas
  imports Policy
begin

text \<open>
  Several replicas of the gateway behind a load balancer, each with its own policy engine: the
  advisory that \<open>warnPerReplicaRateLimit\<close> in \<open>internal/server/server.go\<close> logs at the start, and its
  claim that \<open>n\<close> replicas together allow \<open>n\<close> times the configured rate.
\<close>

section \<open>The advisory\<close>

definition limited_tenants :: "Config \<Rightarrow> string list" where
  "limited_tenants cfg = map t_id (filter (\<lambda>t. 0 < t_rate_limit_rps t) (tenants cfg))"

definition multiplication_sign :: string where
  "multiplication_sign = [CHR 0xC3, CHR 0x97]"

definition per_replica_note :: string where
  "per_replica_note =
     ''note='' @ [CHR 0x22] @ ''rate_limit_rps is enforced per-replica (in-memory); ''
     @ ''in a multi-replica deployment the effective global limit is N'' @ multiplication_sign
     @ ''rate_limit_rps. '' @ ''To approximate a global cap, divide the desired RPS by your replica count.''
     @ [CHR 0x22]"

text \<open>The line that is logged, \<open>None\<close> for no line.\<close>

definition warnPerReplicaRateLimit :: "Config \<Rightarrow> string option" where
  "warnPerReplicaRateLimit cfg =
     (let limited = limited_tenants cfg
      in if limited = [] then None
         else Some (''event=rate_limit_per_replica tenants='' @ show_strings limited @ '' '' @ per_replica_note))"

lemma advisory_iff:
  "warnPerReplicaRateLimit cfg \<noteq> None \<longleftrightarrow> (\<exists>t \<in> set (tenants cfg). 0 < t_rate_limit_rps t)"
  by (auto simp: warnPerReplicaRateLimit_def limited_tenants_def Let_def filter_empty_conv)

section \<open>Replicas\<close>

text \<open>Each request goes to the replica \<open>r\<close> that the balancer picked, in the second \<open>now\<close>.\<close>

fun run_replicas ::
  "Config \<Rightarrow> (nat \<times> int \<times> AIRequest) list \<Rightarrow> (nat \<Rightarrow> BasicEngine) \<Rightarrow> (int \<times> string \<times> bool) list" where
  "run_replicas cfg [] es = []"
| "run_replicas cfg ((r, now, req) # xs) es =
     (let (d, e') = Evaluate cfg now req (es r)
      in (now, tenant_id req, is_allowed d) # run_replicas cfg xs (es(r := e')))"

definition seen_by :: "nat \<Rightarrow> (nat \<times> 'a) list \<Rightarrow> 'a list" where
  "seen_by r xs = map snd (filter (\<lambda>x. fst x = r) xs)"

lemma seen_by_simps [simp]:
  "seen_by r [] = []" "seen_by r ((q, x) # xs) = (if q = r then [x] else []) @ seen_by r xs"
  by (simp_all add: seen_by_def)

lemma sum_one_changed:
  fixes n :: nat
  assumes "r < n" "\<And>q. q \<noteq> r \<Longrightarrow> f q = (g q :: nat)" "f r = a + g r"
  shows "sum f {..<n} = a + sum g {..<n}"
proof -
  have "sum f {..<n} = f r + sum f ({..<n} - {r})" using assms(1) by (simp add: sum.remove)
  also have "sum f ({..<n} - {r}) = sum g ({..<n} - {r})" by (rule sum.cong) (auto simp: assms(2))
  finally show ?thesis using assms(1,3) by (simp add: sum.remove)
qed

text \<open>The grants of the replicas add up: each sees only its own requests.\<close>

lemma replicas_add_up:
  assumes "\<forall>x \<in> set xs. fst x < n"
  shows "allowed_in (run_replicas cfg xs es) sec i
     = (\<Sum>r < n. allowed_in (run_policy cfg (seen_by r xs) (es r)) sec i)"
  using assms
proof (induction xs arbitrary: es)
  case (Cons x xs)
  obtain r now req where x: "x = (r, now, req)" by (cases x)
  obtain d e' where ev: "Evaluate cfg now req (es r) = (d, e')" by (cases "Evaluate cfg now req (es r)")
  let ?a = "if (now, tenant_id req, is_allowed d) = (sec, i, True) then 1 else 0"
  have "(\<Sum>q < n. allowed_in (run_policy cfg (seen_by q (x # xs)) (es q)) sec i)
      = ?a + (\<Sum>q < n. allowed_in (run_policy cfg (seen_by q xs) ((es(r := e')) q)) sec i)"
    by (rule sum_one_changed[of r]) (use Cons.prems x ev in \<open>auto simp: allowed_in_def\<close>)
  moreover have "allowed_in (run_replicas cfg (x # xs) es) sec i
      = ?a + allowed_in (run_replicas cfg xs (es(r := e'))) sec i"
    using x ev by (simp add: allowed_in_def)
  ultimately show ?case using Cons.IH[of "es(r := e')"] Cons.prems by simp
qed (simp add: allowed_in_def)

lemma seen_sorted:
  assumes "sorted (map (fst \<circ> snd) xs)" "\<forall>x \<in> set xs. 0 \<le> fst (snd x)"
  shows "sorted (map fst (seen_by r xs)) \<and> (\<forall>x \<in> set (seen_by r xs). 0 \<le> fst x)"
  using assms by (induction xs) (auto simp: seen_by_def)

lemma window_before: "window_used NewBasicEngine sec i = 0"
  by (simp add: window_used_def tenant_count_def NewBasicEngine_def)

text \<open>One replica grants the requests of a second one by one until the limit.\<close>

lemma burst_granted:
  assumes "policy_guards cfg req" "tenant_id req = i" "rate_quota cfg i = l" "0 < l"
    and "window_used e sec i + int k \<le> l"
  shows "allowed_in (run_policy cfg (replicate k (sec, req)) e) sec i = k"
  using assms(5)
proof (induction k arbitrary: e)
  case (Suc k)
  let ?a = "allowByRateLimit sec i l e"
  have g: "fst ?a" using limiter.grant_iff[OF assms(4), of sec i e] Suc.prems by simp
  have "is_allowed (fst (Evaluate cfg sec req e))" "snd (Evaluate cfg sec req e) = snd ?a"
    using assms(1-3) g by (simp_all add: Evaluate_allowed_iff Evaluate_state)
  moreover have "window_used (snd ?a) sec i + int k \<le> l"
    using limiter.grant_counts[OF assms(4) g, of i] Suc.prems by simp
  ultimately show ?case using Suc.IH[of "snd ?a"] assms(2)
    by (simp add: allowed_in_def case_prod_beta)
qed (simp add: allowed_in_def)

lemma seen_by_append: "seen_by r (xs @ ys) = seen_by r xs @ seen_by r ys"
  by (simp add: seen_by_def)

lemma seen_by_burst:
  "seen_by r (concat (map (\<lambda>q. replicate k (q, x)) [0..<n])) = (if r < n then replicate k x else [])"
proof (induction n)
  case (Suc n)
  have "seen_by r (replicate k (n, x)) = (if r = n then replicate k x else [])"
    by (auto simp: seen_by_def filter_replicate)
  then show ?case using Suc by (auto simp: seen_by_append)
qed simp

section \<open>Property\<close>


section \<open>Witness\<close>


end
