(* ===== verification/Trace_Ids.thy ===== *)
theory Trace_Ids
  imports Go_Prelude "HOL-Library.Word"
begin

text \<open>
  The identifiers of traces and spans, \<open>internal/traceutil/ids.go\<close>: random bytes in hexadecimal.
  The source of randomness (\<open>crypto/rand\<close>) is the parameter \<open>rand\<close> on a state \<open>'x\<close>; what is relied
  on is that it fills the whole buffer when it reports no error.
\<close>

definition hex_digits :: string where
  "hex_digits = ''0123456789abcdef''"

definition nibble_char :: "nat \<Rightarrow> char" where
  "nibble_char n = hex_digits ! n"

definition hex_byte :: "8 word \<Rightarrow> string" where
  "hex_byte b = [nibble_char (unat b div 16), nibble_char (unat b mod 16)]"

definition EncodeToString :: "8 word list \<Rightarrow> string" where
  "EncodeToString bs = concat (map hex_byte bs)"

definition randomHex :: "(nat \<Rightarrow> 'x \<Rightarrow> (goerr + 8 word list) \<times> 'x) \<Rightarrow> nat \<Rightarrow> 'x \<Rightarrow> string \<times> 'x" where
  "randomHex rand byteLen x =
     (case rand byteLen x of
        (Inl e, x') \<Rightarrow> (EncodeToString (replicate byteLen 0), x')
      | (Inr buf, x') \<Rightarrow> (EncodeToString buf, x'))"

definition NewTraceID :: "(nat \<Rightarrow> 'x \<Rightarrow> (goerr + 8 word list) \<times> 'x) \<Rightarrow> 'x \<Rightarrow> string \<times> 'x" where
  "NewTraceID rand = randomHex rand 16"

definition NewSpanID :: "(nat \<Rightarrow> 'x \<Rightarrow> (goerr + 8 word list) \<times> 'x) \<Rightarrow> 'x \<Rightarrow> string \<times> 'x" where
  "NewSpanID rand = randomHex rand 8"

section \<open>The encoding\<close>

lemma nibbles: "unat (b :: 8 word) div 16 < 16" "unat b mod 16 < 16"
  using unsigned_less[of b, where ?'a = nat] by simp_all

lemma nibble_char_inj: "m < 16 \<Longrightarrow> n < 16 \<Longrightarrow> nibble_char m = nibble_char n \<Longrightarrow> m = n"
proof -
  have d: "distinct hex_digits" "length hex_digits = 16" by (simp_all add: hex_digits_def)
  assume "m < 16" "n < 16" "nibble_char m = nibble_char n"
  then show "m = n" using d by (simp add: nibble_char_def nth_eq_iff_index_eq)
qed

lemma nibble_char_set: "n < 16 \<Longrightarrow> nibble_char n \<in> set hex_digits"
  using nth_mem[of n hex_digits] by (simp add: nibble_char_def hex_digits_def del: nth_mem)

lemma hex_byte_inj: "hex_byte a = hex_byte b \<Longrightarrow> a = b"
proof -
  assume h: "hex_byte a = hex_byte b"
  then have "unat a div 16 = unat b div 16" "unat a mod 16 = unat b mod 16"
    using nibble_char_inj nibbles by (auto simp: hex_byte_def)
  then have "unat a = unat b" by (metis div_mult_mod_eq)
  then show "a = b" by (simp add: word_unat_eq_iff)
qed

lemma length_hex_byte [simp]: "length (hex_byte b) = 2"
  by (simp add: hex_byte_def)

lemma length_EncodeToString [simp]: "length (EncodeToString bs) = 2 * length bs"
  by (induction bs) (simp_all add: EncodeToString_def)

lemma set_EncodeToString: "set (EncodeToString bs) \<subseteq> set hex_digits"
  by (auto simp: EncodeToString_def hex_byte_def nibble_char_set nibbles)

lemma EncodeToString_inj: "EncodeToString bs = EncodeToString cs \<Longrightarrow> bs = cs"
proof (induction bs arbitrary: cs)
  case Nil
  then have "length (EncodeToString cs) = 0" by (simp add: EncodeToString_def)
  then show ?case by simp
next
  case (Cons b bs)
  have "length (EncodeToString cs) = 2 * Suc (length bs)"
    unfolding Cons.prems[symmetric] by simp
  then obtain c cs' where cs: "cs = c # cs'" by (cases cs) auto
  have "hex_byte b @ EncodeToString bs = hex_byte c @ EncodeToString cs'"
    using Cons.prems cs by (simp add: EncodeToString_def)
  then have "hex_byte b = hex_byte c" "EncodeToString bs = EncodeToString cs'"
    by (simp_all add: append_eq_append_conv)
  then show ?case using Cons.IH hex_byte_inj cs by blast
qed

lemma encode_zero: "EncodeToString (replicate n 0) = replicate (2 * n) CHR ''0''"
  by (induction n) (simp_all add: EncodeToString_def hex_byte_def nibble_char_def hex_digits_def)

section \<open>Property\<close>


section \<open>Witness\<close>

definition counting_source :: "nat \<Rightarrow> nat \<Rightarrow> (goerr + 8 word list) \<times> nat" where
  "counting_source n x = (Inr (replicate n (of_nat x)), Suc x)"


end
