(* ===== verification/Sql_Statements.thy ===== *)
theory Sql_Statements
  imports Sql_Store
begin

text \<open>
  The statements that the SQL ledgers send: for every operation of \<open>postgres.go\<close> and \<open>sqlite.go\<close> in
  \<open>internal/requests\<close> its columns, its placeholders and its arguments in the order of the source,
  and the destinations of its \<open>Scan\<close>, and the two schemas with their types, keys and \<open>NOT NULL\<close>
  constraints. They run on tables whose rows are values by column name, so that an argument in the
  wrong place, a missing column or a violated constraint shows. (Integers are not bounded by the
  width of their column.) The simulation lemmas take every
  operation to the one that \<open>Sql_Store\<close> gives it on records.
\<close>

section \<open>Values, statements and rows\<close>

datatype sql_value = NullValue | TextValue string | DocValue "json option" | IntValue int

text \<open>\<open>$n\<close> and \<open>?\<close>.\<close>

datatype placeholder = Dollar nat | Question

type_synonym sql_row = "(string \<times> sql_value) list"

record sql_db =
  db_requests :: "sql_row list"
  db_steps :: "sql_row list"

record insert_stmt =
  in_columns :: "string list"
  in_values :: "placeholder list"

record update_stmt =
  up_set :: "(string \<times> placeholder) list"
  up_where :: "string \<times> placeholder"

text \<open>The \<open>n\<close>-th placeholder of a statement takes its argument by number or by position.\<close>

definition argument_at :: "nat \<Rightarrow> placeholder \<Rightarrow> nat" where
  "argument_at n p = (case p of Dollar k \<Rightarrow> k - 1 | Question \<Rightarrow> n)"

definition arity :: "placeholder list \<Rightarrow> nat" where
  "arity ps = foldl max 0 (map (\<lambda>(n, p). Suc (argument_at n p)) (zip [0..<length ps] ps))"

text \<open>A driver refuses a wrong number of arguments.\<close>

definition bound :: "placeholder list \<Rightarrow> sql_value list \<Rightarrow> sql_value list option" where
  "bound ps args =
     (if arity ps \<noteq> length args then None
      else Some (map (\<lambda>(n, p). args ! argument_at n p) (zip [0..<length ps] ps)))"

definition insert_row :: "insert_stmt \<Rightarrow> sql_value list \<Rightarrow> sql_row option" where
  "insert_row ins args =
     (case bound (in_values ins) args of
        None \<Rightarrow> None
      | Some vs \<Rightarrow> if length vs = length (in_columns ins) then Some (zip (in_columns ins) vs) else None)"

definition bad_statement :: goerr where
  "bad_statement = ErrText ''sql: wrong number of arguments''"

definition doc_value :: "column \<Rightarrow> sql_value" where
  "doc_value c = (case c of Null \<Rightarrow> NullValue | Text d \<Rightarrow> DocValue d)"

section \<open>The schemas\<close>

text \<open>
  A column with its type and whether it is declared \<open>NOT NULL\<close>; the primary key; the column that
  references the request.
\<close>

datatype column_type = TextColumn | IntColumn

record table_schema =
  ts_columns :: "(string \<times> column_type \<times> bool) list"
  ts_primary :: "string list"
  ts_foreign :: "string option"

definition pg_requests :: table_schema where
  "pg_requests =
     \<lparr>ts_columns = [(''request_id'', TextColumn, False), (''trace_id'', TextColumn, True),
        (''request_type'', TextColumn, True), (''tenant_id'', TextColumn, True), (''task_type'', TextColumn, True),
        (''priority'', TextColumn, True), (''pipeline_ref'', TextColumn, True), (''input_json'', TextColumn, True),
        (''context_json'', TextColumn, True), (''ai_request_json'', TextColumn, False),
        (''policy_snapshot_json'', TextColumn, False), (''status'', TextColumn, True),
        (''selected_backend'', TextColumn, False), (''route_reason'', TextColumn, False),
        (''created_at'', IntColumn, True), (''updated_at'', IntColumn, True)],
      ts_primary = [''request_id''], ts_foreign = None\<rparr>"

definition pg_request_steps :: table_schema where
  "pg_request_steps =
     \<lparr>ts_columns = [(''request_id'', TextColumn, True), (''step_index'', IntColumn, True),
        (''step_type'', TextColumn, True), (''input_json'', TextColumn, False), (''output_json'', TextColumn, False),
        (''backend'', TextColumn, False), (''status'', TextColumn, True), (''error'', TextColumn, False),
        (''latency_ms'', IntColumn, True), (''metadata_json'', TextColumn, False)],
      ts_primary = [''request_id'', ''step_index''], ts_foreign = Some ''request_id''\<rparr>"

text \<open>The SQLite schema has the same columns, keys and constraints.\<close>

definition lite_requests :: table_schema where
  "lite_requests = pg_requests"

definition lite_request_steps :: table_schema where
  "lite_request_steps = pg_request_steps"

definition fits :: "column_type \<Rightarrow> sql_value \<Rightarrow> bool" where
  "fits ty v =
     (case v of NullValue \<Rightarrow> True | TextValue _ \<Rightarrow> ty = TextColumn | DocValue _ \<Rightarrow> ty = TextColumn
      | IntValue _ \<Rightarrow> ty = IntColumn)"

text \<open>A column that a row does not have is NULL; a key column may not be.\<close>

definition column_value :: "sql_row \<Rightarrow> string \<Rightarrow> sql_value" where
  "column_value r c = (case map_of r c of None \<Rightarrow> NullValue | Some v \<Rightarrow> v)"

definition conforms :: "table_schema \<Rightarrow> sql_row \<Rightarrow> bool" where
  "conforms sch r \<longleftrightarrow>
     list_all (\<lambda>(c, ty, not_null). fits ty (column_value r c)
       \<and> (not_null \<or> c \<in> set (ts_primary sch) \<longrightarrow> column_value r c \<noteq> NullValue)) (ts_columns sch)
     \<and> list_all (\<lambda>(c, _). c \<in> fst ` set (ts_columns sch)) r"

definition key_of :: "table_schema \<Rightarrow> sql_row \<Rightarrow> sql_value list" where
  "key_of sch r = map (column_value r) (ts_primary sch)"

definition violated :: goerr where
  "violated = ErrText ''constraint violated''"

section \<open>Postgres\<close>

definition pg_insert_request :: insert_stmt where
  "pg_insert_request =
     \<lparr>in_columns = [''request_id'', ''trace_id'', ''request_type'', ''tenant_id'', ''task_type'', ''priority'',
        ''pipeline_ref'', ''input_json'', ''context_json'', ''ai_request_json'', ''policy_snapshot_json'',
        ''status'', ''selected_backend'', ''route_reason'', ''created_at'', ''updated_at''],
      in_values = [Dollar 1, Dollar 2, Dollar 3, Dollar 4, Dollar 5, Dollar 6, Dollar 7, Dollar 8, Dollar 9,
        Dollar 10, Dollar 11, Dollar 12, Dollar 13, Dollar 14, Dollar 15, Dollar 16]\<rparr>"

definition pg_request_args :: "RequestRow \<Rightarrow> sql_value list" where
  "pg_request_args row =
     [TextValue (rq_request_id row), TextValue (rq_trace_id row), TextValue (rq_request_type row),
      TextValue (rq_tenant_id row), TextValue (rq_task_type row), TextValue (rq_priority row),
      TextValue (rq_pipeline_ref row), DocValue (rq_input_json row), DocValue (rq_context_json row),
      doc_value (nullIfEmpty (rq_ai_request_json row)), DocValue (rq_policy_snapshot row),
      TextValue (rq_status row), TextValue (rq_selected_backend row), TextValue (rq_route_reason row),
      IntValue (unix_milli (rq_created_at row)), IntValue (unix_milli (rq_updated_at row))]"

definition pg_update_request :: update_stmt where
  "pg_update_request =
     \<lparr>up_set = [(''policy_snapshot_json'', Dollar 1), (''status'', Dollar 2), (''selected_backend'', Dollar 3),
        (''route_reason'', Dollar 4), (''updated_at'', Dollar 5)],
      up_where = (''request_id'', Dollar 6)\<rparr>"

definition update_args :: "string \<Rightarrow> RequestRow \<Rightarrow> sql_value list" where
  "update_args requestID r =
     [DocValue (rq_policy_snapshot r), TextValue (rq_status r), TextValue (rq_selected_backend r),
      TextValue (rq_route_reason r), IntValue (unix_milli (rq_updated_at r)), TextValue requestID]"

definition pg_insert_step :: insert_stmt where
  "pg_insert_step =
     \<lparr>in_columns = [''request_id'', ''step_index'', ''step_type'', ''input_json'', ''output_json'', ''backend'',
        ''status'', ''error'', ''latency_ms'', ''metadata_json''],
      in_values = [Dollar 1, Dollar 2, Dollar 3, Dollar 4, Dollar 5, Dollar 6, Dollar 7, Dollar 8, Dollar 9,
        Dollar 10]\<rparr>"

definition nullStringBytes :: "json option \<Rightarrow> sql_value" where
  "nullStringBytes d = (case d of None \<Rightarrow> NullValue | Some j \<Rightarrow> DocValue (Some j))"

definition pg_step_args :: "StepRow \<Rightarrow> sql_value list" where
  "pg_step_args st =
     [TextValue (st_request_id st), IntValue (st_step_index st), TextValue (st_step_type st),
      nullStringBytes (st_input_json st), nullStringBytes (st_output_json st), TextValue (st_backend st),
      TextValue (st_status st), TextValue (st_error st), IntValue (st_latency_ms st),
      nullStringBytes (st_metadata_json st)]"

definition pg_select_request :: "string list" where
  "pg_select_request =
     [''request_id'', ''trace_id'', ''request_type'', ''tenant_id'', ''task_type'', ''priority'', ''pipeline_ref'',
      ''input_json'', ''context_json'', ''ai_request_json'', ''policy_snapshot_json'', ''status'',
      ''selected_backend'', ''route_reason'', ''created_at'', ''updated_at'']"

definition pg_select_steps :: "string list" where
  "pg_select_steps =
     [''request_id'', ''step_index'', ''step_type'', ''input_json'', ''output_json'', ''backend'', ''status'',
      ''error'', ''latency_ms'', ''metadata_json'']"

section \<open>Scan\<close>

text \<open>
  The destinations: a \<open>string\<close> and an \<open>int\<close> refuse NULL, a \<open>[]byte\<close> and a \<open>sql.NullString\<close> take it.
\<close>

definition to_string :: "sql_value \<Rightarrow> string option" where
  "to_string v = (case v of TextValue s \<Rightarrow> Some s | _ \<Rightarrow> None)"

definition to_int64 :: "sql_value \<Rightarrow> int option" where
  "to_int64 v = (case v of IntValue n \<Rightarrow> Some n | _ \<Rightarrow> None)"

definition to_bytes :: "sql_value \<Rightarrow> json option option" where
  "to_bytes v = (case v of NullValue \<Rightarrow> Some None | DocValue d \<Rightarrow> Some d | _ \<Rightarrow> None)"

definition pg_scan_request :: "sql_value list \<Rightarrow> RequestRow option" where
  "pg_scan_request vs =
     (case vs of
        [i, tr, rt, te, ta, pr, pl, inp, ctxt, ai, snap, st, be, rr, cr, up] \<Rightarrow>
          (case (to_string i, to_string tr, to_string rt, to_string te, to_string ta, to_string pr, to_string pl) of
             (Some i', Some tr', Some rt', Some te', Some ta', Some pr', Some pl') \<Rightarrow>
               (case (to_bytes inp, to_bytes ctxt, to_bytes ai, to_bytes snap, to_string st, to_string be,
                      to_string rr, to_int64 cr, to_int64 up) of
                  (Some inp', Some ctxt', Some ai', Some snap', Some st', Some be', Some rr', Some cr', Some up') \<Rightarrow>
                    Some \<lparr>rq_request_id = i', rq_trace_id = tr', rq_request_type = rt', rq_tenant_id = te',
                          rq_task_type = ta', rq_priority = pr', rq_pipeline_ref = pl', rq_input_json = inp',
                          rq_context_json = ctxt', rq_ai_request_json = ai', rq_policy_snapshot = snap',
                          rq_status = st', rq_selected_backend = be', rq_route_reason = rr',
                          rq_created_at = milli_time cr', rq_updated_at = milli_time up'\<rparr>
                | _ \<Rightarrow> None)
           | _ \<Rightarrow> None)
      | _ \<Rightarrow> None)"

definition pg_scan_step :: "sql_value list \<Rightarrow> StepRow option" where
  "pg_scan_step vs =
     (case vs of
        [i, n, ty, inp, out, be, st, er, lat, meta] \<Rightarrow>
          (case (to_string i, to_int64 n, to_string ty, to_bytes inp, to_bytes out, to_string be, to_string st,
                 to_string er, to_int64 lat, to_bytes meta) of
             (Some i', Some n', Some ty', Some inp', Some out', Some be', Some st', Some er', Some lat', Some meta') \<Rightarrow>
               Some \<lparr>st_request_id = i', st_step_index = n', st_step_type = ty', st_input_json = inp',
                     st_output_json = out', st_backend = be', st_status = st', st_error = er',
                     st_latency_ms = lat', st_metadata_json = meta'\<rparr>
           | _ \<Rightarrow> None)
      | _ \<Rightarrow> None)"

definition scan_error :: goerr where
  "scan_error = ErrText ''sql: Scan error''"

definition selected :: "string list \<Rightarrow> sql_row \<Rightarrow> sql_value list" where
  "selected cols r = map (column_value r) cols"

section \<open>SQLite\<close>

definition lite_insert_request :: insert_stmt where
  "lite_insert_request = pg_insert_request\<lparr>in_values := replicate 16 Question\<rparr>"

definition lite_request_args :: "RequestRow \<Rightarrow> sql_value list" where
  "lite_request_args row =
     [TextValue (rq_request_id row), TextValue (rq_trace_id row), TextValue (rq_request_type row),
      TextValue (rq_tenant_id row), TextValue (rq_task_type row), TextValue (rq_priority row),
      TextValue (rq_pipeline_ref row), DocValue (rq_input_json row), DocValue (rq_context_json row),
      DocValue (rq_ai_request_json row), DocValue (rq_policy_snapshot row),
      TextValue (rq_status row), TextValue (rq_selected_backend row), TextValue (rq_route_reason row),
      IntValue (unix_milli (rq_created_at row)), IntValue (unix_milli (rq_updated_at row))]"

definition lite_update_request :: update_stmt where
  "lite_update_request =
     \<lparr>up_set = [(''policy_snapshot_json'', Question), (''status'', Question), (''selected_backend'', Question),
        (''route_reason'', Question), (''updated_at'', Question)],
      up_where = (''request_id'', Question)\<rparr>"

definition lite_insert_step :: insert_stmt where
  "lite_insert_step = pg_insert_step\<lparr>in_values := replicate 10 Question\<rparr>"

definition lite_step_args :: "StepRow \<Rightarrow> sql_value list" where
  "lite_step_args st =
     [TextValue (st_request_id st), IntValue (st_step_index st), TextValue (st_step_type st),
      DocValue (st_input_json st), DocValue (st_output_json st), TextValue (st_backend st),
      TextValue (st_status st), TextValue (st_error st), IntValue (st_latency_ms st),
      DocValue (st_metadata_json st)]"

section \<open>Running the statements\<close>

definition exec_insert_request ::
  "table_schema \<Rightarrow> insert_stmt \<Rightarrow> (RequestRow \<Rightarrow> sql_value list) \<Rightarrow> driver \<Rightarrow> RequestRow \<Rightarrow> sql_db
     \<Rightarrow> goerr option \<times> sql_db" where
  "exec_insert_request sch ins args dr row db =
     (case dr_exec dr of
        Some e \<Rightarrow> (Some e, db)
      | None \<Rightarrow>
          (case insert_row ins (args row) of
             None \<Rightarrow> (Some bad_statement, db)
           | Some r \<Rightarrow>
               if \<not> conforms sch r then (Some violated, db)
               else if list_ex (\<lambda>q. key_of sch q = key_of sch r) (db_requests db) then (Some (dr_unique dr), db)
               else (None, db\<lparr>db_requests := db_requests db @ [r]\<rparr>)))"

definition pg_CreateRequest :: "driver \<Rightarrow> RequestRow \<Rightarrow> sql_db \<Rightarrow> goerr option \<times> sql_db" where
  "pg_CreateRequest = exec_insert_request pg_requests pg_insert_request pg_request_args"

definition lite_CreateRequest :: "driver \<Rightarrow> RequestRow \<Rightarrow> sql_db \<Rightarrow> goerr option \<times> sql_db" where
  "lite_CreateRequest = exec_insert_request lite_requests lite_insert_request lite_request_args"

definition pg_GetRequest :: "driver \<Rightarrow> string \<Rightarrow> sql_db \<Rightarrow> goerr + RequestRow" where
  "pg_GetRequest dr i db =
     (case dr_query dr of
        Some e \<Rightarrow> Inl e
      | None \<Rightarrow>
          (case find (\<lambda>r. map_of r ''request_id'' = Some (TextValue i)) (db_requests db) of
             None \<Rightarrow> Inl ErrNotFound
           | Some r \<Rightarrow>
               (case pg_scan_request (selected pg_select_request r) of
                  None \<Rightarrow> Inl scan_error | Some row \<Rightarrow> Inr row)))"

definition updated :: "update_stmt \<Rightarrow> sql_value list \<Rightarrow> sql_row list \<Rightarrow> sql_row list option" where
  "updated upd args rows =
     (case bound (map snd (up_set upd) @ [snd (up_where upd)]) args of
        None \<Rightarrow> None
      | Some vs \<Rightarrow> Some (map (\<lambda>r. if map_of r (fst (up_where upd)) = Some (last vs)
                           then foldl (\<lambda>r (c, v). AList.update c v r) r (zip (map fst (up_set upd)) (butlast vs))
                           else r) rows))"

definition exec_update_request ::
  "table_schema \<Rightarrow> update_stmt \<Rightarrow> driver \<Rightarrow> string \<Rightarrow> RequestPatch \<Rightarrow> sql_db \<Rightarrow> goerr option \<times> sql_db" where
  "exec_update_request sch upd dr i p db =
     (case pg_GetRequest dr i db of
        Inl e \<Rightarrow> (Some e, db)
      | Inr r \<Rightarrow>
          (case dr_exec dr of
             Some e \<Rightarrow> (Some e, db)
           | None \<Rightarrow>
               (case updated upd (update_args i (patch_row p r)) (db_requests db) of
                  None \<Rightarrow> (Some bad_statement, db)
                | Some rows \<Rightarrow>
                    if list_all (conforms sch) rows then (None, db\<lparr>db_requests := rows\<rparr>)
                    else (Some violated, db))))"

definition pg_UpdateRequest :: "driver \<Rightarrow> string \<Rightarrow> RequestPatch \<Rightarrow> sql_db \<Rightarrow> goerr option \<times> sql_db" where
  "pg_UpdateRequest = exec_update_request pg_requests pg_update_request"

definition lite_UpdateRequest :: "driver \<Rightarrow> string \<Rightarrow> RequestPatch \<Rightarrow> sql_db \<Rightarrow> goerr option \<times> sql_db" where
  "lite_UpdateRequest = exec_update_request lite_requests lite_update_request"

definition exec_insert_step ::
  "table_schema \<Rightarrow> insert_stmt \<Rightarrow> (StepRow \<Rightarrow> sql_value list) \<Rightarrow> driver \<Rightarrow> StepRow \<Rightarrow> sql_db
     \<Rightarrow> goerr option \<times> sql_db" where
  "exec_insert_step sch ins args dr st db =
     (case dr_exec dr of
        Some e \<Rightarrow> (Some e, db)
      | None \<Rightarrow>
          (case insert_row ins (args st) of
             None \<Rightarrow> (Some bad_statement, db)
           | Some r \<Rightarrow>
               if \<not> conforms sch r then (Some violated, db)
               else if list_ex (\<lambda>q. key_of sch q = key_of sch r) (db_steps db) then (Some (dr_unique dr), db)
               else if \<not> (case ts_foreign sch of None \<Rightarrow> True
                 | Some c \<Rightarrow> list_ex (\<lambda>q. column_value q ''request_id'' = column_value r c) (db_requests db))
                 then (Some (dr_foreign dr), db)
               else (None, db\<lparr>db_steps := db_steps db @ [r]\<rparr>)))"

definition pg_AppendStep :: "driver \<Rightarrow> StepRow \<Rightarrow> sql_db \<Rightarrow> goerr option \<times> sql_db" where
  "pg_AppendStep = exec_insert_step pg_request_steps pg_insert_step pg_step_args"

definition lite_AppendStep :: "driver \<Rightarrow> StepRow \<Rightarrow> sql_db \<Rightarrow> goerr option \<times> sql_db" where
  "lite_AppendStep = exec_insert_step lite_request_steps lite_insert_step lite_step_args"

definition index_value :: "sql_row \<Rightarrow> int" where
  "index_value r = (case map_of r ''step_index'' of Some (IntValue n) \<Rightarrow> n | _ \<Rightarrow> 0)"

fun scan_steps :: "sql_row list \<Rightarrow> StepRow list option" where
  "scan_steps [] = Some []"
| "scan_steps (r # rs) =
     (case pg_scan_step (selected pg_select_steps r) of
        None \<Rightarrow> None | Some st \<Rightarrow> map_option (Cons st) (scan_steps rs))"

definition pg_ListSteps :: "driver \<Rightarrow> string \<Rightarrow> sql_db \<Rightarrow> goerr + StepRow list" where
  "pg_ListSteps dr i db =
     (case dr_query dr of
        Some e \<Rightarrow> Inl e
      | None \<Rightarrow>
          (case scan_steps (sort_key index_value
                  (filter (\<lambda>r. map_of r ''request_id'' = Some (TextValue i)) (db_steps db))) of
             None \<Rightarrow> Inl scan_error
           | Some out \<Rightarrow>
               if out = [] then (case pg_GetRequest dr i db of Inl e \<Rightarrow> Inl e | Inr _ \<Rightarrow> Inr [])
               else Inr out))"

section \<open>Rows of the tables\<close>

definition request_row_of :: "request_columns \<Rightarrow> sql_row" where
  "request_row_of c =
     [(''request_id'', TextValue (rc_request_id c)), (''trace_id'', TextValue (rc_trace_id c)),
      (''request_type'', TextValue (rc_request_type c)), (''tenant_id'', TextValue (rc_tenant_id c)),
      (''task_type'', TextValue (rc_task_type c)), (''priority'', TextValue (rc_priority c)),
      (''pipeline_ref'', TextValue (rc_pipeline_ref c)), (''input_json'', doc_value (rc_input_json c)),
      (''context_json'', doc_value (rc_context_json c)), (''ai_request_json'', doc_value (rc_ai_request_json c)),
      (''policy_snapshot_json'', doc_value (rc_policy_snapshot_json c)), (''status'', TextValue (rc_status c)),
      (''selected_backend'', TextValue (rc_selected_backend c)), (''route_reason'', TextValue (rc_route_reason c)),
      (''created_at'', IntValue (rc_created_at c)), (''updated_at'', IntValue (rc_updated_at c))]"

definition step_row_of :: "step_columns \<Rightarrow> sql_row" where
  "step_row_of c =
     [(''request_id'', TextValue (sc_request_id c)), (''step_index'', IntValue (sc_step_index c)),
      (''step_type'', TextValue (sc_step_type c)), (''input_json'', doc_value (sc_input_json c)),
      (''output_json'', doc_value (sc_output_json c)), (''backend'', TextValue (sc_backend c)),
      (''status'', TextValue (sc_status c)), (''error'', TextValue (sc_error c)),
      (''latency_ms'', IntValue (sc_latency_ms c)), (''metadata_json'', doc_value (sc_metadata_json c))]"

definition represents :: "sql_db \<Rightarrow> tables \<Rightarrow> bool" where
  "represents db t \<longleftrightarrow>
     db_requests db = map request_row_of (tb_requests t) \<and> db_steps db = map step_row_of (tb_steps t)
     \<and> list_all (conforms pg_requests) (db_requests db)"

lemma bound_dollars:
  "bound [Dollar 1, Dollar 2, Dollar 3, Dollar 4, Dollar 5, Dollar 6, Dollar 7, Dollar 8, Dollar 9,
     Dollar 10, Dollar 11, Dollar 12, Dollar 13, Dollar 14, Dollar 15, Dollar 16]
     [a, b, c, d, e, f, g, h, i, j, k, l, m, n, q, r] = Some [a, b, c, d, e, f, g, h, i, j, k, l, m, n, q, r]"
  "bound [Dollar 1, Dollar 2, Dollar 3, Dollar 4, Dollar 5, Dollar 6, Dollar 7, Dollar 8, Dollar 9, Dollar 10]
     [a, b, c, d, e, f, g, h, i, j] = Some [a, b, c, d, e, f, g, h, i, j]"
  "bound [Dollar 1, Dollar 2, Dollar 3, Dollar 4, Dollar 5, Dollar 6] [a, b, c, d, e, f]
     = Some [a, b, c, d, e, f]"
  by (simp_all add: bound_def arity_def argument_at_def upt_rec numeral_eq_Suc)

lemma bound_questions:
  assumes "length args = n"
  shows "bound (replicate n Question) args = Some args"
proof -
  have z: "zip [0..<n] (replicate n Question) = map (\<lambda>k. (k, Question)) [0..<n]" for n
    by (simp add: list_eq_iff_nth_eq)
  have "foldl max 0 (map Suc [0..<n]) = n" for n by (induction n) auto
  then have "arity (replicate n Question) = n" for n
    by (simp add: arity_def z argument_at_def comp_def)
  with assms show ?thesis by (simp add: bound_def z argument_at_def comp_def map_nth flip: assms)
qed

text \<open>Every placeholder of the inserts is bound to the column of its name.\<close>

lemma inserted_rows:
  "insert_row pg_insert_request (pg_request_args r) = Some (request_row_of (request_values Postgres r))"
  "insert_row lite_insert_request (lite_request_args r) = Some (request_row_of (request_values SQLite r))"
  "insert_row pg_insert_step (pg_step_args st) = Some (step_row_of (step_values Postgres st))"
  "insert_row lite_insert_step (lite_step_args st) = Some (step_row_of (step_values SQLite st))"
  by (simp_all del: One_nat_def add: insert_row_def pg_insert_request_def pg_request_args_def lite_insert_request_def
      lite_request_args_def pg_insert_step_def pg_step_args_def lite_insert_step_def lite_step_args_def
      bound_dollars bound_questions request_row_of_def request_values_def step_row_of_def step_values_def doc_value_def
      nullStringBytes_def nullIfEmpty_def split: option.split)

lemma columns_at [simp]:
  "map_of (request_row_of c) ''request_id'' = Some (TextValue (rc_request_id c))"
  "map_of (step_row_of d) ''request_id'' = Some (TextValue (sc_request_id d))"
  "map_of (step_row_of d) ''step_index'' = Some (IntValue (sc_step_index d))"
  "index_value (step_row_of d) = sc_step_index d"
  "column_value (request_row_of c) ''request_id'' = TextValue (rc_request_id c)"
  "column_value (step_row_of d) ''request_id'' = TextValue (sc_request_id d)"
  "column_value (step_row_of d) ''step_index'' = IntValue (sc_step_index d)"
  by (simp_all add: request_row_of_def step_row_of_def index_value_def column_value_def)

lemma keys_at [simp]:
  "key_of pg_requests (request_row_of c) = [TextValue (rc_request_id c)]"
  "key_of pg_request_steps (step_row_of d) = [TextValue (sc_request_id d), IntValue (sc_step_index d)]"
  by (simp_all add: key_of_def pg_requests_def pg_request_steps_def)

lemma fits_simps [simp]:
  "fits TextColumn (TextValue x)" "fits IntColumn (IntValue n)" "fits TextColumn (doc_value c)"
  "doc_value c = NullValue \<longleftrightarrow> c = Null"
  by (cases c; simp add: fits_def doc_value_def)+

text \<open>The two documents that may not be NULL are the only ones a constraint can concern.\<close>

lemma rows_conform:
  "conforms pg_requests (request_row_of c) \<longleftrightarrow> rc_input_json c \<noteq> Null \<and> rc_context_json c \<noteq> Null"
  "conforms pg_request_steps (step_row_of d)"
  by (simp_all add: conforms_def pg_requests_def pg_request_steps_def column_value_def request_row_of_def
      step_row_of_def)

lemma values_conform:
  "conforms pg_requests (request_row_of (request_values dl row))"
  "conforms pg_requests (request_row_of (update_columns r c)) = conforms pg_requests (request_row_of c)"
  by (simp_all add: rows_conform request_values_def update_columns_def)

lemma scanned_values [simp]:
  "to_string (TextValue s) = Some s" "to_int64 (IntValue n) = Some n" "to_bytes (doc_value c) = Some (column_doc c)"
  by (cases c; simp add: to_string_def to_int64_def to_bytes_def doc_value_def)+

text \<open>Every destination of the scans is that of its column.\<close>

lemma scanned_rows:
  "pg_scan_request (selected pg_select_request (request_row_of c)) = Some (scan_request c)"
  "pg_scan_step (selected pg_select_steps (step_row_of d)) = Some (scan_step d)"
  by (simp_all add: selected_def column_value_def pg_select_request_def pg_select_steps_def request_row_of_def step_row_of_def
      pg_scan_request_def pg_scan_step_def scan_request_def scan_step_def)

lemma scanned_steps: "scan_steps (map step_row_of ds) = Some (map scan_step ds)"
  by (induction ds) (simp_all add: scanned_rows)

lemma updated_rows:
  assumes "upd \<in> {pg_update_request, lite_update_request}"
  shows "updated upd (update_args i r) (map request_row_of cs)
    = Some (map request_row_of (map (\<lambda>c. if rc_request_id c = i then update_columns r c else c) cs))"
proof -
  define vs where "vs = update_args i r"
  have "bound (map snd (up_set upd) @ [snd (up_where upd)]) vs = Some vs"
    using assms bound_questions[of vs "Suc (Suc (Suc (Suc (Suc (Suc 0)))))"]
    by (auto simp del: One_nat_def simp add: pg_update_request_def lite_update_request_def vs_def update_args_def bound_dollars)
  moreover have "last vs = TextValue i" by (simp add: vs_def update_args_def)
  moreover have "fst (up_where upd) = ''request_id''"
    using assms by (auto simp: pg_update_request_def lite_update_request_def)
  moreover have "foldl (\<lambda>r (c, v). AList.update c v r) (request_row_of c) (zip (map fst (up_set upd)) (butlast vs))
      = request_row_of (update_columns r c)" for c
    using assms by (auto simp: pg_update_request_def lite_update_request_def vs_def update_args_def
        request_row_of_def update_columns_def doc_value_def)
  ultimately show ?thesis by (simp add: updated_def vs_def[symmetric] cong: if_cong)
qed

section \<open>The statements compute the operations on records\<close>

lemma represented_find:
  "find (\<lambda>r. map_of r ''request_id'' = Some (TextValue i)) (map request_row_of cs)
    = map_option request_row_of (find (\<lambda>c. rc_request_id c = i) cs)"
  by (induction cs) auto

lemma represented_known:
  "list_ex (\<lambda>q. key_of pg_requests q = [TextValue i]) (map request_row_of cs) \<longleftrightarrow> find (\<lambda>c. rc_request_id c = i) cs \<noteq> None"
  "list_ex (\<lambda>q. column_value q ''request_id'' = TextValue i) (map request_row_of cs)
    \<longleftrightarrow> find (\<lambda>c. rc_request_id c = i) cs \<noteq> None"
  by (induction cs) auto

lemma represented_key:
  "list_ex (\<lambda>q. key_of pg_request_steps q = key_of pg_request_steps (step_row_of d)) (map step_row_of ds)
    \<longleftrightarrow> (sc_request_id d, sc_step_index d) \<in> set (map (\<lambda>c. (sc_request_id c, sc_step_index c)) ds)"
  by (induction ds) auto

lemma filter_rows:
  "filter (\<lambda>r. map_of r ''request_id'' = Some (TextValue i)) (map step_row_of ds)
    = map step_row_of (filter (\<lambda>c. sc_request_id c = i) ds)"
  by (induction ds) auto

lemma sort_rows: "sort_key index_value (map step_row_of ds) = map step_row_of (sort_key sc_step_index ds)"
proof -
  have "insort_key index_value (step_row_of d) (map step_row_of es) = map step_row_of (insort_key sc_step_index d es)" for d es
    by (induction es) auto
  then show ?thesis by (induction ds) simp_all
qed

lemma get_represents:
  assumes "represents db t"
  shows "pg_GetRequest dr i db = sql_GetRequest dr i t"
  using assms
  by (simp add: represents_def pg_GetRequest_def sql_GetRequest_def request_columns_of_def represented_find scanned_rows
      split: option.split)

lemma list_represents:
  assumes "represents db t"
  shows "pg_ListSteps dr i db = sql_ListSteps dr i t"
proof -
  have "sort_key index_value (filter (\<lambda>r. map_of r ''request_id'' = Some (TextValue i)) (db_steps db))
      = map step_row_of (step_columns_of i t)"
    using assms by (simp add: represents_def filter_rows sort_rows step_columns_of_def)
  then show ?thesis
    by (simp add: pg_ListSteps_def sql_ListSteps_def scanned_steps get_represents[OF assms] Let_def cong: option.case_cong)
qed

text \<open>Two operations that answer alike and leave tables that correspond.\<close>

definition alike :: "'e \<times> sql_db \<Rightarrow> 'e \<times> tables \<Rightarrow> bool" where
  "alike x y \<longleftrightarrow> fst x = fst y \<and> represents (snd x) (snd y)"

lemma create_represents:
  assumes "represents db t" "insert_row ins (args row) = Some (request_row_of (request_values dl row))"
  shows "alike (exec_insert_request pg_requests ins args dr row db) (sql_CreateRequest dl dr row t)"
  using assms
  by (auto simp: alike_def represents_def exec_insert_request_def sql_CreateRequest_def request_columns_of_def
      represented_known values_conform split: option.split)

lemma update_represents:
  assumes "represents db t" "upd \<in> {pg_update_request, lite_update_request}"
  shows "alike (exec_update_request pg_requests upd dr i p db) (sql_UpdateRequest dr i p t)"
proof -
  have "list_all (conforms pg_requests)
      (map request_row_of (map (\<lambda>c. if rc_request_id c = i then update_columns r c else c) (tb_requests t)))" for r
    using assms(1) by (auto simp: represents_def list_all_iff values_conform)
  then show ?thesis
    using assms updated_rows[OF assms(2), of i _ "tb_requests t"]
    by (auto simp: alike_def represents_def exec_update_request_def sql_UpdateRequest_def get_represents[OF assms(1)]
        split: option.split sum.split)
qed

lemma append_represents:
  assumes "represents db t" "insert_row ins (args st) = Some (step_row_of (step_values dl st))"
  shows "alike (exec_insert_step pg_request_steps ins args dr st db) (sql_AppendStep dl dr st t)"
proof -
  have "ts_foreign pg_request_steps = Some ''request_id''" by (simp add: pg_request_steps_def)
  moreover have "list_ex (\<lambda>q. column_value q ''request_id'' = column_value (step_row_of (step_values dl st)) ''request_id'')
      (db_requests db) \<longleftrightarrow> request_columns_of (st_request_id st) t \<noteq> None"
    using assms(1) by (simp add: represents_def represented_known request_columns_of_def)
  moreover have "list_ex (\<lambda>q. key_of pg_request_steps q = key_of pg_request_steps (step_row_of (step_values dl st)))
      (db_steps db) \<longleftrightarrow> (st_request_id st, st_step_index st) \<in> set (map (\<lambda>c. (sc_request_id c, sc_step_index c)) (tb_steps t))"
    using assms(1) represented_key[of "step_values dl st" "tb_steps t"] by (simp add: represents_def)
  ultimately show ?thesis
    using assms
    by (auto simp del: columns_at keys_at simp add: alike_def represents_def exec_insert_step_def sql_AppendStep_def
        rows_conform(2) split: option.split)
qed

section \<open>Properties\<close>


section \<open>Witness\<close>

definition demo_row :: RequestRow where
  "demo_row = \<lparr>rq_request_id = ''a'', rq_trace_id = ''t'', rq_request_type = ''inference'', rq_tenant_id = ''t1'',
     rq_task_type = ''chat'', rq_priority = ''high'', rq_pipeline_ref = [], rq_input_json = Some (VMap []),
     rq_context_json = None, rq_ai_request_json = None, rq_policy_snapshot = None, rq_status = ''running'',
     rq_selected_backend = ''mock'', rq_route_reason = [], rq_created_at = 0, rq_updated_at = 0\<rparr>"


end
