(* ===== verification/Spec2Isabelle.thy ===== *)
theory Spec2Isabelle
  imports Process Overlap Http_Api Replicas Trace_Ids Sql_Statements
begin

text \<open>
  \<^bold>\<open>InferCore\<close> is a gateway in front of language-model backends: one HTTP service that takes AI requests
  on \<open>POST /infer\<close>, applies the policy of the tenant, admits or sheds load, chooses a backend, retrieves
  documents for RAG requests, calls the backend with fallbacks, and records what happened in a ledger
  and in a store of timings. A command line reads the ledger back: it prints a request, replays it, or
  exports it as a test for the evaluation harness. This development models the Go code under
  \<open>internal/\<close> and \<open>cmd/\<close> and proves what its components promise to each other and to the client.

  \<^bold>\<open>Theories and code.\<close>

  \<^item> \<open>Go_Strings\<close>, \<open>Go_Float\<close>, \<open>Go_Prelude\<close>: the part of Go's standard library that the code uses
    (strings, rounded floats, the 64-bit \<open>int\<close>, times, errors, values of type \<open>any\<close>), with the
    lemmas and hint collections the other theories share.
  \<^item> \<open>Req_Types\<close>: \<open>internal/types\<close> and \<open>internal/pipelines\<close>. \<open>Config_Model\<close>, \<open>Config_Check\<close>:
    \<open>internal/config\<close> and the triggers of \<open>internal/fallback\<close>; \<open>validate\<close> is cut into one definition
    per block, and what it accepts is the invariant \<open>Load_sound\<close> the others rely on.
  \<^item> \<open>Policy\<close>: \<open>internal/policy\<close>, with the rate limiter as the locale \<open>rate_limiter\<close>. \<open>Routing\<close>:
    \<open>internal/router\<close> and \<open>internal/cost\<close>, with the locale \<open>cost_engine\<close>.
  \<^item> \<open>Reliability\<close>: \<open>internal/reliability\<close> and the fallback list of the server. An adapter is a
    function on the outside world; the calls of an execution are observed as a list of \<open>call\<close>s.
  \<^item> \<open>Slo\<close>: \<open>internal/slo\<close>. \<open>Admission\<close>: \<open>beginInferLoad\<close> of \<open>internal/server/server.go\<close>, once as a
    function and once as the step relation of concurrent calls with their loads and compare-and-swaps.
    \<open>Runtime_State\<close>: the health cache, the timeout window and the scaling signals of the server.
  \<^item> \<open>Ledger\<close>: rows, memory store and step writer (\<open>internal/requests\<close>, \<open>internal/execution\<close>) with the
    locale \<open>ledger_store\<close>. \<open>Sql_Store\<close>: the SQLite and Postgres stores over the tables of their schema,
    with the weaker locale \<open>durable_store\<close>, which the memory store meets too. \<open>Sql_Statements\<close>: the
    text of their statements, run on tables of named values; it refines \<open>Sql_Store\<close>.
  \<^item> \<open>Retrieval\<close>, \<open>Retrieval_Http\<close>: \<open>internal/retrieval\<close>, the file index and the three remote
    knowledge bases with their requests and answers.
  \<^item> \<open>Orchestrator\<close>: \<open>internal/inferexec\<close>, the whole \<open>Run\<close>; the components are fields of the record
    \<open>orchestrator\<close> and the locale \<open>infer_pipeline\<close> states what \<open>Run\<close> needs of them. \<open>Gateway\<close>: the
    state of a server as one record, the wiring of the components into the pipeline, the ledger
    writes and the RAG pipeline; it interprets \<open>infer_pipeline\<close>. \<open>Server\<close>: the handlers, the response,
    the middleware and the routes. \<open>Pipeline_Frame\<close>: locales for what every step of the pipeline leaves
    unchanged. \<open>Request_Traces\<close>: the trace records of a call. \<open>Service\<close>: the server of \<open>Wiring\<close> over a
    history of calls. \<open>Shared_State\<close>, \<open>Overlap\<close>: the pipeline on a state that others change between its
    actions, and calls that overlap. \<open>Http_Api\<close>: the JSON of the answers, the error codes and the metric families.
    \<open>Replicas\<close>: several policy engines behind a balancer, and the advisory on them.
  \<^item> \<open>Upstream_Http\<close>, \<open>Openai\<close>, \<open>Anthropic\<close>, \<open>Gemini\<close>, \<open>Adapters\<close>: \<open>internal/adapters\<close>, from the
    request each API gets to the timings of the answer. What the adapters share in the source by
    repetition (sending, the loop over server-sent events, the timings) is one definition in
    \<open>Upstream_Http\<close>. \<open>Adapter_Laws\<close>: the locale \<open>adapter_contract\<close>, interpreted on all five.
  \<^item> \<open>Telemetry\<close>: the JSON exporter of \<open>internal/telemetry\<close>, as functions and as the step relation of
    concurrent emits. \<open>Exporters\<close>: the other three exporters and the dispatch between all of them.
    \<open>Trace_Ids\<close>: \<open>internal/traceutil\<close>. \<open>Replay\<close>: \<open>internal/replay\<close>. \<open>Eval\<close>: \<open>internal/eval\<close>. \<open>Wiring\<close>: \<open>New\<close> of
    \<open>server.go\<close>, which puts the adapters and knowledge bases into the server. \<open>Cli\<close>:
    the commands of \<open>cmd/infercore/main.go\<close>. \<open>Process\<close>: its entry point, and the process of \<open>serve\<close> from
    the listener to the shutdown as a step relation.

  \<^bold>\<open>What the lemmas show.\<close> Of a call of \<open>/infer\<close>: the slot it takes is given back, its ledger row and
  steps agree with the answer, it has one of nine status codes, an invalid or unauthorised request
  touches nothing. Of the admission: the limit holds under every interleaving, the concurrent code
  refines the sequential one, and no interleaving goes on for ever. Of a history of calls: what the
  single calls promise adds up, so that counters, ledger and answers tell the same story; every call
  leaves one trace record; and calls that overlap do not disturb each other's rows; the evaluation client and \<open>/metrics\<close> read what was answered. Of routing and policy: the route
  is usable and the cheapest, the rate is bounded. Of an execution: its calls follow the candidates
  and the rules, and the failures of an upstream reach the rules as the trigger they belong to. Of the
  stores: they are the history of their writes, in memory and in SQL, down to the arguments of the
  statements; the timings stay bounded and
  evict the oldest. Of the streams: the text is the concatenation of the parts. Of the exporter: no
  record is lost or sent twice before the process ends. Of the process: a shutdown waits for the
  requests in work before it closes the ledger. Of the command line: a replay, and an exported
  dataset, run the request that was served. Theorems that show a defect are among the properties; the
  manifest lists them as findings.

  \<^bold>\<open>Conventions.\<close>

  \<^item> A call that can fail returns \<open>goerr + 'a\<close> or an optional error; state is passed and returned. A
    component that the source guards with a mutex is a function on its state, since its calls are
    atomic; where the source releases the lock or uses atomics (admission, telemetry) the steps
    are a relation.
  \<^item> The outside is a parameter: the HTTP transport and JSON decoder (\<open>net\<close>), the AWS SDK (\<open>aws\<close>), the
    clock, the identifiers, files, databases, the order in which Go ranges over a map, sorting
    where it is not stable. The text of an error that these make is theirs. Hypotheses on them
    are written in the statements.
  \<^item> JSON is the tree it decodes to. The bytes written and their parsing are left to \<open>encoding/json\<close>, and
    a document column is such a tree or empty.
  \<^item> Floats are rationals rounded to 53 bits, without infinities and NaN: a configuration that writes
    \<open>.inf\<close> or \<open>.nan\<close>, and costs that overflow, are outside the model. Case folding is that of ASCII; a path in the URL is taken
    clean, as \<open>ServeMux\<close> makes it by a redirect.
  \<^item> The nested structs of the configuration (\<open>slo\<close>, \<open>http\<close>, \<open>when\<close>, \<open>cost\<close>, \<open>overload\<close>) are flattened.
  \<^item> An upstream that sends its end marker and fails to read on at the same moment is taken to have
    ended; the base address of a remote knowledge base is taken to have no query of its own.
  \<^item> SQL statements denote operations on the tables with the keys of the schema; texts are taken to be
    ones the database accepts (UTF-8 without a zero byte).

  \<^bold>\<open>Loops.\<close> All recursions are total. The eviction of the timings, which can fail to return, is an
  option: \<open>slo_store_bounded\<close> shows that it returns for ids that are not empty, and a theorem shows
  where it does not. The scanner's limits of one megabyte and of 64 kilobytes are those of the source.

  \<^bold>\<open>Not modelled.\<close> What happens inside the libraries: the OpenTelemetry SDK (its counters are taken to be
  additive, as its specification says), the text format and the client library of Prometheus, the
  parsing of flags, YAML and JSON, the drivers of the databases. Of \<open>net/http\<close> only the documented
  behaviour of \<open>Shutdown\<close>. The log lines of the middleware. The texts of help messages. Calls that
  overlap are interleaved at the actions of the pipeline: a use of a component is one action, also
  where the component talks to the outside for long. The background flush of the
  OpenTelemetry SDK and the group of health probes that \<open>singleflight\<close> forms are taken as one call.
\<close>

end
